theory Spec2Isabelle
  imports Complex_Main "HOL-Library.Multiset" "HOL-Library.Sublist"
begin

section \<open>JavaScript strings\<close>

text \<open>
  Strings are lists of 8-bit code units; code units above 255 are outside the model. The
  helpers below follow the string methods the services call: \<open>trim\<close>, \<open>toLowerCase\<close>,
  \<open>toUpperCase\<close>, \<open>includes\<close> (written \<open>includesStr\<close>), \<open>split\<close> with a non-empty
  literal separator, \<open>padStart(2, '0')\<close>, and the decimal rendering of an integer inside a
  template literal. White space is the set that \<open>trim\<close> and the pattern \<open>\s\<close> share. The
  case mappings are those of Latin-1; the three letters whose upper case lies outside it
  (code units 181, 223 and 255) are left as they are.
\<close>

definition isWhiteSpace :: "char \<Rightarrow> bool" where
  "isWhiteSpace c \<longleftrightarrow>
     c = CHR 0x09 \<or> c = CHR 0x0A \<or> c = CHR 0x0B \<or> c = CHR 0x0C \<or> c = CHR 0x0D
     \<or> c = CHR 0x20 \<or> c = CHR 0xA0"

definition trim :: "string \<Rightarrow> string" where
  "trim s = rev (dropWhile isWhiteSpace (rev (dropWhile isWhiteSpace s)))"

definition codeUnit :: "char \<Rightarrow> nat" where
  "codeUnit c = of_char c"

definition isDigit :: "char \<Rightarrow> bool" where
  "isDigit c \<longleftrightarrow> 48 \<le> codeUnit c \<and> codeUnit c \<le> 57"

definition isUpper :: "char \<Rightarrow> bool" where
  "isUpper c \<longleftrightarrow> (65 \<le> codeUnit c \<and> codeUnit c \<le> 90)
     \<or> (192 \<le> codeUnit c \<and> codeUnit c \<le> 222 \<and> codeUnit c \<noteq> 215)"

definition isLower :: "char \<Rightarrow> bool" where
  "isLower c \<longleftrightarrow> (97 \<le> codeUnit c \<and> codeUnit c \<le> 122)
     \<or> (224 \<le> codeUnit c \<and> codeUnit c \<le> 254 \<and> codeUnit c \<noteq> 247)"

definition lowerChar :: "char \<Rightarrow> char" where
  "lowerChar c = (if isUpper c then char_of (codeUnit c + 32) else c)"

definition upperChar :: "char \<Rightarrow> char" where
  "upperChar c = (if isLower c then char_of (codeUnit c - 32) else c)"

definition toLowerCase :: "string \<Rightarrow> string" where
  "toLowerCase s = map lowerChar s"

definition toUpperCase :: "string \<Rightarrow> string" where
  "toUpperCase s = map upperChar s"

fun includesStr :: "string \<Rightarrow> string \<Rightarrow> bool" where
  "includesStr [] pat = (pat = [])"
| "includesStr (c # cs) pat = (prefix pat (c # cs) \<or> includesStr cs pat)"

fun splitFrom :: "string \<Rightarrow> string \<Rightarrow> string \<Rightarrow> string list" where
  "splitFrom sep acc [] = [rev acc]"
| "splitFrom sep acc (c # cs) =
     (if sep \<noteq> [] \<and> prefix sep (c # cs)
      then rev acc # splitFrom sep [] (drop (length sep) (c # cs))
      else splitFrom sep (c # acc) cs)"

definition split :: "string \<Rightarrow> string \<Rightarrow> string list" where
  "split s sep = splitFrom sep [] s"


text \<open>
  \<open>s.replace(/LIT\n?/g, '')\<close> for a non-empty literal \<open>LIT\<close>: every occurrence of the
  literal, together with one directly following newline, is removed, scanning left to right.
\<close>

definition dropNewline :: "string \<Rightarrow> string" where
  "dropNewline s = (case s of [] \<Rightarrow> [] | d # ds \<Rightarrow> if d = CHR 0x0A then ds else d # ds)"

function removeFence :: "string \<Rightarrow> string \<Rightarrow> string" where
  "removeFence lit [] = []"
| "removeFence lit (c # cs) =
     (if lit \<noteq> [] \<and> prefix lit (c # cs)
      then removeFence lit (dropNewline (drop (length lit) (c # cs)))
      else c # removeFence lit cs)"
  by pat_completeness auto
termination
proof (relation "measure (\<lambda>(lit, s). length s)")
  show "wf (measure (\<lambda>(lit, s). length s))" by simp
next
  fix lit :: string and c cs
  assume h: "lit \<noteq> [] \<and> prefix lit (c # cs)"
  have "length (dropNewline s) \<le> length s" for s
    by (simp add: dropNewline_def split: list.splits)
  then have "length (dropNewline (drop (length lit) (c # cs))) \<le> length (drop (length lit) (c # cs))" .
  moreover have "length (drop (length lit) (c # cs)) < length (c # cs)"
    using h by (cases lit) auto
  ultimately show "((lit, dropNewline (drop (length lit) (c # cs))), (lit, c # cs))
      \<in> measure (\<lambda>(lit, s). length s)"
    by simp
next
  fix lit :: string and c cs
  show "((lit, cs), (lit, c # cs)) \<in> measure (\<lambda>(lit, s). length s)" by simp
qed

section \<open>JSON values and property access\<close>

text \<open>
  The value a provider reply decodes to. \<open>undefined\<close> is \<open>None\<close> of \<open>json option\<close>;
  \<open>JNull\<close> is \<open>null\<close>. An object is an association list read with \<open>map_of\<close>.
  Truthiness is JavaScript's: \<open>undefined\<close>, \<open>null\<close>, \<open>false\<close>, \<open>0\<close> and the empty
  string are falsy, everything else (every array and object too) is truthy.
\<close>

datatype json =
    JNull
  | JBool bool
  | JNum rat
  | JStr string
  | JArr "json list"
  | JObj "(string \<times> json) list"

datatype jserror =
    Error string       \<comment> \<open>\<open>throw new Error(msg)\<close>\<close>
  | TypeError          \<comment> \<open>property read or method call on a value that has none\<close>
  | RangeError         \<comment> \<open>\<open>toISOString\<close> of an invalid date\<close>
  | SyntaxError        \<comment> \<open>\<open>JSON.parse\<close> of malformed text\<close>

fun truthy :: "json option \<Rightarrow> bool" where
  "truthy None = False"
| "truthy (Some JNull) = False"
| "truthy (Some (JBool b)) = b"
| "truthy (Some (JNum q)) = (q \<noteq> 0)"
| "truthy (Some (JStr s)) = (s \<noteq> [])"
| "truthy (Some (JArr xs)) = True"
| "truthy (Some (JObj kvs)) = True"

text \<open>\<open>a || b\<close>.\<close>

definition orElse :: "json option \<Rightarrow> json \<Rightarrow> json" where
  "orElse v d = (if truthy v then the v else d)"

text \<open>
  \<open>v.name\<close> for one of the property names the parsers read (none of them is a built-in
  property of strings, numbers, booleans or arrays): a \<open>TypeError\<close> on \<open>null\<close> and
  \<open>undefined\<close>, the member of an object, \<open>undefined\<close> otherwise.
\<close>

fun getProp :: "json option \<Rightarrow> string \<Rightarrow> jserror + json option" where
  "getProp None name = Inl TypeError"
| "getProp (Some JNull) name = Inl TypeError"
| "getProp (Some (JObj kvs)) name = Inr (map_of kvs name)"
| "getProp (Some v) name = Inr None"

text \<open>\<open>v?.name\<close>: \<open>undefined\<close> on \<open>null\<close> and \<open>undefined\<close>, the property otherwise.\<close>

fun getPropOpt :: "json option \<Rightarrow> string \<Rightarrow> json option" where
  "getPropOpt (Some (JObj kvs)) name = map_of kvs name"
| "getPropOpt v name = None"

text \<open>\<open>v[0]\<close> on a value that is neither \<open>null\<close> nor \<open>undefined\<close>.\<close>

fun index0 :: "json \<Rightarrow> json option" where
  "index0 (JArr xs) = (case xs of [] \<Rightarrow> None | x # _ \<Rightarrow> Some x)"
| "index0 (JStr s) = (case s of [] \<Rightarrow> None | c # _ \<Rightarrow> Some (JStr [c]))"
| "index0 (JObj kvs) = map_of kvs ''0''"
| "index0 v = None"

text \<open>\<open>v?.[0]\<close>.\<close>

fun index0Opt :: "json option \<Rightarrow> json option" where
  "index0Opt None = None"
| "index0Opt (Some JNull) = None"
| "index0Opt (Some v) = index0 v"

section \<open>Timetable events and parse results\<close>

datatype eventType = lecture | lab | tutorial | meeting | break

text \<open>
  \<open>ParsedTimetableEvent\<close>; the field \<open>id\<close> is written \<open>eid\<close>, since \<open>id\<close> is HOL's
  identity function.
\<close>

record ParsedTimetableEvent =
  eid :: string
  title :: string
  time :: string
  date :: string
  location :: string
  type :: eventType
  duration :: string
  instructor :: "string option"
  courseCode :: "string option"
  room :: "string option"
  building :: "string option"

text \<open>
  The \<open>events\<close> of an enhancement result are either the caller's own list or whatever
  value the model put under \<open>enhancedEvents\<close>; nothing checks the latter.
\<close>

datatype eventList = Original "ParsedTimetableEvent list" | FromModel json

record 'e ParseResult =
  success :: bool
  events :: 'e
  confidence :: json
  errors :: "string list"
  enhancedFields :: "json option"
  rawResponse :: "json option"

section \<open>AI enhancement (llm-parser.ts)\<close>

datatype provider = openai | gemini

text \<open>
  The outcome of the one \<open>fetch\<close> an enhancement makes: the call rejects, or a response
  arrives with its \<open>ok\<close> flag, status, status text and the outcome of \<open>response.json()\<close>
  (\<open>None\<close> when the body is not JSON and \<open>json()\<close> rejects).
\<close>

datatype fetchResult =
    Rejected string
  | Response bool string string "json option"

text \<open>
  \<open>JSON.parse\<close> is the platform's; the model takes it as the parameter \<open>parse\<close>, with
  \<open>None\<close> for a \<open>SyntaxError\<close>. Messages of errors the engine raises are engine text; the
  model writes the error's class name for them.
\<close>

definition message :: "jserror \<Rightarrow> string" where
  "message e = (case e of Error m \<Rightarrow> m | TypeError \<Rightarrow> ''TypeError''
     | RangeError \<Rightarrow> ''RangeError'' | SyntaxError \<Rightarrow> ''SyntaxError'')"

definition cleanContent :: "string \<Rightarrow> string" where
  "cleanContent content = trim (removeFence ''```'' (removeFence ''```json'' content))"

definition enhanceFallback ::
  "ParsedTimetableEvent list \<Rightarrow> string \<Rightarrow> json option \<Rightarrow> eventList ParseResult" where
  "enhanceFallback originalEvents msg raw =
     \<lparr>success = False, events = Original originalEvents, confidence = JNum 70,
      errors = [msg], enhancedFields = None, rawResponse = raw\<rparr>"

definition parseEnhancementResponse ::
  "(string \<Rightarrow> json option) \<Rightarrow> json \<Rightarrow> ParsedTimetableEvent list \<Rightarrow> eventList ParseResult" where
  "parseEnhancementResponse parse content originalEvents =
     (case content of
        JStr reply \<Rightarrow>
          (case parse (cleanContent reply) of
             None \<Rightarrow> enhanceFallback originalEvents
                       (''Enhancement parsing failed: '' @ message SyntaxError) (Some content)
           | Some parsed \<Rightarrow>
               (case getProp (Some parsed) ''enhancedEvents'' of
                  Inl e \<Rightarrow> enhanceFallback originalEvents
                            (''Enhancement parsing failed: '' @ message e) (Some content)
                | Inr ee \<Rightarrow>
                    \<lparr>success = True,
                     events = (if truthy ee then FromModel (the ee) else Original originalEvents),
                     confidence = orElse (getPropOpt (Some parsed) ''confidence'') (JNum 80),
                     errors = [],
                     enhancedFields =
                       Some (orElse (getPropOpt (Some parsed) ''enhancedFields'') (JArr [])),
                     rawResponse = Some content\<rparr>))
      | _ \<Rightarrow> enhanceFallback originalEvents
               (''Enhancement parsing failed: '' @ message TypeError) (Some content))"

text \<open>
  \<open>data.choices[0]?.message?.content\<close> and
  \<open>data.candidates?.[0]?.content?.parts?.[0]?.text\<close>.
\<close>

definition openaiContent :: "json \<Rightarrow> jserror + json option" where
  "openaiContent data =
     (case getProp (Some data) ''choices'' of
        Inl e \<Rightarrow> Inl e
      | Inr choices \<Rightarrow>
          (case choices of
             None \<Rightarrow> Inl TypeError
           | Some JNull \<Rightarrow> Inl TypeError
           | Some c \<Rightarrow> Inr (getPropOpt (getPropOpt (index0 c) ''message'') ''content'')))"

definition geminiContent :: "json \<Rightarrow> jserror + json option" where
  "geminiContent data =
     (case getProp (Some data) ''candidates'' of
        Inl e \<Rightarrow> Inl e
      | Inr candidates \<Rightarrow>
          Inr (getPropOpt (index0Opt (getPropOpt (getPropOpt (index0Opt candidates) ''content'')
                 ''parts'')) ''text''))"

definition providerName :: "provider \<Rightarrow> string" where
  "providerName p = (case p of openai \<Rightarrow> ''OpenAI'' | gemini \<Rightarrow> ''Gemini'')"

text \<open>
  \<open>errorData.error?.message || 'Unknown error'\<close> of a non-2xx reply, where \<open>errorData\<close> is
  the decoded body or \<open>{}\<close> when decoding rejects.
\<close>

definition apiErrorDetail :: "json option \<Rightarrow> jserror + json" where
  "apiErrorDetail body =
     (case getProp (Some (case body of None \<Rightarrow> JObj [] | Some b \<Rightarrow> b)) ''error'' of
        Inl e \<Rightarrow> Inl e
      | Inr err \<Rightarrow> Inr (orElse (getPropOpt err ''message'') (JStr ''Unknown error'')))"

text \<open>
  \<open>enhanceWithOpenAI\<close> and \<open>enhanceWithGemini\<close> differ only in the request, the path to
  the reply text and the name in their messages. Text that the template literal would
  render from a value of the reply is not spelled out in the message.
\<close>

definition enhanceWith ::
  "provider \<Rightarrow> (string \<Rightarrow> json option) \<Rightarrow> fetchResult \<Rightarrow> ParsedTimetableEvent list
     \<Rightarrow> eventList ParseResult" where
  "enhanceWith p parse res originalEvents =
     (case res of
        Rejected msg \<Rightarrow> enhanceFallback originalEvents msg None
      | Response ok status statusText body \<Rightarrow>
          if \<not> ok then
            (case apiErrorDetail body of
               Inl e \<Rightarrow> enhanceFallback originalEvents (message e) None
             | Inr _ \<Rightarrow> enhanceFallback originalEvents
                 (providerName p @ '' API error: '' @ status @ '' '' @ statusText) None)
          else
            (case body of
               None \<Rightarrow> enhanceFallback originalEvents (message SyntaxError) None
             | Some data \<Rightarrow>
                 (case (case p of openai \<Rightarrow> openaiContent data | gemini \<Rightarrow> geminiContent data) of
                    Inl e \<Rightarrow> enhanceFallback originalEvents (message e) None
                  | Inr content \<Rightarrow>
                      if \<not> truthy content
                      then enhanceFallback originalEvents
                             (''No response from '' @ providerName p) None
                      else parseEnhancementResponse parse (the content) originalEvents)))"

text \<open>
  \<open>enhanceEvents\<close>: the summary of the events and the prompt only feed the request; the
  result is decided by what the provider call returns. \<open>promptError\<close> is the exception, if
  any, raised while the prompt is built (serializing the raw rows can raise); the outer
  \<open>catch\<close> then builds the same fallback as the inner ones, with \<open>enhancedFields: []\<close>.
\<close>

definition enhanceEvents ::
  "provider \<Rightarrow> (string \<Rightarrow> json option) \<Rightarrow> jserror option \<Rightarrow> fetchResult
     \<Rightarrow> ParsedTimetableEvent list \<Rightarrow> eventList ParseResult" where
  "enhanceEvents p parse promptError res evs =
     (case promptError of
        Some e \<Rightarrow> (enhanceFallback evs (message e) None)\<lparr>enhancedFields := Some (JArr [])\<rparr>
      | None \<Rightarrow> enhanceWith p parse res evs)"

text \<open>
  The failures the enhancement contract names: the provider call rejects, the reply is not
  2xx, the reply body is not JSON, or the model's reply text is not JSON.
\<close>

definition replyContent :: "provider \<Rightarrow> json \<Rightarrow> jserror + json option" where
  "replyContent p data = (case p of openai \<Rightarrow> openaiContent data | gemini \<Rightarrow> geminiContent data)"

definition enhancementFailed ::
  "provider \<Rightarrow> (string \<Rightarrow> json option) \<Rightarrow> fetchResult \<Rightarrow> bool" where
  "enhancementFailed p parse res =
     (case res of
        Rejected msg \<Rightarrow> True
      | Response ok status statusText body \<Rightarrow>
          \<not> ok \<or>
          (case body of
             None \<Rightarrow> True
           | Some data \<Rightarrow>
               (case replyContent p data of
                  Inr (Some (JStr reply)) \<Rightarrow> reply \<noteq> [] \<and> parse (cleanContent reply) = None
                | _ \<Rightarrow> False)))"

text \<open>A normalized event used in the examples.\<close>

definition algorithmsEvent :: ParsedTimetableEvent where
  "algorithmsEvent =
     \<lparr>eid = ''local-parsed-1705312800000-0'', title = ''Algorithms'',
      time = ''09:00 - 10:30'', date = ''2024-01-15'', location = ''101, CS Building'',
      type = lecture, duration = ''1h 30m'', instructor = None, courseCode = None,
      room = Some ''101'', building = Some ''CS Building''\<rparr>"

section \<open>Numbers and their strings\<close>

text \<open>
  A number is an integer or \<open>NaN\<close> (\<open>None\<close>). \<open>Number(s)\<close> is modelled on the integer
  literals: surrounding white space is dropped, the empty string is \<open>0\<close>, an optional sign
  and decimal digits give their value, and any other text is \<open>NaN\<close>. This is what the
  language does for every text that is no numeric literal at all, and for every integer
  literal below \<open>2^53\<close>; the other numeric literals (a fraction, an exponent, a radix
  prefix, \<open>Infinity\<close>) are numbers in the language and are outside the model. The predicate
  \<open>modelledNumber\<close> below tells the two apart, and the statements that depend on the value
  of a number assume it of the texts they convert.
\<close>

type_synonym number = "int option"

definition digitValue :: "char \<Rightarrow> int" where
  "digitValue c = int (codeUnit c) - 48"

definition digitsValue :: "string \<Rightarrow> number" where
  "digitsValue ds =
     (if ds \<noteq> [] \<and> list_all isDigit ds
      then Some (foldl (\<lambda>a c. 10 * a + digitValue c) 0 ds) else None)"

definition Number :: "string \<Rightarrow> number" where
  "Number s =
     (case trim s of
        [] \<Rightarrow> Some 0
      | c # cs \<Rightarrow>
          if c = CHR ''-'' then map_option uminus (digitsValue cs)
          else if c = CHR ''+'' then digitsValue cs
          else digitsValue (c # cs))"

text \<open>
  The texts that are numeric literals of the language (\<open>StrNumericLiteral\<close> of the
  standard): an optional sign and \<open>Infinity\<close> or decimal digits with an optional fraction
  and an optional exponent, or an unsigned binary, octal or hexadecimal integer with its
  prefix.
\<close>

definition isExponentPart :: "string \<Rightarrow> bool" where
  "isExponentPart s =
     (case s of
        [] \<Rightarrow> False
      | c # r \<Rightarrow>
          (c = CHR ''e'' \<or> c = CHR ''E'')
          \<and> (case r of
                [] \<Rightarrow> False
              | d # ds \<Rightarrow>
                  if d = CHR ''+'' \<or> d = CHR ''-'' then ds \<noteq> [] \<and> list_all isDigit ds
                  else list_all isDigit (d # ds)))"

definition isUnsignedDecimal :: "string \<Rightarrow> bool" where
  "isUnsignedDecimal s =
     (s = ''Infinity''
      \<or> (let ip = takeWhile isDigit s; r = dropWhile isDigit s
         in case r of
              [] \<Rightarrow> ip \<noteq> []
            | c # r1 \<Rightarrow>
                if c = CHR ''.''
                then (let fp = takeWhile isDigit r1; r2 = dropWhile isDigit r1
                      in \<not> (ip = [] \<and> fp = []) \<and> (r2 = [] \<or> isExponentPart r2))
                else ip \<noteq> [] \<and> isExponentPart r))"

definition isHexDigit :: "char \<Rightarrow> bool" where
  "isHexDigit c \<longleftrightarrow>
     isDigit c \<or> (97 \<le> codeUnit c \<and> codeUnit c \<le> 102) \<or> (65 \<le> codeUnit c \<and> codeUnit c \<le> 70)"

definition isNonDecimalInteger :: "string \<Rightarrow> bool" where
  "isNonDecimalInteger s =
     (case s of
        z # x # ds \<Rightarrow>
          z = CHR ''0'' \<and> ds \<noteq> []
          \<and> ((x = CHR ''b'' \<or> x = CHR ''B'')
                \<and> list_all (\<lambda>c. c = CHR ''0'' \<or> c = CHR ''1'') ds
              \<or> (x = CHR ''o'' \<or> x = CHR ''O'')
                \<and> list_all (\<lambda>c. 48 \<le> codeUnit c \<and> codeUnit c \<le> 55) ds
              \<or> (x = CHR ''x'' \<or> x = CHR ''X'') \<and> list_all isHexDigit ds)
      | _ \<Rightarrow> False)"

definition isStrNumericLiteral :: "string \<Rightarrow> bool" where
  "isStrNumericLiteral s =
     (case s of
        [] \<Rightarrow> False
      | c # r \<Rightarrow>
          if c = CHR ''+'' \<or> c = CHR ''-'' then isUnsignedDecimal r
          else isUnsignedDecimal s \<or> isNonDecimalInteger s)"

text \<open>
  \<open>Number\<close> of a text is modelled exactly, within a bound \<open>b\<close>, when the model gives it an
  integer of absolute value at most \<open>b\<close>, or gives it \<open>NaN\<close> and the text, trimmed, is no
  numeric literal.
\<close>

definition modelledNumber :: "int \<Rightarrow> string \<Rightarrow> bool" where
  "modelledNumber b s =
     (case Number s of
        Some n \<Rightarrow> \<bar>n\<bar> \<le> b
      | None \<Rightarrow> \<not> isStrNumericLiteral (trim s))"

text \<open>\<open>Number(undefined)\<close> is \<open>NaN\<close>: the element a destructuring finds missing.\<close>

definition NumberAt :: "string list \<Rightarrow> nat \<Rightarrow> number" where
  "NumberAt parts i = (if i < length parts then Number (parts ! i) else None)"

text \<open>
  A clock text \<open>h:m\<close> has modelled numbers when the two texts that \<open>split(':')\<close> puts first
  have; a time range has when its first two pieces have.
\<close>

definition modelledClock :: "int \<Rightarrow> string \<Rightarrow> bool" where
  "modelledClock b piece = list_all (modelledNumber b) (take 2 (split piece '':''))"

definition modelledRange :: "int \<Rightarrow> string \<Rightarrow> bool" where
  "modelledRange b timeRange = list_all (modelledClock b) (take 2 (split timeRange '' - ''))"

definition digitChar :: "int \<Rightarrow> char" where
  "digitChar n = char_of (48 + nat n)"

text \<open>The decimal digits of a non-negative integer.\<close>

function showDigits :: "int \<Rightarrow> string" where
  "showDigits n =
     (if n < 10 then [digitChar n] else showDigits (n div 10) @ [digitChar (n mod 10)])"
  by pat_completeness auto
termination
  by (relation "measure (\<lambda>n. nat n)") auto

declare showDigits.simps [simp del]

definition showNat :: "nat \<Rightarrow> string" where
  "showNat n = showDigits (int n)"

definition showInt :: "int \<Rightarrow> string" where
  "showInt i = (if i < 0 then CHR ''-'' # showDigits (- i) else showDigits i)"

text \<open>A number inside a template literal, or \<open>n.toString()\<close>.\<close>

definition showNumber :: "number \<Rightarrow> string" where
  "showNumber n = (case n of None \<Rightarrow> ''NaN'' | Some i \<Rightarrow> showInt i)"

text \<open>\<open>s.padStart(2, '0')\<close>.\<close>

definition padStart2 :: "string \<Rightarrow> string" where
  "padStart2 s = replicate (2 - length s) (CHR ''0'') @ s"

text \<open>\<open>a % b\<close> on integers: the remainder has the sign of the dividend.\<close>

definition jsRem :: "int \<Rightarrow> int \<Rightarrow> int" where
  "jsRem a b = sgn a * (\<bar>a\<bar> mod \<bar>b\<bar>)"

section \<open>Dates\<close>

text \<open>
  A \<open>Date\<close> holds a time value: milliseconds since the epoch, or \<open>NaN\<close>. The functions
  below are the abstract operations of the language standard. The local time zone is the
  standard's \<open>LocalTZA(t, isUTC)\<close>, the parameter \<open>localTZA\<close>: the offset of local time
  from UTC in milliseconds, at the instant \<open>t\<close> when \<open>isUTC\<close> is true and at the local
  time \<open>t\<close> when it is false, so that a zone may change its offset in the course of a
  year. The text of a date is decoded by the standard for the form \<open>YYYY-MM-DD\<close>, which is
  read as midnight UTC; how any other text is decoded is the engine's choice, the parameter
  \<open>parseOther\<close>.
\<close>

record env =
  localTZA :: "int \<Rightarrow> bool \<Rightarrow> int"
  parseOther :: "string \<Rightarrow> number"

definition msPerDay :: int where "msPerDay = 86400000"
definition msPerHour :: int where "msPerHour = 3600000"
definition msPerMinute :: int where "msPerMinute = 60000"

definition Day :: "int \<Rightarrow> int" where
  "Day t = t div msPerDay"

definition TimeWithinDay :: "int \<Rightarrow> int" where
  "TimeWithinDay t = t mod msPerDay"

definition DayFromYear :: "int \<Rightarrow> int" where
  "DayFromYear y = 365 * (y - 1970) + (y - 1969) div 4 - (y - 1901) div 100 + (y - 1601) div 400"

definition InLeapYear :: "int \<Rightarrow> bool" where
  "InLeapYear y \<longleftrightarrow> (y mod 4 = 0 \<and> y mod 100 \<noteq> 0) \<or> y mod 400 = 0"

text \<open>
  \<open>YearFromTime\<close>: the largest year whose first day is not after the given day, found by
  counting up from a year that is not too late.
\<close>

function yearSearch :: "int \<Rightarrow> int \<Rightarrow> int" where
  "yearSearch d y = (if DayFromYear (y + 1) \<le> d then yearSearch d (y + 1) else y)"
  by pat_completeness auto
termination
proof (relation "measure (\<lambda>(d, y). nat (d - DayFromYear y))")
  show "wf (measure (\<lambda>(d, y). nat (d - DayFromYear y)))" by simp
next
  fix d y :: int
  assume "DayFromYear (y + 1) \<le> d"
  moreover have "DayFromYear y < DayFromYear (y + 1)"
  proof -
    have a: "(y - 1969) div 4 \<le> (y + 1 - 1969) div (4::int)"
      by (rule zdiv_mono1) auto
    have "(y + 1 - 1901) div 100 \<le> (y - 1901 + 100) div (100::int)"
      by (rule zdiv_mono1) auto
    then have b: "(y + 1 - 1901) div 100 \<le> (y - 1901) div (100::int) + 1"
      by simp
    have c: "(y - 1601) div 400 \<le> (y + 1 - 1601) div (400::int)"
      by (rule zdiv_mono1) auto
    have gen: "p \<le> p' \<Longrightarrow> q' \<le> q + 1 \<Longrightarrow> r \<le> r' \<Longrightarrow>
        365 * (y - 1970) + p - q + r < 365 * (y + 1 - 1970) + p' - q' + r'"
      for p p' q q' r r' :: int
      by arith
    show ?thesis
      unfolding DayFromYear_def by (rule gen [OF a b c])
  qed
  ultimately show "((d, y + 1), (d, y)) \<in> measure (\<lambda>(d, y). nat (d - DayFromYear y))"
    by simp
qed

declare yearSearch.simps [simp del]

definition YearFromDay :: "int \<Rightarrow> int" where
  "YearFromDay d = yearSearch d (1970 + (if 0 \<le> d then d div 366 else d div 365))"

definition YearFromTime :: "int \<Rightarrow> int" where
  "YearFromTime t = YearFromDay (Day t)"

definition DayWithinYear :: "int \<Rightarrow> int" where
  "DayWithinYear t = Day t - DayFromYear (YearFromTime t)"

text \<open>The number of days of the year before each month, January first.\<close>

definition monthStarts :: "bool \<Rightarrow> int list" where
  "monthStarts leap =
     (let l = (if leap then 1 else 0)
      in [0, 31, 59 + l, 90 + l, 120 + l, 151 + l, 181 + l, 212 + l, 243 + l, 273 + l,
          304 + l, 334 + l])"

definition MonthFromTime :: "int \<Rightarrow> nat" where
  "MonthFromTime t =
     length (filter (\<lambda>s. s \<le> DayWithinYear t) (monthStarts (InLeapYear (YearFromTime t)))) - 1"

definition DateFromTime :: "int \<Rightarrow> int" where
  "DateFromTime t =
     DayWithinYear t - monthStarts (InLeapYear (YearFromTime t)) ! MonthFromTime t + 1"

definition WeekDay :: "int \<Rightarrow> int" where
  "WeekDay t = (Day t + 4) mod 7"

definition HourFromTime :: "int \<Rightarrow> int" where
  "HourFromTime t = (t div msPerHour) mod 24"

definition MinFromTime :: "int \<Rightarrow> int" where
  "MinFromTime t = (t div msPerMinute) mod 60"

definition SecFromTime :: "int \<Rightarrow> int" where
  "SecFromTime t = (t div 1000) mod 60"

definition msFromTime :: "int \<Rightarrow> int" where
  "msFromTime t = t mod 1000"

definition MakeTime :: "int \<Rightarrow> int \<Rightarrow> int \<Rightarrow> int \<Rightarrow> int" where
  "MakeTime h m s milli = h * msPerHour + m * msPerMinute + s * 1000 + milli"

text \<open>\<open>MakeDay\<close> for a month index in \<open>0..11\<close>, the only ones the services pass.\<close>

definition MakeDay :: "int \<Rightarrow> nat \<Rightarrow> int \<Rightarrow> int" where
  "MakeDay y m dt = DayFromYear y + monthStarts (InLeapYear y) ! m + dt - 1"

definition MakeDate :: "int \<Rightarrow> int \<Rightarrow> int" where
  "MakeDate day tm = day * msPerDay + tm"

definition TimeClip :: "int \<Rightarrow> number" where
  "TimeClip t = (if \<bar>t\<bar> > 8640000000000000 then None else Some t)"

definition LocalTime :: "env \<Rightarrow> int \<Rightarrow> int" where
  "LocalTime E t = t + localTZA E t True"

definition UTC :: "env \<Rightarrow> int \<Rightarrow> int" where
  "UTC E t = t - localTZA E t False"

text \<open>\<open>date.setHours(h, m, 0, 0)\<close>, returning the new time value of the date.\<close>

definition setHours :: "env \<Rightarrow> number \<Rightarrow> number \<Rightarrow> number \<Rightarrow> number" where
  "setHours E tv h m =
     (case (tv, h, m) of
        (Some t, Some hh, Some mm) \<Rightarrow>
          TimeClip (UTC E (MakeDate (Day (LocalTime E t)) (MakeTime hh mm 0 0)))
      | _ \<Rightarrow> None)"

text \<open>\<open>date.setDate(dt)\<close>.\<close>

definition setDate :: "env \<Rightarrow> number \<Rightarrow> number \<Rightarrow> number" where
  "setDate E tv dt =
     (case (tv, dt) of
        (Some t, Some d) \<Rightarrow>
          (let lt = LocalTime E t
           in TimeClip (UTC E (MakeDate (MakeDay (YearFromTime lt) (MonthFromTime lt) d)
                                 (TimeWithinDay lt))))
      | _ \<Rightarrow> None)"

definition getDay :: "env \<Rightarrow> number \<Rightarrow> number" where
  "getDay E tv = (case tv of None \<Rightarrow> None | Some t \<Rightarrow> Some (WeekDay (LocalTime E t)))"

definition getDate :: "env \<Rightarrow> number \<Rightarrow> number" where
  "getDate E tv = (case tv of None \<Rightarrow> None | Some t \<Rightarrow> Some (DateFromTime (LocalTime E t)))"

definition getHours :: "env \<Rightarrow> number \<Rightarrow> number" where
  "getHours E tv = (case tv of None \<Rightarrow> None | Some t \<Rightarrow> Some (HourFromTime (LocalTime E t)))"

definition getMinutes :: "env \<Rightarrow> number \<Rightarrow> number" where
  "getMinutes E tv = (case tv of None \<Rightarrow> None | Some t \<Rightarrow> Some (MinFromTime (LocalTime E t)))"

text \<open>Zero-padded decimal of a non-negative number, to at least \<open>w\<close> digits.\<close>

definition padNat :: "nat \<Rightarrow> int \<Rightarrow> string" where
  "padNat w n = (let s = showDigits n in replicate (w - length s) (CHR ''0'') @ s)"

definition isoYear :: "int \<Rightarrow> string" where
  "isoYear y =
     (if 0 \<le> y \<and> y \<le> 9999 then padNat 4 y
      else if y < 0 then CHR ''-'' # padNat 6 (- y) else CHR ''+'' # padNat 6 y)"

definition isoDate :: "int \<Rightarrow> string" where
  "isoDate t = isoYear (YearFromTime t) @ ''-'' @ padNat 2 (int (MonthFromTime t) + 1)
     @ ''-'' @ padNat 2 (DateFromTime t)"

definition isoTime :: "int \<Rightarrow> string" where
  "isoTime t = padNat 2 (HourFromTime t) @ '':'' @ padNat 2 (MinFromTime t) @ '':''
     @ padNat 2 (SecFromTime t) @ ''.'' @ padNat 3 (msFromTime t) @ ''Z''"

text \<open>\<open>date.toISOString()\<close>: a \<open>RangeError\<close> on an invalid date.\<close>

definition toISOString :: "number \<Rightarrow> jserror + string" where
  "toISOString tv =
     (case tv of None \<Rightarrow> Inl RangeError | Some t \<Rightarrow> Inr (isoDate t @ ''T'' @ isoTime t))"

definition DaysInMonth :: "int \<Rightarrow> nat \<Rightarrow> int" where
  "DaysInMonth y m =
     (if m = 1 then (if InLeapYear y then 29 else 28)
      else if m \<in> {3, 5, 8, 10} then 30 else 31)"

text \<open>
  \<open>new Date(text)\<close>: the form \<open>YYYY-MM-DD\<close> with a month and a day that exist is midnight
  UTC of that day; every other text is left to \<open>parseOther\<close>.
\<close>

definition isIsoDateOnly :: "string \<Rightarrow> bool" where
  "isIsoDateOnly s \<longleftrightarrow>
     length s = 10 \<and> list_all isDigit (take 4 s) \<and> s ! 4 = CHR ''-''
     \<and> list_all isDigit (take 2 (drop 5 s)) \<and> s ! 7 = CHR ''-''
     \<and> list_all isDigit (drop 8 s)"

definition newDate :: "env \<Rightarrow> string \<Rightarrow> number" where
  "newDate E s =
     (if isIsoDateOnly s then
        (let y = the (digitsValue (take 4 s));
             m = the (digitsValue (take 2 (drop 5 s)));
             d = the (digitsValue (drop 8 s))
         in if 1 \<le> m \<and> m \<le> 12 \<and> 1 \<le> d \<and> d \<le> DaysInMonth y (nat (m - 1))
            then TimeClip (MakeDate (MakeDay y (nat (m - 1)) d) 0)
            else parseOther E s)
      else parseOther E s)"

text \<open>The environment in which local time is UTC.\<close>

definition utcEnv :: env where
  "utcEnv = \<lparr>localTZA = (\<lambda>t isUTC. 0), parseOther = (\<lambda>s. None)\<rparr>"

section \<open>The structured parser (local-parser.ts)\<close>

text \<open>
  A row maps header names to cell values; a missing header is \<open>undefined\<close>. Cells of a CSV
  file are strings, cells of a spreadsheet may be numbers or booleans as well.
\<close>

type_synonym row = "string \<Rightarrow> json option"

text \<open>
  \<open>s.replace(/\s+/g, r)\<close>: every maximal run of white space becomes \<open>r\<close>. The flag says
  whether the character before was white space, so that a run is replaced once.
\<close>

fun replaceRuns :: "bool \<Rightarrow> string \<Rightarrow> string \<Rightarrow> string" where
  "replaceRuns inRun r [] = []"
| "replaceRuns inRun r (c # cs) =
     (if isWhiteSpace c then (if inRun then [] else r) @ replaceRuns True r cs
      else c # replaceRuns False r cs)"

definition replaceSpaceRuns :: "string \<Rightarrow> string \<Rightarrow> string" where
  "replaceSpaceRuns r s = replaceRuns False r s"

text \<open>\<open>a || b\<close> on values that may be \<open>undefined\<close>.\<close>

definition orJ :: "json option \<Rightarrow> json option \<Rightarrow> json option" where
  "orJ a b = (if truthy a then a else b)"

fun findValueByKeys :: "row \<Rightarrow> string list \<Rightarrow> string option" where
  "findValueByKeys r [] = None"
| "findValueByKeys r (key # keys) =
     (case orJ (r key) (orJ (r (replaceSpaceRuns [] key)) (r (replaceSpaceRuns ''_'' key))) of
        Some (JStr s) \<Rightarrow> if trim s \<noteq> [] then Some (trim s) else findValueByKeys r keys
      | _ \<Rightarrow> findValueByKeys r keys)"

definition titleKeys :: "string list" where
  "titleKeys = [''title'', ''course'', ''subject'', ''event'', ''name'', ''course name'', ''event name'']"
definition timeKeys :: "string list" where
  "timeKeys = [''time'', ''schedule'', ''period'', ''hours'', ''timing'']"
definition dateKeys :: "string list" where
  "dateKeys = [''date'', ''day'', ''when'']"
definition locationKeys :: "string list" where
  "locationKeys = [''location'', ''room'', ''venue'', ''place'', ''where'']"
definition typeKeys :: "string list" where
  "typeKeys = [''type'', ''category'', ''kind'']"
definition instructorKeys :: "string list" where
  "instructorKeys = [''instructor'', ''teacher'', ''professor'', ''lecturer'', ''prof'']"
definition courseCodeKeys :: "string list" where
  "courseCodeKeys = [''code'', ''course code'', ''subject code'', ''id'']"
definition durationKeys :: "string list" where
  "durationKeys = [''duration'', ''length'']"

definition cleanTitle :: "string \<Rightarrow> string" where
  "cleanTitle s = replaceSpaceRuns '' '' (trim s)"

subsection \<open>Times\<close>

text \<open>
  One attempt of the pattern \<open>(\d{1,2}):?(\d{2})?\s*(AM|PM)\<close>, flags \<open>gi\<close>, at the head of
  a string, with the priorities of a backtracking matcher: two hour digits before one, the
  colon before none, the minutes before none. A match gives the hour digits, the minutes
  if they took part, the marker as written and the text after the match.
\<close>

definition matchPeriod :: "string \<Rightarrow> (string \<times> string) option" where
  "matchPeriod s =
     (case dropWhile isWhiteSpace s of
        a # b # rest \<Rightarrow>
          if toUpperCase [a, b] = ''AM'' \<or> toUpperCase [a, b] = ''PM''
          then Some ([a, b], rest) else None
      | _ \<Rightarrow> None)"

definition matchMinutes :: "string \<Rightarrow> (string option \<times> string \<times> string) option" where
  "matchMinutes s =
     (case (case s of
              a # b # rest \<Rightarrow>
                if isDigit a \<and> isDigit b
                then map_option (\<lambda>(p, r). (Some [a, b], p, r)) (matchPeriod rest) else None
            | _ \<Rightarrow> None) of
        Some m \<Rightarrow> Some m
      | None \<Rightarrow> map_option (\<lambda>(p, r). (None, p, r)) (matchPeriod s))"

definition matchColon :: "string \<Rightarrow> (string option \<times> string \<times> string) option" where
  "matchColon s =
     (case (case s of c # rest \<Rightarrow> if c = CHR '':'' then matchMinutes rest else None
                    | [] \<Rightarrow> None) of
        Some m \<Rightarrow> Some m
      | None \<Rightarrow> matchMinutes s)"

definition matchAt :: "string \<Rightarrow> (string \<times> string option \<times> string \<times> string) option" where
  "matchAt s =
     (case (case s of
              a # b # rest \<Rightarrow>
                if isDigit a \<and> isDigit b
                then map_option (\<lambda>m. ([a, b], m)) (matchColon rest) else None
            | _ \<Rightarrow> None) of
        Some m \<Rightarrow> Some m
      | None \<Rightarrow>
          (case s of
             a # rest \<Rightarrow> if isDigit a then map_option (\<lambda>m. ([a], m)) (matchColon rest) else None
           | [] \<Rightarrow> None))"

text \<open>The replacement callback of \<open>convert12to24\<close>.\<close>

definition to24 :: "string \<Rightarrow> string option \<Rightarrow> string \<Rightarrow> string" where
  "to24 hours minutes period =
     (let h0 = the (digitsValue hours);
          h1 = (if toUpperCase period = ''PM'' \<and> h0 \<noteq> 12 then h0 + 12 else h0);
          h = (if toUpperCase period = ''AM'' \<and> h1 = 12 then 0 else h1)
      in padStart2 (showInt h) @ '':'' @ (case minutes of None \<Rightarrow> ''00'' | Some m \<Rightarrow> m))"

text \<open>
  The global replace: \<open>k\<close> counts the characters still covered by the last match, which are
  skipped; outside a match every position is tried in turn.
\<close>

fun replace12 :: "nat \<Rightarrow> string \<Rightarrow> string" where
  "replace12 k [] = []"
| "replace12 (Suc k) (c # cs) = replace12 k cs"
| "replace12 0 (c # cs) =
     (case matchAt (c # cs) of
        Some (hours, minutes, period, rest) \<Rightarrow>
          to24 hours minutes period @ replace12 (length cs - length rest) cs
      | None \<Rightarrow> c # replace12 0 cs)"

definition convert12to24 :: "string \<Rightarrow> string" where
  "convert12to24 s = replace12 0 s"

definition addNumber :: "number \<Rightarrow> number \<Rightarrow> number" where
  "addNumber a b = (case (a, b) of (Some x, Some y) \<Rightarrow> Some (x + y) | _ \<Rightarrow> None)"

definition subNumber :: "number \<Rightarrow> number \<Rightarrow> number" where
  "subNumber a b = (case (a, b) of (Some x, Some y) \<Rightarrow> Some (x - y) | _ \<Rightarrow> None)"

definition mulNumber :: "number \<Rightarrow> number \<Rightarrow> number" where
  "mulNumber a b = (case (a, b) of (Some x, Some y) \<Rightarrow> Some (x * y) | _ \<Rightarrow> None)"

text \<open>\<open>now\<close> is the reading of the clock that \<open>new Date()\<close> and \<open>Date.now()\<close> return.\<close>

definition addMinutes :: "env \<Rightarrow> int \<Rightarrow> string \<Rightarrow> int \<Rightarrow> string" where
  "addMinutes E now timeStr minutes =
     (let parts = split timeStr '':'';
          hours = NumberAt parts 0;
          mins = NumberAt parts 1;
          d = setHours E (Some now) hours (addNumber mins (Some minutes))
      in padStart2 (showNumber (getHours E d)) @ '':'' @ padStart2 (showNumber (getMinutes E d)))"

definition normalizeTime :: "env \<Rightarrow> int \<Rightarrow> string \<Rightarrow> string" where
  "normalizeTime E now t =
     (let t1 = trim t;
          t2 = (if includesStr t1 ''AM'' \<or> includesStr t1 ''PM'' then convert12to24 t1 else t1)
      in if \<not> includesStr t2 '' - '' then t2 @ '' - '' @ addMinutes E now t2 90 else t2)"

subsection \<open>Dates\<close>

text \<open>\<open>date.toISOString().split('T')[0]\<close>.\<close>

definition isoDatePart :: "number \<Rightarrow> jserror + string" where
  "isoDatePart tv = (case toISOString tv of Inl e \<Rightarrow> Inl e | Inr s \<Rightarrow> Inr (hd (split s ''T'')))"

definition getNextWeekday :: "env \<Rightarrow> int \<Rightarrow> int \<Rightarrow> jserror + string" where
  "getNextWeekday E now dayOfWeek =
     (let today = Some now;
          r = map_option (\<lambda>g. jsRem (dayOfWeek + 7 - g) 7) (getDay E today);
          daysUntilTarget = (if r = Some 0 \<or> r = None then Some 7 else r);
          targetDate = setDate E today (addNumber (getDate E today) daysUntilTarget)
      in isoDatePart targetDate)"

definition dayNames :: "string list" where
  "dayNames = [''sunday'', ''monday'', ''tuesday'', ''wednesday'', ''thursday'', ''friday'',
     ''saturday'']"

text \<open>\<open>xs.findIndex(p)\<close>, with \<open>None\<close> for \<open>-1\<close>.\<close>

fun findIndex :: "('a \<Rightarrow> bool) \<Rightarrow> 'a list \<Rightarrow> nat option" where
  "findIndex p [] = None"
| "findIndex p (x # xs) = (if p x then Some 0 else map_option Suc (findIndex p xs))"

definition dayIndex :: "string \<Rightarrow> nat option" where
  "dayIndex d = findIndex (\<lambda>day. includesStr (toLowerCase d) day) dayNames"

definition normalizeDate :: "env \<Rightarrow> int \<Rightarrow> string \<Rightarrow> jserror + string" where
  "normalizeDate E now d =
     (case (case dayIndex d of
              Some i \<Rightarrow> getNextWeekday E now (int i)
            | None \<Rightarrow>
                (case newDate E d of
                   Some t \<Rightarrow> isoDatePart (Some t)
                 | None \<Rightarrow> getNextWeekday E now 1)) of
        Inr s \<Rightarrow> Inr s
      | Inl e \<Rightarrow> getNextWeekday E now 1)"

subsection \<open>Type, duration, location\<close>

definition normalizeEventType :: "string \<Rightarrow> eventType" where
  "normalizeEventType t =
     (let normalized = toLowerCase t
      in if includesStr normalized ''lab'' then lab
         else if includesStr normalized ''tutorial'' \<or> includesStr normalized ''seminar''
           then tutorial
         else if includesStr normalized ''meeting'' then meeting
         else if includesStr normalized ''break'' then break
         else lecture)"

text \<open>The three renderings of a difference split into hours and minutes.\<close>

definition renderDuration :: "number \<Rightarrow> number \<Rightarrow> string" where
  "renderDuration hours minutes =
     (case (hours, minutes) of
        (Some h, Some m) \<Rightarrow>
          if h > 0 \<and> m > 0 then showInt h @ ''h '' @ showInt m @ ''m''
          else if h > 0 then showInt h @ ''h''
          else showInt m @ ''m''
      | _ \<Rightarrow> showNumber minutes @ ''m'')"

definition calculateDuration :: "string \<Rightarrow> string" where
  "calculateDuration timeString =
     (let parts = split timeString '' - ''
      in if length parts < 2 then ''1h 30m''
         else
           (let s = split (parts ! 0) '':''; e = split (parts ! 1) '':'';
                startTotalMinutes = addNumber (mulNumber (NumberAt s 0) (Some 60)) (NumberAt s 1);
                endTotalMinutes = addNumber (mulNumber (NumberAt e 0) (Some 60)) (NumberAt e 1);
                diffMinutes = subNumber endTotalMinutes startTotalMinutes
            in renderDuration (map_option (\<lambda>d. d div 60) diffMinutes)
                              (map_option (\<lambda>d. jsRem d 60) diffMinutes)))"

definition parseLocation :: "string \<Rightarrow> string option \<times> string option" where
  "parseLocation loc =
     (let parts = map trim (split loc '','')
      in if length parts \<ge> 2 then (Some (parts ! 0), Some (parts ! 1))
         else if includesStr (toLowerCase loc) ''room'' then (Some loc, None)
         else (None, Some loc))"

subsection \<open>Rows to events\<close>

text \<open>
  \<open>mapRowToEvent\<close>: \<open>Inr None\<close> is the \<open>null\<close> of a row without a title, \<open>Inl\<close> an
  exception (only \<open>toISOString\<close> on a date out of range can raise one).
\<close>

definition mapRowToEvent :: "env \<Rightarrow> int \<Rightarrow> row \<Rightarrow> nat \<Rightarrow> jserror + ParsedTimetableEvent option" where
  "mapRowToEvent E now r index =
     (case findValueByKeys r titleKeys of
        None \<Rightarrow> Inr None
      | Some rawTitle \<Rightarrow>
          (let tm = normalizeTime E now
                      (case findValueByKeys r timeKeys of Some v \<Rightarrow> v | None \<Rightarrow> ''09:00 - 10:30'')
           in case (case findValueByKeys r dateKeys of
                      Some v \<Rightarrow> normalizeDate E now v
                    | None \<Rightarrow>
                        (case getNextWeekday E now 1 of
                           Inl e \<Rightarrow> Inl e
                         | Inr v \<Rightarrow> normalizeDate E now v)) of
                Inl e \<Rightarrow> Inl e
              | Inr dt \<Rightarrow>
                  (let loc = (case findValueByKeys r locationKeys of Some v \<Rightarrow> v | None \<Rightarrow> ''TBD'')
                   in Inr (Some
                     \<lparr>eid = ''local-parsed-'' @ showInt now @ ''-'' @ showNat index,
                      title = cleanTitle rawTitle,
                      time = tm,
                      date = dt,
                      location = loc,
                      type = normalizeEventType
                        (case findValueByKeys r typeKeys of Some v \<Rightarrow> v | None \<Rightarrow> ''lecture''),
                      duration =
                        (case findValueByKeys r durationKeys of
                           Some v \<Rightarrow> v | None \<Rightarrow> calculateDuration tm),
                      instructor = findValueByKeys r instructorKeys,
                      courseCode = findValueByKeys r courseCodeKeys,
                      room = fst (parseLocation loc),
                      building = snd (parseLocation loc)\<rparr>))))"

text \<open>
  \<open>convertRowsToEvents\<close>: rows are mapped in order with their index; a row that gives
  \<open>null\<close> or raises is skipped. \<open>clock i\<close> is the reading of the clock while row \<open>i\<close> is
  mapped.
\<close>

definition rowEvents :: "env \<Rightarrow> (nat \<Rightarrow> int) \<Rightarrow> nat \<times> row \<Rightarrow> ParsedTimetableEvent list" where
  "rowEvents E clock ir =
     (case mapRowToEvent E (clock (fst ir)) (snd ir) (fst ir) of
        Inr (Some ev) \<Rightarrow> [ev]
      | _ \<Rightarrow> [])"

definition convertRowsToEvents :: "env \<Rightarrow> (nat \<Rightarrow> int) \<Rightarrow> row list \<Rightarrow> ParsedTimetableEvent list" where
  "convertRowsToEvents E clock rows =
     concat (map (rowEvents E clock) (zip [0 ..< length rows] rows))"

text \<open>Example rows: a CSV row with the given cells, by header.\<close>

definition csvRow :: "(string \<times> string) list \<Rightarrow> row" where
  "csvRow cells = map_of (map (\<lambda>(k, v). (k, JStr v)) cells)"

text \<open>
  The hour on the 24-hour clock of an hour \<open>1..12\<close> with its marker: 12 AM is 0, 12 PM is
  12, every other PM hour is twelve more.
\<close>

definition hour24 :: "int \<Rightarrow> string \<Rightarrow> int" where
  "hour24 h marker =
     (if marker = ''PM'' then (if h = 12 then 12 else h + 12) else (if h = 12 then 0 else h))"

text \<open>A marker of the 12-hour clock: \<open>AM\<close> or \<open>PM\<close> in any letter case.\<close>

definition isMarker :: "string \<Rightarrow> bool" where
  "isMarker mk \<longleftrightarrow> length mk = 2 \<and> (toUpperCase mk = ''AM'' \<or> toUpperCase mk = ''PM'')"

section \<open>The AI parser's validation pass (llm-parser.ts)\<close>

text \<open>
  A validated event carries whatever truthy value the model supplied for a field, or the
  default; only \<open>type\<close> is forced into the enumeration.
\<close>

record ValidatedEvent =
  vId :: json
  vTitle :: json
  vTime :: json
  vDate :: json
  vLocation :: json
  vType :: eventType
  vDuration :: json
  vInstructor :: "json option"
  vCourseCode :: "json option"
  vRoom :: "json option"
  vBuilding :: "json option"

definition typeOfName :: "string \<Rightarrow> eventType option" where
  "typeOfName s =
     (if s = ''lecture'' then Some lecture
      else if s = ''lab'' then Some lab
      else if s = ''tutorial'' then Some tutorial
      else if s = ''meeting'' then Some meeting
      else if s = ''break'' then Some break
      else None)"

text \<open>
  \<open>validateEventType\<close>: \<open>type?.toLowerCase()\<close> is \<open>undefined\<close> for a missing or \<open>null\<close>
  type and raises for a value that is not a string.
\<close>

definition validateEventType :: "json option \<Rightarrow> jserror + eventType" where
  "validateEventType t =
     (case t of
        None \<Rightarrow> Inr lecture
      | Some JNull \<Rightarrow> Inr lecture
      | Some (JStr s) \<Rightarrow>
          (let normalizedType = toLowerCase s
           in case typeOfName normalizedType of
                Some ty \<Rightarrow> Inr ty
              | None \<Rightarrow>
                  Inr (if includesStr normalizedType ''lab'' then lab
                       else if includesStr normalizedType ''tutorial''
                               \<or> includesStr normalizedType ''seminar'' then tutorial
                       else if includesStr normalizedType ''meeting'' then meeting
                       else if includesStr normalizedType ''break'' then break
                       else lecture))
      | Some _ \<Rightarrow> Inl TypeError)"

text \<open>
  \<open>parseTimeString\<close>: today's date, in local time, at the given hour and minute. \<open>now\<close> is
  the reading of the clock by its \<open>new Date()\<close>.
\<close>

definition parseTimeString :: "env \<Rightarrow> int \<Rightarrow> string \<Rightarrow> number" where
  "parseTimeString E now timeStr =
     (let parts = split timeStr '':''
      in setHours E (Some now) (NumberAt parts 0) (NumberAt parts 1))"

text \<open>
  \<open>calculateDuration\<close> of the AI parser; every exception inside it (a time that is not a
  string, a missing end) gives \<open>'1h 30m'\<close>. The two calls of \<open>parseTimeString\<close> read the
  clock one after the other: \<open>nowStart\<close> and \<open>nowEnd\<close>.
\<close>

definition calculateDurationLLM :: "env \<Rightarrow> int \<Rightarrow> int \<Rightarrow> json option \<Rightarrow> string" where
  "calculateDurationLLM E nowStart nowEnd timeString =
     (case timeString of
        Some (JStr s) \<Rightarrow>
          (let parts = split s '' - ''
           in if length parts < 2 then ''1h 30m''
              else
                (let startTime = parseTimeString E nowStart (parts ! 0);
                     endTime = parseTimeString E nowEnd (parts ! 1);
                     diffMs = subNumber endTime startTime
                 in renderDuration (map_option (\<lambda>d. d div (1000 * 60 * 60)) diffMs)
                      (map_option (\<lambda>d. jsRem d (1000 * 60 * 60) div (1000 * 60)) diffMs)))
      | _ \<Rightarrow> ''1h 30m'')"

text \<open>\<open>getNextWeekday\<close> of the AI parser: a match on today's weekday gives today.\<close>

definition getNextWeekdayLLM :: "env \<Rightarrow> int \<Rightarrow> int \<Rightarrow> jserror + string" where
  "getNextWeekdayLLM E now dayOfWeek =
     (let today = Some now;
          daysUntilTarget = map_option (\<lambda>g. jsRem (dayOfWeek + 7 - g) 7) (getDay E today);
          targetDate = setDate E today (addNumber (getDate E today) daysUntilTarget)
      in isoDatePart targetDate)"

text \<open>\<open>v || undefined\<close>.\<close>

definition orUndefined :: "json option \<Rightarrow> json option" where
  "orUndefined v = (if truthy v then v else None)"

text \<open>
  The callback of \<open>events.map\<close>: the fields are read in the order of the literal. The
  callback reads the clock in four places, and \<open>readings k\<close> is what it reads at place
  \<open>k\<close>: \<open>Date.now()\<close> of the generated id (0), \<open>new Date()\<close> of \<open>getNextWeekday\<close> (1), and
  those of the two calls of \<open>parseTimeString\<close> in \<open>calculateDuration\<close> (2 and 3).
\<close>

definition validateEvent :: "env \<Rightarrow> (nat \<Rightarrow> int) \<Rightarrow> json \<Rightarrow> nat \<Rightarrow> jserror + ValidatedEvent" where
  "validateEvent E readings event index =
     (case getProp (Some event) ''id'' of
        Inl e \<Rightarrow> Inl e
      | Inr _ \<Rightarrow>
          (let prop = getPropOpt (Some event)
           in case (if truthy (prop ''date'') then Inr (the (prop ''date''))
                    else map_sum (\<lambda>e. e) JStr (getNextWeekdayLLM E (readings 1) 0)) of
                Inl e \<Rightarrow> Inl e
              | Inr dt \<Rightarrow>
                  (case validateEventType (prop ''type'') of
                     Inl e \<Rightarrow> Inl e
                   | Inr ty \<Rightarrow>
                       Inr \<lparr>vId = orElse (prop ''id'')
                                    (JStr (''llm-parsed-'' @ showInt (readings 0) @ ''-''
                                           @ showNat index)),
                            vTitle = orElse (prop ''title'') (JStr ''Untitled Event''),
                            vTime = orElse (prop ''time'') (JStr ''09:00 - 10:00''),
                            vDate = dt,
                            vLocation = orElse (prop ''location'') (JStr ''TBD''),
                            vType = ty,
                            vDuration = orElse (prop ''duration'')
                                          (JStr (calculateDurationLLM E (readings 2) (readings 3)
                                                   (prop ''time''))),
                            vInstructor = orUndefined (prop ''instructor''),
                            vCourseCode = orUndefined (prop ''courseCode''),
                            vRoom = orUndefined (prop ''room''),
                            vBuilding = orUndefined (prop ''building'')\<rparr>)))"

text \<open>
  \<open>events.map(callback)\<close>, stopping at the first exception. \<open>clock (4 * i + k)\<close> is the
  reading of the clock at place \<open>k\<close> of the callback while element \<open>i\<close> is validated.
\<close>

fun validateAll :: "env \<Rightarrow> (nat \<Rightarrow> int) \<Rightarrow> nat \<Rightarrow> json list \<Rightarrow> jserror + ValidatedEvent list" where
  "validateAll E clock i [] = Inr []"
| "validateAll E clock i (ev # evs) =
     (case validateEvent E (\<lambda>k. clock (4 * i + k)) ev i of
        Inl e \<Rightarrow> Inl e
      | Inr v \<Rightarrow>
          (case validateAll E clock (Suc i) evs of
             Inl e \<Rightarrow> Inl e
           | Inr vs \<Rightarrow> Inr (v # vs)))"

definition parseFailed :: "string \<Rightarrow> json \<Rightarrow> ValidatedEvent list ParseResult" where
  "parseFailed msg content =
     \<lparr>success = False, events = [], confidence = JNum 0,
      errors = [''JSON parsing failed: '' @ msg], enhancedFields = None,
      rawResponse = Some content\<rparr>"

text \<open>
  \<open>parseJSONResponse\<close>, with \<open>JSON.parse\<close> as the parameter \<open>parse\<close> and \<open>clock\<close> the
  readings of the clock during the validation.
\<close>

definition parseJSONResponse ::
  "env \<Rightarrow> (nat \<Rightarrow> int) \<Rightarrow> (string \<Rightarrow> json option) \<Rightarrow> json \<Rightarrow> ValidatedEvent list ParseResult" where
  "parseJSONResponse E clock parse content =
     (case content of
        JStr reply \<Rightarrow>
          (case parse (cleanContent reply) of
             None \<Rightarrow> parseFailed (message SyntaxError) content
           | Some parsed \<Rightarrow>
               (case getProp (Some parsed) ''events'' of
                  Inl e \<Rightarrow> parseFailed (message e) content
                | Inr evs \<Rightarrow>
                    (case orElse evs (JArr []) of
                       JArr elems \<Rightarrow>
                         (case validateAll E clock 0 elems of
                            Inl e \<Rightarrow> parseFailed (message e) content
                          | Inr validatedEvents \<Rightarrow>
                              \<lparr>success = True, events = validatedEvents,
                               confidence = orElse (getPropOpt (Some parsed) ''confidence'') (JNum 75),
                               errors = [], enhancedFields = None,
                               rawResponse = Some content\<rparr>)
                     | _ \<Rightarrow> parseFailed ''Events is not an array'' content)))
      | _ \<Rightarrow> parseFailed (message TypeError) content)"

text \<open>
  The ids that a reply supplies (the truthy \<open>id\<close> values of its elements, in order), and
  the ids that the validation generates for the elements without one, the first element
  having index \<open>i\<close>.
\<close>

definition suppliedIds :: "json list \<Rightarrow> json list" where
  "suppliedIds elems =
     map (\<lambda>ev. the (getPropOpt (Some ev) ''id''))
       (filter (\<lambda>ev. truthy (getPropOpt (Some ev) ''id'')) elems)"

definition generatedIds :: "(nat \<Rightarrow> int) \<Rightarrow> nat \<Rightarrow> json list \<Rightarrow> json list" where
  "generatedIds clock i elems =
     map (\<lambda>(k, ev). JStr (''llm-parsed-'' @ showInt (clock (4 * k)) @ ''-'' @ showNat k))
       (filter (\<lambda>(k, ev). \<not> truthy (getPropOpt (Some ev) ''id'')) (enumerate i elems))"

section \<open>The calendar service (google-calendar.ts)\<close>

record CalendarEvent =
  calId :: string
  calTitle :: string
  description :: string
  startTime :: string
  endTime :: string
  calLocation :: string
  colorId :: string
  reminders :: "bool \<times> (string \<times> int) list"

definition typeName :: "eventType \<Rightarrow> string" where
  "typeName t = (case t of lecture \<Rightarrow> ''lecture'' | lab \<Rightarrow> ''lab'' | tutorial \<Rightarrow> ''tutorial''
     | meeting \<Rightarrow> ''meeting'' | break \<Rightarrow> ''break'')"

definition eventColors :: "eventType \<Rightarrow> string" where
  "eventColors t = (case t of lecture \<Rightarrow> ''1'' | lab \<Rightarrow> ''2'' | tutorial \<Rightarrow> ''3''
     | meeting \<Rightarrow> ''5'' | break \<Rightarrow> ''6'')"

definition reminderDefaults :: "(string \<times> int) list" where
  "reminderDefaults = [(''email'', 24 * 60), (''popup'', 10)]"

text \<open>\<open>parts.join('\n')\<close>.\<close>

fun joinLines :: "string list \<Rightarrow> string" where
  "joinLines [] = []"
| "joinLines [x] = x"
| "joinLines (x # y # ys) = x @ [CHR 0x0A] @ joinLines (y # ys)"

definition optionalLine :: "string \<Rightarrow> string option \<Rightarrow> string list" where
  "optionalLine label v = (case v of None \<Rightarrow> [] | Some s \<Rightarrow> if s = [] then [] else [label @ s])"

definition buildEventDescription :: "ParsedTimetableEvent \<Rightarrow> string" where
  "buildEventDescription ev =
     joinLines
       ([''Course: '' @ title ev,
         ''Type: '' @ toUpperCase (take 1 (typeName (type ev))) @ drop 1 (typeName (type ev)),
         ''Duration: '' @ duration ev]
        @ optionalLine ''Course Code: '' (courseCode ev)
        @ optionalLine ''Instructor: '' (instructor ev)
        @ optionalLine ''Room: '' (room ev)
        @ optionalLine ''Building: '' (building ev)
        @ ['''', ''Created by ChronoSync''])"

definition parseTime :: "env \<Rightarrow> string \<Rightarrow> number \<Rightarrow> number" where
  "parseTime E timeStr baseDate =
     (let parts = split timeStr '':''
      in setHours E baseDate (NumberAt parts 0) (NumberAt parts 1))"

text \<open>
  \<open>parseTimeRange\<close>: the first two pieces of the split are used; a missing second piece is
  \<open>undefined\<close>, whose \<open>split\<close> raises.
\<close>

definition parseTimeRange :: "env \<Rightarrow> string \<Rightarrow> string \<Rightarrow> jserror + number \<times> number" where
  "parseTimeRange E timeRange dateString =
     (let parts = split timeRange '' - '';
          baseDate = newDate E dateString
      in if length parts < 2 then Inl TypeError
         else Inr (parseTime E (parts ! 0) baseDate, parseTime E (parts ! 1) baseDate))"

definition convertToCalendarEvent :: "env \<Rightarrow> ParsedTimetableEvent \<Rightarrow> jserror + CalendarEvent" where
  "convertToCalendarEvent E ev =
     (case parseTimeRange E (time ev) (date ev) of
        Inl e \<Rightarrow> Inl e
      | Inr (startT, endT) \<Rightarrow>
          (case toISOString startT of
             Inl e \<Rightarrow> Inl e
           | Inr startIso \<Rightarrow>
               (case toISOString endT of
                  Inl e \<Rightarrow> Inl e
                | Inr endIso \<Rightarrow>
                    Inr \<lparr>calId = eid ev, calTitle = title ev,
                         description = buildEventDescription ev,
                         startTime = startIso, endTime = endIso,
                         calLocation = location ev,
                         colorId = eventColors (type ev),
                         reminders = (False, reminderDefaults)\<rparr>)))"

subsection \<open>Synchronisation\<close>

record SyncResult =
  syncSuccess :: bool
  eventsCreated :: nat
  eventsUpdated :: nat
  eventsFailed :: nat
  syncErrors :: "(string \<times> string) list"
  calendarId :: string

text \<open>
  \<open>chunkArray\<close>. With a size of \<open>0\<close> the source's loop does not end on a non-empty array;
  the service only passes \<open>5\<close>, and the model has no equation for that case.
\<close>

fun chunkArray :: "'a list \<Rightarrow> nat \<Rightarrow> 'a list list" where
  "chunkArray [] n = []"
| "chunkArray (x # xs) (Suc k) = take (Suc k) (x # xs) # chunkArray (drop (Suc k) (x # xs)) (Suc k)"

definition batchSize :: nat where
  "batchSize = 5"

text \<open>\<open>timetableEvents.map(convertToCalendarEvent)\<close>, stopping at the first exception.\<close>

fun convertAll :: "env \<Rightarrow> ParsedTimetableEvent list \<Rightarrow> jserror + CalendarEvent list" where
  "convertAll E [] = Inr []"
| "convertAll E (ev # evs) =
     (case convertToCalendarEvent E ev of
        Inl e \<Rightarrow> Inl e
      | Inr c \<Rightarrow> (case convertAll E evs of Inl e \<Rightarrow> Inl e | Inr cs \<Rightarrow> Inr (c # cs)))"

text \<open>
  The create-event call for the event at global index \<open>i\<close> either returns the new id or
  raises an error with a message: \<open>create i event\<close>. When the call settles, its
  continuation updates the shared result in one step.
\<close>

definition settle ::
  "(nat \<Rightarrow> CalendarEvent \<Rightarrow> string + string) \<Rightarrow> SyncResult \<Rightarrow> nat \<times> CalendarEvent \<Rightarrow> SyncResult" where
  "settle create r ie =
     (case create (fst ie) (snd ie) of
        Inr newId \<Rightarrow> r\<lparr>eventsCreated := eventsCreated r + 1\<rparr>
      | Inl msg \<Rightarrow> r\<lparr>eventsFailed := eventsFailed r + 1,
                     syncErrors := syncErrors r @ [(calId (snd ie), msg)]\<rparr>)"

text \<open>
  The calls of one batch run concurrently and settle in an order the network decides:
  \<open>order b\<close> rearranges the calls of batch \<open>b\<close>, each paired with its global index
  \<open>b * batchSize + index\<close>, into the order in which they settle. The next batch starts
  when all of them have settled.
\<close>

definition processBatch ::
  "(nat \<Rightarrow> CalendarEvent \<Rightarrow> string + string)
     \<Rightarrow> (nat \<Rightarrow> (nat \<times> CalendarEvent) list \<Rightarrow> (nat \<times> CalendarEvent) list)
     \<Rightarrow> SyncResult \<Rightarrow> nat \<times> CalendarEvent list \<Rightarrow> SyncResult" where
  "processBatch create order r bb =
     foldl (settle create) r (order (fst bb) (enumerate (fst bb * batchSize) (snd bb)))"

text \<open>
  \<open>syncEvents\<close>. A conversion that raises ends the run before any call is made, with the
  error rethrown under the prefix of the outer \<open>catch\<close>. The optional progress callback is
  the caller's and is taken to return normally; the delays do not change the result.
\<close>

definition syncEvents ::
  "env \<Rightarrow> (nat \<Rightarrow> CalendarEvent \<Rightarrow> string + string)
     \<Rightarrow> (nat \<Rightarrow> (nat \<times> CalendarEvent) list \<Rightarrow> (nat \<times> CalendarEvent) list)
     \<Rightarrow> string \<Rightarrow> ParsedTimetableEvent list \<Rightarrow> jserror + SyncResult" where
  "syncEvents E create order cid timetableEvents =
     (case convertAll E timetableEvents of
        Inl e \<Rightarrow> Inl (Error (''Failed to sync events: '' @ message e))
      | Inr calendarEvents \<Rightarrow>
          (let batches = chunkArray calendarEvents batchSize;
               r = foldl (processBatch create order)
                     \<lparr>syncSuccess = False, eventsCreated = 0, eventsUpdated = 0,
                      eventsFailed = 0, syncErrors = [], calendarId = cid\<rparr>
                     (enumerate 0 batches)
           in Inr (r\<lparr>syncSuccess := (eventsFailed r = 0)\<rparr>)))"

text \<open>Seven events that differ in their ids, for the examples.\<close>

definition sevenEvents :: "ParsedTimetableEvent list" where
  "sevenEvents = map (\<lambda>k. algorithmsEvent\<lparr>eid := ''event-'' @ [digitChar k]\<rparr>) [1, 2, 3, 4, 5, 6, 7]"

text \<open>A create-event call that fails for the fourth event only.\<close>

definition failsFourth :: "nat \<Rightarrow> CalendarEvent \<Rightarrow> string + string" where
  "failsFourth i ev = (if i = 3 then Inl ''Failed to create event'' else Inr (''created-'' @ calId ev))"

text \<open>
  A piece of the time range is a usable clock time, on a base date, when the base date is
  valid, the hour before the first colon and the minute after it are numbers, and the
  instant they give lies in the range of time values.
\<close>

definition usableClock :: "env \<Rightarrow> number \<Rightarrow> string \<Rightarrow> bool" where
  "usableClock E baseDate piece =
     (case (baseDate, NumberAt (split piece '':'') 0, NumberAt (split piece '':'') 1) of
        (Some t, Some h, Some m) \<Rightarrow>
          \<bar>UTC E (Day (LocalTime E t) * msPerDay + h * msPerHour + m * msPerMinute)\<bar>
            \<le> 8640000000000000
      | _ \<Rightarrow> False)"

text \<open>
  Modelled from the spec: the reading back of a payload that the round-trip property speaks
  of, which the repository does not implement. The date is the calendar date and the range
  the two clock times of the payload's timestamps, as they are written there.
\<close>

definition payloadDate :: "CalendarEvent \<Rightarrow> string" where
  "payloadDate c = take 10 (startTime c)"

definition payloadTimeRange :: "CalendarEvent \<Rightarrow> string" where
  "payloadTimeRange c = take 5 (drop 11 (startTime c)) @ '' - '' @ take 5 (drop 11 (endTime c))"

text \<open>
  Two further environments. In the first, local time is five and a half hours ahead of UTC
  all year (India). The second is the east of the United States under the rule in force
  since 2007: five hours behind UTC, and four hours behind from 02:00 local time of the
  second Sunday of March to 02:00 local time of the first Sunday of November; a local time
  that the change skips or repeats is read with the offset before the change, as the
  standard says.
\<close>

definition kolkataEnv :: env where
  "kolkataEnv = \<lparr>localTZA = (\<lambda>t isUTC. 19800000), parseOther = (\<lambda>s. None)\<rparr>"

text \<open>The day number of the first Sunday that is not before the given day.\<close>

definition sundayFrom :: "int \<Rightarrow> int" where
  "sundayFrom d = d + (7 - (d + 4) mod 7) mod 7"

definition daylightStart :: "int \<Rightarrow> int" where
  "daylightStart y = (sundayFrom (MakeDay y 2 1) + 7) * msPerDay + 2 * msPerHour"

definition daylightEnd :: "int \<Rightarrow> int" where
  "daylightEnd y = sundayFrom (MakeDay y 10 1) * msPerDay + 2 * msPerHour"

definition newYorkTZA :: "int \<Rightarrow> bool \<Rightarrow> int" where
  "newYorkTZA t isUTC =
     (let y = YearFromTime t;
          daylight =
            (if isUTC
             then daylightStart y + 5 * msPerHour \<le> t \<and> t < daylightEnd y + 4 * msPerHour
             else daylightStart y + msPerHour \<le> t \<and> t < daylightEnd y)
      in if daylight then - 4 * msPerHour else - 5 * msPerHour)"

definition newYorkEnv :: env where
  "newYorkEnv = \<lparr>localTZA = newYorkTZA, parseOther = (\<lambda>s. None)\<rparr>"

section \<open>Enhancement never loses events\<close>

lemma enhanceFallback_fields:
  "\<not> success (enhanceFallback evs msg raw)"
  "events (enhanceFallback evs msg raw) = Original evs"
  "confidence (enhanceFallback evs msg raw) = JNum 70"
  by (simp_all add: enhanceFallback_def)

lemma parseEnhancementResponse_failed:
  "\<not> success (parseEnhancementResponse parse content evs) \<Longrightarrow>
     parseEnhancementResponse parse content evs
       = enhanceFallback evs (hd (errors (parseEnhancementResponse parse content evs))) (Some content)"
  by (auto simp: parseEnhancementResponse_def enhanceFallback_def
           split: json.splits option.splits sum.splits)

lemma parseEnhancementResponse_malformed:
  "parse (cleanContent reply) = None \<Longrightarrow>
     \<not> success (parseEnhancementResponse parse (JStr reply) evs)"
  by (simp add: parseEnhancementResponse_def enhanceFallback_def)

lemma enhanceWith_failed:
  assumes "\<not> success (enhanceWith p parse res evs)"
  shows "events (enhanceWith p parse res evs) = Original evs
    \<and> confidence (enhanceWith p parse res evs) = JNum 70"
proof (cases res)
  case (Rejected msg)
  then show ?thesis by (simp add: enhanceWith_def enhanceFallback_fields)
next
  case (Response ok status statusText body)
  show ?thesis
  proof (cases "ok \<and> (\<exists>data c. body = Some data
      \<and> (case p of openai \<Rightarrow> openaiContent data | gemini \<Rightarrow> geminiContent data) = Inr c \<and> truthy c)")
    case True
    then obtain data c where d: "ok" "body = Some data"
      "(case p of openai \<Rightarrow> openaiContent data | gemini \<Rightarrow> geminiContent data) = Inr c" "truthy c"
      by blast
    have eq: "enhanceWith p parse res evs = parseEnhancementResponse parse (the c) evs"
      using Response d by (simp add: enhanceWith_def)
    from assms eq have "\<not> success (parseEnhancementResponse parse (the c) evs)" by simp
    from parseEnhancementResponse_failed [OF this] eq show ?thesis
      by (metis enhanceFallback_fields(2) enhanceFallback_fields(3))
  next
    case False
    then show ?thesis using Response
      by (auto simp: enhanceWith_def enhanceFallback_fields split: option.splits sum.splits)
  qed
qed

lemma enhanceWith_named_failure:
  assumes "enhancementFailed p parse res"
  shows "\<not> success (enhanceWith p parse res evs)"
proof (cases res)
  case (Rejected msg)
  then show ?thesis by (simp add: enhanceWith_def enhanceFallback_fields)
next
  case (Response ok status statusText body)
  show ?thesis
  proof (cases "\<not> ok \<or> body = None")
    case True
    then show ?thesis using Response
      by (auto simp: enhanceWith_def enhanceFallback_fields split: option.splits sum.splits)
  next
    case False
    then obtain data where d: "ok" "body = Some data" by auto
    from assms Response d obtain reply where
      t: "replyContent p data = Inr (Some (JStr reply))" "reply \<noteq> []" "parse (cleanContent reply) = None"
      by (auto simp: enhancementFailed_def split: sum.splits option.splits json.splits)
    have "enhanceWith p parse res evs = parseEnhancementResponse parse (JStr reply) evs"
      using Response d t by (simp add: enhanceWith_def replyContent_def)
    with parseEnhancementResponse_malformed [of parse reply evs] t(3) show ?thesis by simp
  qed
qed

text \<open>
  C1. Whenever an enhancement fails (building the prompt raises, the provider call rejects,
  the reply is not 2xx, or the reply body or the model's text is not JSON) \<open>enhanceEvents\<close>
  returns a result that is not a success, whose events are the caller's list itself and
  whose confidence is 70; and every result that is not a success has this shape. The
  function is total: no input makes it raise.
\<close>

theorem enhanceEvents_failure_keeps_events:
  "(promptError \<noteq> None \<or> enhancementFailed p parse res \<longrightarrow>
      \<not> success (enhanceEvents p parse promptError res evs))
   \<and> (\<not> success (enhanceEvents p parse promptError res evs) \<longrightarrow>
        events (enhanceEvents p parse promptError res evs) = Original evs
        \<and> confidence (enhanceEvents p parse promptError res evs) = JNum 70)"
proof (cases promptError)
  case None
  then show ?thesis
    using enhanceWith_failed [of p parse res evs] enhanceWith_named_failure [of p parse res evs]
    by (simp add: enhanceEvents_def)
next
  case (Some e)
  then show ?thesis
    by (simp add: enhanceEvents_def enhanceFallback_def)
qed

theorem enhanceEvents_failure_keeps_events_witness:
  "enhancementFailed openai (\<lambda>s. None)
     (Response True ''200'' ''OK''
        (Some (JObj [(''choices'', JArr [JObj [(''message'', JObj [(''content'', JStr ''oops'')])]])])))
   \<and> events (enhanceEvents openai (\<lambda>s. None) None
        (Response True ''200'' ''OK''
          (Some (JObj [(''choices'', JArr [JObj [(''message'', JObj [(''content'', JStr ''oops'')])]])])))
        [algorithmsEvent]) = Original [algorithmsEvent]
   \<and> confidence (enhanceEvents openai (\<lambda>s. None) None
        (Response True ''200'' ''OK''
          (Some (JObj [(''choices'', JArr [JObj [(''message'', JObj [(''content'', JStr ''oops'')])]])])))
        [algorithmsEvent]) = JNum 70"
proof -
  have f: "enhancementFailed openai (\<lambda>s. None)
     (Response True ''200'' ''OK''
        (Some (JObj [(''choices'', JArr [JObj [(''message'', JObj [(''content'', JStr ''oops'')])]])])))"
    by (simp add: enhancementFailed_def replyContent_def openaiContent_def)
  with enhanceEvents_failure_keeps_events [of None openai "\<lambda>s. None"
     "Response True ''200'' ''OK''
        (Some (JObj [(''choices'', JArr [JObj [(''message'', JObj [(''content'', JStr ''oops'')])]])]))"
     "[algorithmsEvent]"]
  show ?thesis by blast
qed

section \<open>Strings, numbers and dates: basic facts\<close>

lemma includesStr_set: "includesStr s p \<Longrightarrow> set p \<subseteq> set s"
proof (induction s)
  case Nil
  then show ?case by simp
next
  case (Cons c cs)
  from Cons.prems have "prefix p (c # cs) \<or> includesStr cs p" by simp
  then show ?case
  proof
    assume "prefix p (c # cs)"
    then show ?thesis by (rule set_mono_prefix)
  next
    assume "includesStr cs p"
    then have "set p \<subseteq> set cs" by (rule Cons.IH)
    then show ?thesis by auto
  qed
qed

lemma splitFrom_char_none:
  "c \<notin> set xs \<Longrightarrow> splitFrom [c] acc xs = [rev acc @ xs]"
  by (induction xs arbitrary: acc) auto

lemma splitFrom_char_first:
  "c \<notin> set xs \<Longrightarrow> splitFrom [c] acc (xs @ c # rest) = (rev acc @ xs) # splitFrom [c] [] rest"
  by (induction xs arbitrary: acc) auto

lemma split_colon_two:
  "CHR '':'' \<notin> set hs \<Longrightarrow> CHR '':'' \<notin> set ms \<Longrightarrow> split (hs @ '':'' @ ms) '':'' = [hs, ms]"
  by (simp add: split_def splitFrom_char_first splitFrom_char_none)

lemma trim_id:
  "s \<noteq> [] \<Longrightarrow> \<not> isWhiteSpace (hd s) \<Longrightarrow> \<not> isWhiteSpace (last s) \<Longrightarrow> trim s = s"
proof -
  assume a: "s \<noteq> []" "\<not> isWhiteSpace (hd s)" "\<not> isWhiteSpace (last s)"
  then have "dropWhile isWhiteSpace s = s"
    by (cases s) auto
  moreover have "dropWhile isWhiteSpace (rev s) = rev s"
    using a by (cases "rev s") (auto simp: hd_rev)
  ultimately show ?thesis by (simp add: trim_def)
qed

lemma isDigit_not_space: "isDigit c \<Longrightarrow> \<not> isWhiteSpace c"
  by (auto simp: isDigit_def isWhiteSpace_def codeUnit_def)

lemma isDigit_chars: "isDigit c \<Longrightarrow> c \<noteq> CHR '':'' \<and> c \<noteq> CHR ''-'' \<and> c \<noteq> CHR ''+'' \<and> c \<noteq> CHR '' ''
   \<and> c \<noteq> CHR ''A'' \<and> c \<noteq> CHR ''P''"
  by (auto simp: isDigit_def codeUnit_def)

lemma Number_digits:
  assumes "ds \<noteq> []" "list_all isDigit ds"
  shows "Number ds = digitsValue ds"
proof -
  from assms have "isDigit (hd ds)" "isDigit (last ds)"
    by (auto simp: list_all_iff)
  then have t: "trim ds = ds"
    using assms(1) by (intro trim_id) (auto dest: isDigit_not_space)
  obtain c cs where ds: "ds = c # cs" using assms(1) by (cases ds) auto
  with assms have "isDigit c" by simp
  then have "c \<noteq> CHR ''-''" "c \<noteq> CHR ''+''" by (auto dest: isDigit_chars)
  then show ?thesis using t ds by (simp add: Number_def)
qed


text \<open>
  The model gives a number only to a text that is empty when trimmed or a numeric
  literal: the texts that \<open>modelledNumber\<close> leaves out are the numeric literals whose value
  the model does not compute, and the integers beyond the bound.
\<close>

lemma digits_unsigned:
  assumes "ds \<noteq> []" and "list_all isDigit ds"
  shows "isUnsignedDecimal ds"
proof -
  from assms(2) have tw: "takeWhile isDigit ds = ds" and dw: "dropWhile isDigit ds = []"
    by (simp_all add: list_all_iff)
  show ?thesis
    unfolding isUnsignedDecimal_def Let_def tw dw using assms(1) by simp
qed

lemma Number_literal:
  assumes "Number s = Some n"
  shows "trim s = [] \<or> isStrNumericLiteral (trim s)"
proof (cases "trim s")
  case Nil
  then show ?thesis by simp
next
  case (Cons c cs)
  have d: "ds \<noteq> [] \<and> list_all isDigit ds" if "digitsValue ds = Some k" for ds k
    using that by (simp add: digitsValue_def split: if_splits)
  show ?thesis
  proof (cases "c = CHR ''-'' \<or> c = CHR ''+''")
    case True
    with assms Cons obtain k where "digitsValue cs = Some k"
      by (auto simp: Number_def)
    from d [OF this] have "isUnsignedDecimal cs" by (intro digits_unsigned) simp_all
    with True Cons show ?thesis by (auto simp: isStrNumericLiteral_def)
  next
    case False
    with assms Cons have "digitsValue (c # cs) = Some n"
      by (simp add: Number_def)
    from d [OF this] have "isUnsignedDecimal (c # cs)" by (intro digits_unsigned) simp_all
    with False Cons show ?thesis by (simp add: isStrNumericLiteral_def)
  qed
qed

text \<open>Where the offset of the zone is known, local time and UTC differ by it.\<close>

lemma steady_zone:
  assumes "\<forall>t u. \<bar>t - now\<bar> \<le> w \<longrightarrow> localTZA E t u = c" and "\<bar>t - now\<bar> \<le> w"
  shows "LocalTime E t = t + c" and "UTC E t = t - c"
  using assms by (simp_all add: LocalTime_def UTC_def)

lemma setDate_shift:
  "setDate E (Some now) (addNumber (getDate E (Some now)) (Some n))
     = TimeClip (UTC E (LocalTime E now + n * msPerDay))"
proof -
  define lt where "lt = LocalTime E now"
  have md: "MakeDay (YearFromTime lt) (MonthFromTime lt) (DateFromTime lt + n) = Day lt + n"
    by (simp add: MakeDay_def DateFromTime_def DayWithinYear_def)
  have "MakeDate (Day lt + n) (TimeWithinDay lt) = lt + n * msPerDay"
    by (simp add: MakeDate_def Day_def TimeWithinDay_def algebra_simps)
  then show ?thesis
    using md by (simp add: setDate_def getDate_def addNumber_def lt_def Let_def)
qed

lemma jsRem_bound: "\<bar>jsRem a 7\<bar> < 7"
  by (simp add: jsRem_def abs_mult abs_sgn_eq)

lemma getNextWeekday_shift:
  "\<exists>n. 1 \<le> \<bar>n\<bar> \<and> \<bar>n\<bar> \<le> 7
     \<and> getNextWeekday E now d = isoDatePart (TimeClip (UTC E (LocalTime E now + n * msPerDay)))"
proof -
  define r where "r = jsRem (d + 7 - WeekDay (LocalTime E now)) 7"
  define n where "n = (if r = 0 then 7 else r)"
  have "\<bar>r\<bar> < 7" unfolding r_def by (rule jsRem_bound)
  then have b: "1 \<le> \<bar>n\<bar> \<and> \<bar>n\<bar> \<le> 7" by (auto simp: n_def)
  have "getNextWeekday E now d = isoDatePart (setDate E (Some now) (addNumber (getDate E (Some now)) (Some n)))"
    by (simp add: getNextWeekday_def getDay_def Let_def r_def n_def)
  with b show ?thesis unfolding setDate_shift by blast
qed

text \<open>
  With a clock reading and offsets of the zone within the usual bounds, the date functions
  of the structured parser do not raise.
\<close>

lemma getNextWeekday_ok:
  assumes now: "\<bar>now\<bar> \<le> 8000000000000000"
    and zone: "\<forall>t u. \<bar>localTZA E t u\<bar> \<le> 86400000"
  shows "\<exists>s. getNextWeekday E now d = Inr s"
proof -
  from getNextWeekday_shift [of E now d] obtain n where
    n: "\<bar>n\<bar> \<le> 7"
    and g: "getNextWeekday E now d
      = isoDatePart (TimeClip (UTC E (LocalTime E now + n * msPerDay)))"
    by blast
  define x where "x = LocalTime E now + n * msPerDay"
  have nd: "\<bar>n * msPerDay\<bar> \<le> 7 * 86400000"
    using n by (simp add: msPerDay_def abs_mult)
  have z1: "\<bar>localTZA E now True\<bar> \<le> 86400000" and z2: "\<bar>localTZA E x False\<bar> \<le> 86400000"
    using zone by simp_all
  have "UTC E x = now + localTZA E now True + n * msPerDay - localTZA E x False"
    by (simp add: UTC_def LocalTime_def x_def)
  with now nd z1 z2 have "\<bar>UTC E x\<bar> \<le> 8640000000000000" by linarith
  then show ?thesis
    by (simp add: g x_def [symmetric] TimeClip_def isoDatePart_def toISOString_def)
qed

lemma normalizeDate_ok:
  assumes "\<bar>now\<bar> \<le> 8000000000000000" and "\<forall>t u. \<bar>localTZA E t u\<bar> \<le> 86400000"
  shows "\<exists>s. normalizeDate E now v = Inr s"
  using getNextWeekday_ok [OF assms, of 1]
  by (auto simp: normalizeDate_def split: sum.splits option.splits)

lemma mapRowToEvent_ok:
  assumes "findValueByKeys r titleKeys = Some ttl" and "\<bar>now\<bar> \<le> 8000000000000000"
    and "\<forall>t u. \<bar>localTZA E t u\<bar> \<le> 86400000"
  shows "\<exists>ev. mapRowToEvent E now r i = Inr (Some ev)
     \<and> time ev = normalizeTime E now
         (case findValueByKeys r timeKeys of Some v \<Rightarrow> v | None \<Rightarrow> ''09:00 - 10:30'')
     \<and> duration ev = (case findValueByKeys r durationKeys of
                         Some v \<Rightarrow> v | None \<Rightarrow> calculateDuration (time ev))"
proof -
  obtain dt where "(case findValueByKeys r dateKeys of
                      Some v \<Rightarrow> normalizeDate E now v
                    | None \<Rightarrow>
                        (case getNextWeekday E now 1 of
                           Inl e \<Rightarrow> Inl e
                         | Inr v \<Rightarrow> normalizeDate E now v)) = Inr dt"
    using getNextWeekday_ok [OF assms(2,3), of 1] normalizeDate_ok [OF assms(2,3)]
    by (cases "findValueByKeys r dateKeys") (auto split: sum.splits, metis)
  then show ?thesis
    using assms(1) by (simp add: mapRowToEvent_def Let_def split: option.splits)
qed

lemma Day_bounds: "Day x * msPerDay \<le> x \<and> x < Day x * msPerDay + msPerDay"
proof -
  have "x = Day x * msPerDay + x mod msPerDay"
    by (simp add: Day_def)
  moreover have "0 \<le> x mod msPerDay" "x mod msPerDay < msPerDay"
    by (simp_all add: msPerDay_def)
  ultimately show ?thesis by linarith
qed

text \<open>
  The clock that \<open>setHours\<close> sets is the clock that \<open>getHours\<close> and \<open>getMinutes\<close> read,
  when the offset of the zone does not change within three days of the date.
\<close>

lemma clock_after_setHours:
  assumes now: "\<bar>now\<bar> \<le> 8000000000000000"
    and steady: "\<forall>t u. \<bar>t - now\<bar> \<le> 3 * msPerDay \<longrightarrow> localTZA E t u = c"
    and tz: "\<bar>c\<bar> \<le> 86400000"
    and h: "0 \<le> h" "h < 24" and m: "0 \<le> m" "m < 200"
  shows "getHours E (setHours E (Some now) (Some h) (Some m)) = Some ((h * 60 + m) div 60 mod 24)"
    and "getMinutes E (setHours E (Some now) (Some h) (Some m)) = Some ((h * 60 + m) mod 60)"
proof -
  define D where "D = Day (now + c)"
  define v where "v = D * msPerDay + (h * msPerHour + m * msPerMinute)"
  define u where "u = v - c"
  have db: "D * msPerDay \<le> now + c" "now + c < D * msPerDay + msPerDay"
    using Day_bounds [of "now + c"] by (simp_all add: D_def)
  have hm: "0 \<le> h * msPerHour + m * msPerMinute" "h * msPerHour + m * msPerMinute < 24 * 3600000 + 200 * 60000"
    using h m by (simp_all add: msPerHour_def msPerMinute_def)
  have l0: "LocalTime E now = now + c"
    by (rule steady_zone(1) [OF steady]) (simp add: msPerDay_def)
  have "\<bar>v - now\<bar> \<le> 3 * msPerDay"
    using db hm tz unfolding v_def msPerDay_def by linarith
  then have uv: "UTC E v = u"
    unfolding u_def by (rule steady_zone(2) [OF steady])
  have "\<bar>u - now\<bar> \<le> 3 * msPerDay"
    using db hm tz unfolding u_def v_def msPerDay_def by linarith
  then have "LocalTime E u = u + c"
    by (rule steady_zone(1) [OF steady])
  then have lu: "LocalTime E u = v"
    by (simp add: u_def)
  have "\<bar>u\<bar> \<le> 8640000000000000"
    using db hm now tz unfolding u_def v_def msPerDay_def by linarith
  then have sh: "setHours E (Some now) (Some h) (Some m) = Some u"
    using uv by (simp add: setHours_def TimeClip_def l0 MakeDate_def MakeTime_def
        v_def D_def)
  have lt: "LocalTime E u = (D * 24 + h) * 3600000 + m * 60000"
    by (simp add: lu v_def msPerDay_def msPerHour_def msPerMinute_def algebra_simps)
  have lt2: "LocalTime E u = (D * 1440 + h * 60 + m) * 60000"
    by (simp add: lt algebra_simps)
  have "LocalTime E u div 3600000 = D * 24 + (h * 60 + m) div 60"
  proof -
    have "LocalTime E u div 3600000 = (LocalTime E u div 60000) div 60"
      by (simp add: div_mult2_eq [symmetric])
    also have "\<dots> = (D * 1440 + h * 60 + m) div 60"
      by (simp add: lt2)
    also have "\<dots> = (D * 24 * 60 + (h * 60 + m)) div 60"
      by (simp add: algebra_simps)
    also have "\<dots> = D * 24 + (h * 60 + m) div 60"
      by (simp only: div_mult_self3)
    finally show ?thesis .
  qed
  then have "HourFromTime (LocalTime E u) = (h * 60 + m) div 60 mod 24"
    by (simp add: HourFromTime_def msPerHour_def)
  then show "getHours E (setHours E (Some now) (Some h) (Some m)) = Some ((h * 60 + m) div 60 mod 24)"
    by (simp add: sh getHours_def)
  have "LocalTime E u div 60000 = D * 1440 + h * 60 + m"
    by (simp add: lt2)
  then have "MinFromTime (LocalTime E u) = (60 * (D * 24 + h) + m) mod 60"
    by (simp add: MinFromTime_def msPerMinute_def algebra_simps)
  also have "\<dots> = m mod 60"
    by (simp only: mod_mult_self4)
  also have "\<dots> = (h * 60 + m) mod 60"
    by simp
  finally show "getMinutes E (setHours E (Some now) (Some h) (Some m)) = Some ((h * 60 + m) mod 60)"
    by (simp add: sh getMinutes_def)
qed

section \<open>Synchronisation isolates failures\<close>

lemma settle_fold:
  "eventsFailed (foldl (settle create) r xs)
     = eventsFailed r + length (filter (\<lambda>ie. isl (create (fst ie) (snd ie))) xs)
   \<and> eventsCreated (foldl (settle create) r xs)
     = eventsCreated r + length (filter (\<lambda>ie. \<not> isl (create (fst ie) (snd ie))) xs)
   \<and> mset (syncErrors (foldl (settle create) r xs))
     = mset (syncErrors r)
       + mset (map (\<lambda>ie. (calId (snd ie), projl (create (fst ie) (snd ie))))
                (filter (\<lambda>ie. isl (create (fst ie) (snd ie))) xs))"
proof (induction xs arbitrary: r)
  case Nil
  show ?case by simp
next
  case (Cons x xs)
  show ?case
  proof (cases "create (fst x) (snd x)")
    case (Inl msg)
    then show ?thesis
      using Cons.IH [of "settle create r x"] by (simp add: settle_def)
  next
    case (Inr newId)
    then show ?thesis
      using Cons.IH [of "settle create r x"] by (simp add: settle_def)
  qed
qed

lemma length_filter_mset_eq:
  assumes "mset xs = mset ys"
  shows "length (filter P xs) = length (filter P ys)"
proof -
  have "size (filter_mset P (mset xs)) = size (filter_mset P (mset ys))"
    using assms by simp
  then show ?thesis by (simp only: mset_filter [symmetric] size_mset)
qed

lemma mset_map_filter_eq:
  assumes "mset xs = mset ys"
  shows "mset (map f (filter P xs)) = mset (map f (filter P ys))"
proof -
  have "image_mset f (filter_mset P (mset xs)) = image_mset f (filter_mset P (mset ys))"
    using assms by simp
  then show ?thesis by simp
qed

lemma processBatch_counts:
  assumes perm: "\<forall>b xs. mset (order b xs) = mset xs"
  shows "eventsFailed (processBatch create order r bb)
     = eventsFailed r + length (filter (\<lambda>ie. isl (create (fst ie) (snd ie)))
         (enumerate (fst bb * batchSize) (snd bb)))
   \<and> eventsCreated (processBatch create order r bb)
     = eventsCreated r + length (filter (\<lambda>ie. \<not> isl (create (fst ie) (snd ie)))
         (enumerate (fst bb * batchSize) (snd bb)))
   \<and> mset (syncErrors (processBatch create order r bb))
     = mset (syncErrors r)
       + mset (map (\<lambda>ie. (calId (snd ie), projl (create (fst ie) (snd ie))))
                (filter (\<lambda>ie. isl (create (fst ie) (snd ie)))
                   (enumerate (fst bb * batchSize) (snd bb))))"
proof -
  let ?xs = "enumerate (fst bb * batchSize) (snd bb)"
  have p: "mset (order (fst bb) ?xs) = mset ?xs"
    using perm by blast
  show ?thesis
    unfolding processBatch_def
    using settle_fold [of create r "order (fst bb) ?xs"]
      length_filter_mset_eq [OF p] mset_map_filter_eq [OF p]
    by simp
qed

lemma batches_fold:
  assumes perm: "\<forall>b xs. mset (order b xs) = mset xs"
  shows "eventsFailed (foldl (processBatch create order) r bbs)
     = eventsFailed r + length (filter (\<lambda>ie. isl (create (fst ie) (snd ie)))
         (concat (map (\<lambda>bb. enumerate (fst bb * batchSize) (snd bb)) bbs)))
   \<and> eventsCreated (foldl (processBatch create order) r bbs)
     = eventsCreated r + length (filter (\<lambda>ie. \<not> isl (create (fst ie) (snd ie)))
         (concat (map (\<lambda>bb. enumerate (fst bb * batchSize) (snd bb)) bbs)))
   \<and> mset (syncErrors (foldl (processBatch create order) r bbs))
     = mset (syncErrors r)
       + mset (map (\<lambda>ie. (calId (snd ie), projl (create (fst ie) (snd ie))))
                (filter (\<lambda>ie. isl (create (fst ie) (snd ie)))
                   (concat (map (\<lambda>bb. enumerate (fst bb * batchSize) (snd bb)) bbs))))"
proof (induction bbs arbitrary: r)
  case Nil
  show ?case by simp
next
  case (Cons bb bbs)
  show ?case
    using Cons.IH [of "processBatch create order r bb"]
      processBatch_counts [OF perm, where create = create and r = r and bb = bb]
    by simp
qed

lemma chunkArray_items:
  "concat (map (\<lambda>bb. enumerate (fst bb * Suc k) (snd bb)) (enumerate b0 (chunkArray xs (Suc k))))
     = enumerate (b0 * Suc k) xs"
proof (induction xs "Suc k" arbitrary: b0 rule: chunkArray.induct)
  case (1 n)
  show ?case by simp
next
  case (2 x xs)
  let ?ys = "x # xs"
  have split: "enumerate (b0 * Suc k) ?ys
      = enumerate (b0 * Suc k) (take (Suc k) ?ys)
        @ enumerate (b0 * Suc k + length (take (Suc k) ?ys)) (drop (Suc k) ?ys)"
    by (metis append_take_drop_id enumerate_append_eq)
  have rest: "enumerate (b0 * Suc k + length (take (Suc k) ?ys)) (drop (Suc k) ?ys)
      = enumerate (Suc b0 * Suc k) (drop (Suc k) ?ys)"
  proof (cases "Suc k \<le> length ?ys")
    case True
    then have "b0 * Suc k + length (take (Suc k) ?ys) = Suc b0 * Suc k" by simp
    then show ?thesis by (simp only:)
  next
    case False
    then have "drop (Suc k) ?ys = []" by simp
    then show ?thesis by simp
  qed
  have "concat (map (\<lambda>bb. enumerate (fst bb * Suc k) (snd bb))
          (enumerate b0 (chunkArray ?ys (Suc k))))
      = enumerate (b0 * Suc k) (take (Suc k) ?ys)
        @ concat (map (\<lambda>bb. enumerate (fst bb * Suc k) (snd bb))
            (enumerate (Suc b0) (chunkArray (drop (Suc k) ?ys) (Suc k))))"
    by simp
  also have "\<dots> = enumerate (b0 * Suc k) (take (Suc k) ?ys)
        @ enumerate (Suc b0 * Suc k) (drop (Suc k) ?ys)"
    using "2.hyps" [of "Suc b0"] by simp
  finally show ?case using split rest by simp
qed

lemma convertAll_ids:
  "convertAll E evs = Inr ces \<Longrightarrow> map calId ces = map eid evs"
proof (induction evs arbitrary: ces)
  case Nil
  then show ?case by simp
next
  case (Cons ev evs)
  from Cons.prems obtain c cs where
    c: "convertToCalendarEvent E ev = Inr c" and cs: "convertAll E evs = Inr cs"
    and ces: "ces = c # cs"
    by (auto split: sum.splits)
  from c have "calId c = eid ev"
    by (auto simp: convertToCalendarEvent_def split: sum.splits prod.splits)
  with Cons.IH [OF cs] ces show ?case by simp
qed

lemma syncEvents_counts:
  assumes perm: "\<forall>b xs. mset (order b xs) = mset xs"
    and conv: "convertAll E evs = Inr ces"
  obtains r where "syncEvents E create order cid evs = Inr r"
    and "eventsFailed r = length (filter (\<lambda>ie. isl (create (fst ie) (snd ie))) (enumerate 0 ces))"
    and "eventsCreated r = length (filter (\<lambda>ie. \<not> isl (create (fst ie) (snd ie))) (enumerate 0 ces))"
    and "syncSuccess r = (eventsFailed r = 0)"
    and "mset (syncErrors r)
         = mset (map (\<lambda>ie. (calId (snd ie), projl (create (fst ie) (snd ie))))
             (filter (\<lambda>ie. isl (create (fst ie) (snd ie))) (enumerate 0 ces)))"
proof -
  define r0 where "r0 = \<lparr>syncSuccess = False, eventsCreated = 0, eventsUpdated = 0,
              eventsFailed = 0, syncErrors = [], calendarId = cid\<rparr>"
  define bbs where "bbs = enumerate 0 (chunkArray ces batchSize)"
  define rr where "rr = foldl (processBatch create order) r0 bbs"
  have items: "concat (map (\<lambda>bb. enumerate (fst bb * batchSize) (snd bb)) bbs) = enumerate 0 ces"
    using chunkArray_items [of 4 0 ces] by (simp add: bbs_def batchSize_def eval_nat_numeral)
  have res: "syncEvents E create order cid evs = Inr (rr\<lparr>syncSuccess := (eventsFailed rr = 0)\<rparr>)"
    using conv by (simp add: syncEvents_def Let_def rr_def r0_def bbs_def)
  have fold: "eventsFailed rr
       = length (filter (\<lambda>ie. isl (create (fst ie) (snd ie))) (enumerate 0 ces))
     \<and> eventsCreated rr
       = length (filter (\<lambda>ie. \<not> isl (create (fst ie) (snd ie))) (enumerate 0 ces))
     \<and> mset (syncErrors rr)
       = mset (map (\<lambda>ie. (calId (snd ie), projl (create (fst ie) (snd ie))))
           (filter (\<lambda>ie. isl (create (fst ie) (snd ie))) (enumerate 0 ces)))"
    using batches_fold [OF perm, where create = create and r = r0 and bbs = bbs]
    unfolding items rr_def by (simp add: r0_def)
  show ?thesis
  proof (rule that [of "rr\<lparr>syncSuccess := (eventsFailed rr = 0)\<rparr>"])
    show "syncEvents E create order cid evs = Inr (rr\<lparr>syncSuccess := (eventsFailed rr = 0)\<rparr>)"
      by (rule res)
  qed (simp_all add: fold)
qed

lemma enumerate_nth: "enumerate 0 xs = map (\<lambda>i. (i, xs ! i)) [0 ..< length xs]"
  by (simp add: enumerate_eq_zip zip_eq_conv comp_def map_nth)

lemma fourth_fails_filter:
  assumes len: "length ces = 7"
    and only: "\<forall>i<7. isl (create i (ces ! i)) \<longleftrightarrow> i = 3"
  shows "filter (\<lambda>ie. isl (create (fst ie) (snd ie))) (enumerate 0 ces) = [(3, ces ! 3)]"
    and "length (filter (\<lambda>ie. \<not> isl (create (fst ie) (snd ie))) (enumerate 0 ces)) = 6"
proof -
  have idx: "[0 ..< length ces] = [0, 1, 2, 3, 4, 5, 6]"
    using len by (simp add: upt_rec)
  have e: "enumerate 0 ces = [(0, ces ! 0), (1, ces ! 1), (2, ces ! 2), (3, ces ! 3),
      (4, ces ! 4), (5, ces ! 5), (6, ces ! 6)]"
    unfolding enumerate_nth idx by simp
  have f: "\<not> isl (create 0 (ces ! 0))" "\<not> isl (create 1 (ces ! 1))" "\<not> isl (create 2 (ces ! 2))"
    "isl (create 3 (ces ! 3))" "\<not> isl (create 4 (ces ! 4))" "\<not> isl (create 5 (ces ! 5))"
    "\<not> isl (create 6 (ces ! 6))"
    using only by simp_all
  show "filter (\<lambda>ie. isl (create (fst ie) (snd ie))) (enumerate 0 ces) = [(3, ces ! 3)]"
    unfolding e using f by simp
  show "length (filter (\<lambda>ie. \<not> isl (create (fst ie) (snd ie))) (enumerate 0 ces)) = 6"
    unfolding e using f by simp
qed

text \<open>
  C2. When every event converts, \<open>syncEvents\<close> returns a result, whatever the order in
  which the calls of a batch settle: \<open>eventsFailed\<close> counts the create-event calls that
  failed, \<open>eventsCreated\<close> those that succeeded, every event is counted once, the errors are
  exactly one entry \<open>(eventId, message)\<close> per failed call, and \<open>success\<close> holds iff
  \<open>eventsFailed\<close> is zero. For seven events of which only the fourth fails, the result has
  one failure, six creations, no success, and the single error entry of the fourth event.
\<close>

theorem syncEvents_isolates_failures:
  assumes perm: "\<forall>b xs. mset (order b xs) = mset xs"
    and conv: "convertAll E evs = Inr ces"
  shows "\<exists>r. syncEvents E create order cid evs = Inr r
     \<and> eventsFailed r = length (filter (\<lambda>ie. isl (create (fst ie) (snd ie))) (enumerate 0 ces))
     \<and> eventsCreated r = length (filter (\<lambda>ie. \<not> isl (create (fst ie) (snd ie))) (enumerate 0 ces))
     \<and> eventsCreated r + eventsFailed r = length evs
     \<and> syncSuccess r = (eventsFailed r = 0)
     \<and> mset (syncErrors r)
         = mset (map (\<lambda>ie. (calId (snd ie), projl (create (fst ie) (snd ie))))
             (filter (\<lambda>ie. isl (create (fst ie) (snd ie))) (enumerate 0 ces)))
     \<and> (length evs = 7 \<and> (\<forall>i<7. isl (create i (ces ! i)) \<longleftrightarrow> i = 3) \<longrightarrow>
          eventsFailed r = 1 \<and> eventsCreated r = 6 \<and> \<not> syncSuccess r
          \<and> syncErrors r = [(eid (evs ! 3), projl (create 3 (ces ! 3)))])"
proof -
  obtain r where
    r: "syncEvents E create order cid evs = Inr r"
    and failed: "eventsFailed r
      = length (filter (\<lambda>ie. isl (create (fst ie) (snd ie))) (enumerate 0 ces))"
    and created: "eventsCreated r
      = length (filter (\<lambda>ie. \<not> isl (create (fst ie) (snd ie))) (enumerate 0 ces))"
    and succ: "syncSuccess r = (eventsFailed r = 0)"
    and errs: "mset (syncErrors r)
      = mset (map (\<lambda>ie. (calId (snd ie), projl (create (fst ie) (snd ie))))
          (filter (\<lambda>ie. isl (create (fst ie) (snd ie))) (enumerate 0 ces)))"
    by (rule syncEvents_counts [OF perm conv, where create = create and cid = cid])
  have ids: "map calId ces = map eid evs"
    by (rule convertAll_ids [OF conv])
  then have len: "length ces = length evs"
    by (metis length_map)
  have total: "eventsCreated r + eventsFailed r = length evs"
    unfolding failed created
    using sum_length_filter_compl [of "\<lambda>ie. isl (create (fst ie) (snd ie))" "enumerate 0 ces"] len
    by simp
  have seven: "eventsFailed r = 1 \<and> eventsCreated r = 6 \<and> \<not> syncSuccess r
       \<and> syncErrors r = [(eid (evs ! 3), projl (create 3 (ces ! 3)))]"
    if l7: "length evs = 7" and only: "\<forall>i<7. isl (create i (ces ! i)) \<longleftrightarrow> i = 3"
  proof -
    have l: "length ces = 7" using len l7 by simp
    note ff = fourth_fails_filter [where create = create and ces = ces, OF l only]
    have "calId (ces ! 3) = map calId ces ! 3" using l by simp
    also have "\<dots> = eid (evs ! 3)" unfolding ids using l7 by simp
    finally have id3: "calId (ces ! 3) = eid (evs ! 3)" .
    have "mset (syncErrors r) = {#(eid (evs ! 3), projl (create 3 (ces ! 3)))#}"
      unfolding errs ff(1) using id3 by simp
    then have "syncErrors r = [(eid (evs ! 3), projl (create 3 (ces ! 3)))]"
      by (metis mset_single_iff_right)
    then show ?thesis
      using failed created succ ff by simp
  qed
  have sev: "length evs = 7 \<and> (\<forall>i<7. isl (create i (ces ! i)) \<longleftrightarrow> i = 3) \<longrightarrow>
          eventsFailed r = 1 \<and> eventsCreated r = 6 \<and> \<not> syncSuccess r
          \<and> syncErrors r = [(eid (evs ! 3), projl (create 3 (ces ! 3)))]"
    using seven by blast
  show ?thesis
    by (rule exI [of _ r]) (intro conjI r failed created total succ errs sev)
qed

lemma sevenEvents_convert: "\<not> isl (convertAll utcEnv sevenEvents)"
  by code_simp

theorem syncEvents_isolates_failures_witness:
  "(\<forall>b xs. mset ((\<lambda>b xs. rev xs) b (xs :: (nat \<times> CalendarEvent) list)) = mset xs)
   \<and> (\<exists>r. syncEvents utcEnv failsFourth (\<lambda>b xs. rev xs) ''primary'' sevenEvents = Inr r
        \<and> eventsFailed r = 1 \<and> eventsCreated r = 6 \<and> \<not> syncSuccess r
        \<and> syncErrors r = [(''event-4'', ''Failed to create event'')])"
proof -
  have perm: "\<forall>b xs. mset ((\<lambda>b xs. rev xs) b (xs :: (nat \<times> CalendarEvent) list)) = mset xs"
    by simp
  obtain ces where conv: "convertAll utcEnv sevenEvents = Inr ces"
    using sevenEvents_convert by (cases "convertAll utcEnv sevenEvents") auto
  have l7: "length sevenEvents = 7"
    by (simp add: sevenEvents_def)
  have only: "\<forall>i<7. isl (failsFourth i (ces ! i)) \<longleftrightarrow> i = 3"
    by (simp add: failsFourth_def)
  have id4: "eid (sevenEvents ! 3) = ''event-4''"
    by code_simp
  have msg: "projl (failsFourth 3 (ces ! 3)) = ''Failed to create event''"
    by (simp add: failsFourth_def)
  from syncEvents_isolates_failures [OF perm conv, of failsFourth "''primary''"] l7 only id4 msg
  show ?thesis
    using perm by auto
qed

section \<open>The event mapper and malformed time ranges\<close>

lemma parseTime_usable:
  "parseTime E piece baseDate \<noteq> None \<longleftrightarrow> usableClock E baseDate piece"
  by (auto simp: parseTime_def usableClock_def setHours_def TimeClip_def Let_def
        MakeDate_def MakeTime_def add.assoc split: option.splits)

lemma toISOString_isl: "isl (toISOString tv) \<longleftrightarrow> tv = None"
  by (simp add: toISOString_def split: option.splits)

lemma toISOString_error: "toISOString tv = Inl e \<Longrightarrow> e = RangeError"
  by (simp add: toISOString_def split: option.splits)

text \<open>
  C3 (the claim as stated fails). A time with three pieces is not rejected: the first two
  are used and the mapping succeeds, with the payload of \<open>'09:00 - 10:00'\<close>.
\<close>

theorem convertToCalendarEvent_extra_piece_counterexample:
  "length (split ''09:00 - 10:00 - 11:00'' '' - '') = 3
   \<and> \<not> isl (convertToCalendarEvent utcEnv (algorithmsEvent\<lparr>time := ''09:00 - 10:00 - 11:00''\<rparr>))
   \<and> convertToCalendarEvent utcEnv (algorithmsEvent\<lparr>time := ''09:00 - 10:00 - 11:00''\<rparr>)
     = convertToCalendarEvent utcEnv (algorithmsEvent\<lparr>time := ''09:00 - 10:00''\<rparr>)"
  by code_simp

text \<open>
  C3 (amended). For an event whose hour and minute texts, in the first two pieces of its
  time, are integers of at most a million or no numeric literals at all (a fraction, an
  exponent or a radix literal is outside the statement): the mapping raises exactly when
  the split of the time on \<open>' - '\<close> gives fewer than two pieces (a \<open>TypeError\<close>) or one of the
  first two pieces is not a usable clock time on the event's date (a \<open>RangeError\<close>); pieces
  after the second are ignored, and in every other case the mapping succeeds.
\<close>

theorem convertToCalendarEvent_fails_iff:
  assumes "modelledRange 1000000 (time ev)"
  shows "(isl (convertToCalendarEvent E ev) \<longleftrightarrow>
      length (split (time ev) '' - '') < 2
      \<or> \<not> usableClock E (newDate E (date ev)) (split (time ev) '' - '' ! 0)
      \<or> \<not> usableClock E (newDate E (date ev)) (split (time ev) '' - '' ! 1))
   \<and> (length (split (time ev) '' - '') < 2 \<longrightarrow> convertToCalendarEvent E ev = Inl TypeError)
   \<and> (2 \<le> length (split (time ev) '' - '') \<and> isl (convertToCalendarEvent E ev) \<longrightarrow>
        convertToCalendarEvent E ev = Inl RangeError)"
proof (cases "length (split (time ev) '' - '') < 2")
  case True
  then have "convertToCalendarEvent E ev = Inl TypeError"
    by (simp add: convertToCalendarEvent_def parseTimeRange_def Let_def)
  with True show ?thesis by simp
next
  case False
  define s where "s = parseTime E (split (time ev) '' - '' ! 0) (newDate E (date ev))"
  define e where "e = parseTime E (split (time ev) '' - '' ! 1) (newDate E (date ev))"
  have range: "parseTimeRange E (time ev) (date ev) = Inr (s, e)"
    using False by (simp add: parseTimeRange_def Let_def s_def e_def)
  have us: "s \<noteq> None \<longleftrightarrow> usableClock E (newDate E (date ev)) (split (time ev) '' - '' ! 0)"
    unfolding s_def by (rule parseTime_usable)
  have ue: "e \<noteq> None \<longleftrightarrow> usableClock E (newDate E (date ev)) (split (time ev) '' - '' ! 1)"
    unfolding e_def by (rule parseTime_usable)
  have fails: "isl (convertToCalendarEvent E ev) \<longleftrightarrow> s = None \<or> e = None"
    using range by (auto simp: convertToCalendarEvent_def toISOString_def split: option.splits)
  have err: "isl (convertToCalendarEvent E ev) \<Longrightarrow> convertToCalendarEvent E ev = Inl RangeError"
    using range by (auto simp: convertToCalendarEvent_def toISOString_def split: option.splits)
  show ?thesis
    using False fails us ue err by auto
qed

theorem convertToCalendarEvent_fails_iff_witness:
  "modelledRange 1000000 (time (algorithmsEvent\<lparr>time := ''09:00''\<rparr>))
   \<and> length (split (time (algorithmsEvent\<lparr>time := ''09:00''\<rparr>)) '' - '') < 2
   \<and> convertToCalendarEvent utcEnv (algorithmsEvent\<lparr>time := ''09:00''\<rparr>) = Inl TypeError
   \<and> modelledRange 1000000 (time algorithmsEvent)
   \<and> usableClock utcEnv (newDate utcEnv (date algorithmsEvent)) (split (time algorithmsEvent) '' - '' ! 0)
   \<and> usableClock utcEnv (newDate utcEnv (date algorithmsEvent)) (split (time algorithmsEvent) '' - '' ! 1)
   \<and> \<not> isl (convertToCalendarEvent utcEnv algorithmsEvent)
   \<and> modelledRange 1000000 (time (algorithmsEvent\<lparr>time := ''noon - 13:00''\<rparr>))
   \<and> 2 \<le> length (split (time (algorithmsEvent\<lparr>time := ''noon - 13:00''\<rparr>)) '' - '')
   \<and> \<not> usableClock utcEnv (newDate utcEnv (date (algorithmsEvent\<lparr>time := ''noon - 13:00''\<rparr>)))
         (split (time (algorithmsEvent\<lparr>time := ''noon - 13:00''\<rparr>)) '' - '' ! 0)
   \<and> convertToCalendarEvent utcEnv (algorithmsEvent\<lparr>time := ''noon - 13:00''\<rparr>) = Inl RangeError
   \<and> \<not> modelledRange 1000000 (time (algorithmsEvent\<lparr>time := ''9.5:00 - 1e1:00''\<rparr>))"
proof -
  have m1: "modelledRange 1000000 (time (algorithmsEvent\<lparr>time := ''09:00''\<rparr>))"
    by code_simp
  have m2: "modelledRange 1000000 (time algorithmsEvent)"
    by code_simp
  have m3: "modelledRange 1000000 (time (algorithmsEvent\<lparr>time := ''noon - 13:00''\<rparr>))"
    by code_simp
  have m4: "\<not> modelledRange 1000000 (time (algorithmsEvent\<lparr>time := ''9.5:00 - 1e1:00''\<rparr>))"
    by code_simp
  have a: "length (split (time (algorithmsEvent\<lparr>time := ''09:00''\<rparr>)) '' - '') < 2"
    by code_simp
  have b: "usableClock utcEnv (newDate utcEnv (date algorithmsEvent))
      (split (time algorithmsEvent) '' - '' ! 0)"
    by code_simp
  have c: "usableClock utcEnv (newDate utcEnv (date algorithmsEvent))
      (split (time algorithmsEvent) '' - '' ! 1)"
    by code_simp
  have d: "\<not> length (split (time algorithmsEvent) '' - '') < 2"
    by code_simp
  have e: "2 \<le> length (split (time (algorithmsEvent\<lparr>time := ''noon - 13:00''\<rparr>)) '' - '')"
    by code_simp
  have f: "\<not> usableClock utcEnv (newDate utcEnv (date (algorithmsEvent\<lparr>time := ''noon - 13:00''\<rparr>)))
         (split (time (algorithmsEvent\<lparr>time := ''noon - 13:00''\<rparr>)) '' - '' ! 0)"
    by code_simp
  from convertToCalendarEvent_fails_iff [OF m1, of utcEnv] a
  have r1: "convertToCalendarEvent utcEnv (algorithmsEvent\<lparr>time := ''09:00''\<rparr>) = Inl TypeError"
    by blast
  from convertToCalendarEvent_fails_iff [OF m2, of utcEnv] b c d
  have r2: "\<not> isl (convertToCalendarEvent utcEnv algorithmsEvent)"
    by blast
  from convertToCalendarEvent_fails_iff [OF m3, of utcEnv] e f
  have r3: "convertToCalendarEvent utcEnv (algorithmsEvent\<lparr>time := ''noon - 13:00''\<rparr>) = Inl RangeError"
    by blast
  from m1 a r1 m2 b c r2 m3 e f r3 m4 show ?thesis by blast
qed

section \<open>The AI parser's reply without events\<close>

lemma getProp_nonnull:
  "v \<noteq> JNull \<Longrightarrow> getProp (Some v) name = Inr (getPropOpt (Some v) name)"
  by (cases v) simp_all

lemma parseFailed_fields:
  "\<not> success (parseFailed msg content)"
  "events (parseFailed msg content) = []"
  "confidence (parseFailed msg content) = JNum 0"
  by (simp_all add: parseFailed_def)

lemma parseJSONResponse_parsed:
  assumes "parse (cleanContent reply) = Some parsed" and "parsed \<noteq> JNull"
  shows "parseJSONResponse E clock parse (JStr reply) =
     (case orElse (getPropOpt (Some parsed) ''events'') (JArr []) of
        JArr elems \<Rightarrow>
          (case validateAll E clock 0 elems of
             Inl e \<Rightarrow> parseFailed (message e) (JStr reply)
           | Inr validatedEvents \<Rightarrow>
               \<lparr>success = True, events = validatedEvents,
                confidence = orElse (getPropOpt (Some parsed) ''confidence'') (JNum 75),
                errors = [], enhancedFields = None, rawResponse = Some (JStr reply)\<rparr>)
      | _ \<Rightarrow> parseFailed ''Events is not an array'' (JStr reply))"
  using assms by (simp add: parseJSONResponse_def getProp_nonnull)

text \<open>
  C10 (the claim as stated fails). The reply \<open>null\<close> is well-formed JSON without an
  \<open>events\<close> key, and the result is the fail-closed one. So is the result for a reply whose
  \<open>events\<close> is an array, when an element of it is \<open>null\<close>. The parameter is \<open>JSON.parse\<close>
  on the texts it is given here.
\<close>

theorem parseJSONResponse_null_counterexample:
  "parseJSONResponse utcEnv (\<lambda>i. 1705312800000)
     (\<lambda>s. if s = ''null'' then Some JNull else None) (JStr ''null'')
   = \<lparr>success = False, events = [], confidence = JNum 0,
      errors = [''JSON parsing failed: TypeError''], enhancedFields = None,
      rawResponse = Some (JStr ''null'')\<rparr>
   \<and> parseJSONResponse utcEnv (\<lambda>i. 1705312800000)
     (\<lambda>s. if s = ''{\"events\":[null]}'' then Some (JObj [(''events'', JArr [JNull])]) else None)
     (JStr ''{\"events\":[null]}'')
   = \<lparr>success = False, events = [], confidence = JNum 0,
      errors = [''JSON parsing failed: TypeError''], enhancedFields = None,
      rawResponse = Some (JStr ''{\"events\":[null]}'')\<rparr>"
  by code_simp

text \<open>
  C10 (amended). When the reply parses to a value other than \<open>null\<close> whose \<open>events\<close> is
  missing or falsy, \<open>parseJSONResponse\<close> succeeds with no events and with the reply's
  confidence, or 75 when that is missing or falsy. The result is a success exactly when the
  reply is text that parses to a value other than \<open>null\<close>, whose \<open>events\<close>, if truthy, is an
  array, and every element of it validates; every other result is the fail-closed one, with
  no events and confidence 0.
\<close>

theorem parseJSONResponse_without_events:
  "(parse (cleanContent reply) = Some parsed \<and> parsed \<noteq> JNull
      \<and> \<not> truthy (getPropOpt (Some parsed) ''events'') \<longrightarrow>
      parseJSONResponse E clock parse (JStr reply)
        = \<lparr>success = True, events = [],
           confidence = orElse (getPropOpt (Some parsed) ''confidence'') (JNum 75),
           errors = [], enhancedFields = None, rawResponse = Some (JStr reply)\<rparr>)
   \<and> (success (parseJSONResponse E clock parse content) \<longleftrightarrow>
        (\<exists>reply' parsed' elems vs. content = JStr reply'
           \<and> parse (cleanContent reply') = Some parsed' \<and> parsed' \<noteq> JNull
           \<and> orElse (getPropOpt (Some parsed') ''events'') (JArr []) = JArr elems
           \<and> validateAll E clock 0 elems = Inr vs))
   \<and> (\<not> success (parseJSONResponse E clock parse content) \<longrightarrow>
        events (parseJSONResponse E clock parse content) = []
        \<and> confidence (parseJSONResponse E clock parse content) = JNum 0)"
proof -
  have p1: "parse (cleanContent reply) = Some parsed \<and> parsed \<noteq> JNull
      \<and> \<not> truthy (getPropOpt (Some parsed) ''events'') \<longrightarrow>
      parseJSONResponse E clock parse (JStr reply)
        = \<lparr>success = True, events = [],
           confidence = orElse (getPropOpt (Some parsed) ''confidence'') (JNum 75),
           errors = [], enhancedFields = None, rawResponse = Some (JStr reply)\<rparr>"
  proof
    assume h: "parse (cleanContent reply) = Some parsed \<and> parsed \<noteq> JNull
      \<and> \<not> truthy (getPropOpt (Some parsed) ''events'')"
    then have "orElse (getPropOpt (Some parsed) ''events'') (JArr []) = JArr []"
      by (simp add: orElse_def)
    with h show "parseJSONResponse E clock parse (JStr reply)
        = \<lparr>success = True, events = [],
           confidence = orElse (getPropOpt (Some parsed) ''confidence'') (JNum 75),
           errors = [], enhancedFields = None, rawResponse = Some (JStr reply)\<rparr>"
      by (simp add: parseJSONResponse_parsed)
  qed
  have p2: "success (parseJSONResponse E clock parse content) \<longleftrightarrow>
        (\<exists>reply' parsed' elems vs. content = JStr reply'
           \<and> parse (cleanContent reply') = Some parsed' \<and> parsed' \<noteq> JNull
           \<and> orElse (getPropOpt (Some parsed') ''events'') (JArr []) = JArr elems
           \<and> validateAll E clock 0 elems = Inr vs)"
  proof (cases content)
    case (JStr reply')
    show ?thesis
    proof (cases "parse (cleanContent reply')")
      case None
      then show ?thesis using JStr
        by (simp add: parseJSONResponse_def parseFailed_fields)
    next
      case (Some parsed')
      show ?thesis
      proof (cases "parsed' = JNull")
        case True
        then show ?thesis using JStr Some
          by (simp add: parseJSONResponse_def parseFailed_fields)
      next
        case False
        show ?thesis
          using JStr Some False
          by (auto simp: parseJSONResponse_parsed parseFailed_fields
                split: json.splits sum.splits)
      qed
    qed
  qed (simp_all add: parseJSONResponse_def parseFailed_fields)
  have p3: "\<not> success (parseJSONResponse E clock parse content) \<longrightarrow>
        events (parseJSONResponse E clock parse content) = []
        \<and> confidence (parseJSONResponse E clock parse content) = JNum 0"
  proof
    assume f: "\<not> success (parseJSONResponse E clock parse content)"
    have "parseJSONResponse E clock parse content
        = parseFailed (drop 21 (hd (errors (parseJSONResponse E clock parse content)))) content"
      using f
      by (auto simp: parseJSONResponse_def parseFailed_def
            split: json.splits option.splits sum.splits)
    then show "events (parseJSONResponse E clock parse content) = []
          \<and> confidence (parseJSONResponse E clock parse content) = JNum 0"
      by (metis parseFailed_fields(2) parseFailed_fields(3))
  qed
  show ?thesis
    by (rule conjI [OF p1 conjI [OF p2 p3]])
qed

theorem parseJSONResponse_without_events_witness:
  "(\<lambda>s. Some (JObj [(''confidence'', JNum 90)])) (cleanContent ''{\"confidence\": 90}'')
      = Some (JObj [(''confidence'', JNum 90)])
   \<and> JObj [(''confidence'', JNum 90)] \<noteq> JNull
   \<and> \<not> truthy (getPropOpt (Some (JObj [(''confidence'', JNum 90)])) ''events'')
   \<and> parseJSONResponse utcEnv (\<lambda>i. 1705312800000)
        (\<lambda>s. Some (JObj [(''confidence'', JNum 90)])) (JStr ''{\"confidence\": 90}'')
      = \<lparr>success = True, events = [], confidence = JNum 90,
         errors = [], enhancedFields = None, rawResponse = Some (JStr ''{\"confidence\": 90}'')\<rparr>
   \<and> \<not> success (parseJSONResponse utcEnv (\<lambda>i. 1705312800000) (\<lambda>s. None) (JStr ''{events:''))
   \<and> events (parseJSONResponse utcEnv (\<lambda>i. 1705312800000) (\<lambda>s. None) (JStr ''{events:'')) = []
   \<and> confidence (parseJSONResponse utcEnv (\<lambda>i. 1705312800000) (\<lambda>s. None) (JStr ''{events:''))
      = JNum 0"
proof -
  have h: "(\<lambda>s. Some (JObj [(''confidence'', JNum 90)])) (cleanContent ''{\"confidence\": 90}'')
        = Some (JObj [(''confidence'', JNum 90)])
      \<and> JObj [(''confidence'', JNum 90)] \<noteq> JNull
      \<and> \<not> truthy (getPropOpt (Some (JObj [(''confidence'', JNum 90)])) ''events'')"
    by simp
  have c: "orElse (getPropOpt (Some (JObj [(''confidence'', JNum 90)])) ''confidence'') (JNum 75)
      = JNum 90"
    by (simp add: orElse_def)
  from parseJSONResponse_without_events [of "\<lambda>s. Some (JObj [(''confidence'', JNum 90)])"
      "''{\"confidence\": 90}''" "JObj [(''confidence'', JNum 90)]" utcEnv
      "\<lambda>i. 1705312800000"] h c
  have ok: "parseJSONResponse utcEnv (\<lambda>i. 1705312800000)
        (\<lambda>s. Some (JObj [(''confidence'', JNum 90)])) (JStr ''{\"confidence\": 90}'')
      = \<lparr>success = True, events = [], confidence = JNum 90,
         errors = [], enhancedFields = None, rawResponse = Some (JStr ''{\"confidence\": 90}'')\<rparr>"
    by simp
  have ns: "\<not> success (parseJSONResponse utcEnv (\<lambda>i. 1705312800000) (\<lambda>s. None) (JStr ''{events:''))"
    by (simp add: parseJSONResponse_def parseFailed_def)
  from parseJSONResponse_without_events [of "\<lambda>s. None" "''{events:''" JNull utcEnv
      "\<lambda>i. 1705312800000" "JStr ''{events:''"] ns
  have bad: "events (parseJSONResponse utcEnv (\<lambda>i. 1705312800000) (\<lambda>s. None) (JStr ''{events:'')) = []
      \<and> confidence (parseJSONResponse utcEnv (\<lambda>i. 1705312800000) (\<lambda>s. None) (JStr ''{events:''))
        = JNum 0"
    by blast
  from h ok ns bad show ?thesis by blast
qed

section \<open>Generated ids\<close>

lemma codeUnit_digitChar:
  "0 \<le> d \<Longrightarrow> d < 10 \<Longrightarrow> codeUnit (digitChar d) = 48 + nat d"
  by (simp add: codeUnit_def digitChar_def)

lemma isDigit_digitChar: "0 \<le> d \<Longrightarrow> d < 10 \<Longrightarrow> isDigit (digitChar d)"
  by (simp add: isDigit_def codeUnit_digitChar)

lemma digitValue_digitChar: "0 \<le> d \<Longrightarrow> d < 10 \<Longrightarrow> digitValue (digitChar d) = d"
  by (simp add: digitValue_def codeUnit_digitChar)

lemma showDigits_digits: "0 \<le> n \<Longrightarrow> list_all isDigit (showDigits n)"
proof (induction n rule: showDigits.induct)
  case (1 n)
  show ?case
  proof (cases "n < 10")
    case True
    with "1.prems" show ?thesis
      by (subst showDigits.simps) (simp add: isDigit_digitChar)
  next
    case False
    with "1.prems" have "list_all isDigit (showDigits (n div 10))"
      by (intro "1.IH") simp_all
    moreover have "isDigit (digitChar (n mod 10))"
      by (rule isDigit_digitChar) simp_all
    ultimately show ?thesis using False
      by (subst showDigits.simps) simp
  qed
qed

lemma showDigits_nonempty: "showDigits n \<noteq> []"
  by (subst showDigits.simps) simp

lemma showDigits_value:
  "0 \<le> n \<Longrightarrow> foldl (\<lambda>a c. 10 * a + digitValue c) 0 (showDigits n) = n"
proof (induction n rule: showDigits.induct)
  case (1 n)
  show ?case
  proof (cases "n < 10")
    case True
    with "1.prems" show ?thesis
      by (subst showDigits.simps) (simp add: digitValue_digitChar)
  next
    case False
    with "1.prems" have "foldl (\<lambda>a c. 10 * a + digitValue c) 0 (showDigits (n div 10)) = n div 10"
      by (intro "1.IH") simp_all
    moreover have "digitValue (digitChar (n mod 10)) = n mod 10"
      by (rule digitValue_digitChar) simp_all
    ultimately show ?thesis using False
      by (subst showDigits.simps) simp
  qed
qed

lemma digitsValue_showDigits: "0 \<le> n \<Longrightarrow> digitsValue (showDigits n) = Some n"
  by (simp add: digitsValue_def showDigits_digits showDigits_nonempty showDigits_value)

lemma showNat_inj: "showNat i = showNat j \<Longrightarrow> i = j"
proof -
  assume "showNat i = showNat j"
  then have "digitsValue (showDigits (int i)) = digitsValue (showDigits (int j))"
    by (simp add: showNat_def)
  then have "Some (int i) = Some (int j)"
    by (simp only: digitsValue_showDigits of_nat_0_le_iff)
  then show "i = j" by simp
qed

lemma showNat_no_dash: "c \<in> set (showNat i) \<Longrightarrow> c \<noteq> CHR ''-''"
proof -
  assume "c \<in> set (showNat i)"
  then have "isDigit c"
    using showDigits_digits [of "int i"] by (simp add: showNat_def list_all_iff)
  then show ?thesis by (auto simp: isDigit_def codeUnit_def)
qed

lemma id_suffix_inj:
  assumes "p @ ''-'' @ showNat i = q @ ''-'' @ showNat j"
  shows "i = j"
proof -
  have tw: "takeWhile (\<lambda>c. c \<noteq> CHR ''-'') (rev (p @ ''-'' @ showNat k)) = rev (showNat k)" for p k
  proof -
    have "takeWhile (\<lambda>c. c \<noteq> CHR ''-'') (rev (showNat k) @ CHR ''-'' # rev p) = rev (showNat k)"
      by (subst takeWhile_append2) (auto dest: showNat_no_dash)
    then show ?thesis by simp
  qed
  from assms have "rev (showNat i) = rev (showNat j)"
    using tw [of p i] tw [of q j] by simp
  then show ?thesis by (simp add: showNat_inj)
qed

lemma rowEvents_shape:
  "rowEvents E clock (i, r) = []
   \<or> (\<exists>ev. rowEvents E clock (i, r) = [ev]
         \<and> eid ev = ''local-parsed-'' @ showInt (clock i) @ ''-'' @ showNat i)"
  by (auto simp: rowEvents_def mapRowToEvent_def Let_def split: sum.splits option.splits)

lemma rowEvents_ids:
  assumes "distinct (map fst irs)"
  shows "distinct (map eid (concat (map (rowEvents E clock) irs)))
    \<and> (\<forall>ev \<in> set (concat (map (rowEvents E clock) irs)).
          \<exists>i \<in> fst ` set irs. \<exists>p. eid ev = p @ ''-'' @ showNat i)"
  using assms
proof (induction irs)
  case Nil
  show ?case by simp
next
  case (Cons ir irs)
  obtain i r where ir: "ir = (i, r)" by (cases ir)
  from Cons.prems ir have fresh: "i \<notin> fst ` set irs" and d: "distinct (map fst irs)"
    by auto
  note IH = Cons.IH [OF d]
  from rowEvents_shape [of E clock i r] show ?case
  proof
    assume "rowEvents E clock (i, r) = []"
    with IH ir show ?thesis by auto
  next
    assume "\<exists>ev. rowEvents E clock (i, r) = [ev]
         \<and> eid ev = ''local-parsed-'' @ showInt (clock i) @ ''-'' @ showNat i"
    then obtain ev where ev: "rowEvents E clock (i, r) = [ev]"
      and eidv: "eid ev = ''local-parsed-'' @ showInt (clock i) @ ''-'' @ showNat i"
      by blast
    have new: "eid ev \<notin> eid ` set (concat (map (rowEvents E clock) irs))"
    proof
      assume "eid ev \<in> eid ` set (concat (map (rowEvents E clock) irs))"
      then obtain ev' where ev': "ev' \<in> set (concat (map (rowEvents E clock) irs))"
        and same: "eid ev = eid ev'" by blast
      from IH ev' obtain j p where j: "j \<in> fst ` set irs" and p: "eid ev' = p @ ''-'' @ showNat j"
        by blast
      from eidv same p have "(''local-parsed-'' @ showInt (clock i)) @ ''-'' @ showNat i
          = p @ ''-'' @ showNat j"
        by simp
      then have "i = j" by (rule id_suffix_inj)
      with fresh j show False by simp
    qed
    have "\<exists>p. eid ev = p @ ''-'' @ showNat i"
      using eidv by (intro exI [of _ "''local-parsed-'' @ showInt (clock i)"]) simp
    with IH ir ev new show ?thesis by auto
  qed
qed

lemma convertRowsToEvents_distinct:
  "distinct (map eid (convertRowsToEvents E clock rows))"
proof -
  have "distinct (map fst (zip [0 ..< length rows] rows))"
    by simp
  from rowEvents_ids [OF this, of E clock] show ?thesis
    by (simp add: convertRowsToEvents_def)
qed

text \<open>
  The ids of a validated reply: the id of element \<open>k\<close> is the one the reply supplies, when
  that is truthy, and the generated one otherwise, which ends in \<open>k\<close>.
\<close>

lemma validateEvent_id:
  assumes "validateEvent E readings ev k = Inr v"
  shows "vId v = orElse (getPropOpt (Some ev) ''id'')
                   (JStr (''llm-parsed-'' @ showInt (readings 0) @ ''-'' @ showNat k))"
  using assms
  by (auto simp: validateEvent_def Let_def split: sum.splits if_splits)

lemma validateAll_ids:
  assumes "validateAll E clock i elems = Inr vs"
  shows "map vId vs
     = map (\<lambda>(k, ev). orElse (getPropOpt (Some ev) ''id'')
                         (JStr (''llm-parsed-'' @ showInt (clock (4 * k)) @ ''-'' @ showNat k)))
         (enumerate i elems)"
  using assms
proof (induction elems arbitrary: i vs)
  case Nil
  then show ?case by simp
next
  case (Cons ev elems)
  from Cons.prems obtain v vs' where
    v: "validateEvent E (\<lambda>k. clock (4 * i + k)) ev i = Inr v"
    and vs': "validateAll E clock (Suc i) elems = Inr vs'"
    and vs: "vs = v # vs'"
    by (auto split: sum.splits)
  from validateEvent_id [OF v] Cons.IH [OF vs'] vs show ?case by simp
qed

lemma suppliedIds_Cons:
  "suppliedIds (ev # elems)
     = (if truthy (getPropOpt (Some ev) ''id'')
        then the (getPropOpt (Some ev) ''id'') # suppliedIds elems else suppliedIds elems)"
  by (simp add: suppliedIds_def)

lemma generatedIds_Cons:
  "generatedIds clock i (ev # elems)
     = (if truthy (getPropOpt (Some ev) ''id'') then generatedIds clock (Suc i) elems
        else JStr (''llm-parsed-'' @ showInt (clock (4 * i)) @ ''-'' @ showNat i)
               # generatedIds clock (Suc i) elems)"
  by (simp add: generatedIds_def)

lemma generatedIds_shape:
  "x \<in> set (generatedIds clock i elems) \<Longrightarrow> \<exists>k \<ge> i. \<exists>p. x = JStr (p @ ''-'' @ showNat k)"
proof (induction elems arbitrary: i)
  case Nil
  then show ?case by (simp add: generatedIds_def)
next
  case (Cons ev elems)
  show ?case
  proof (cases "x \<in> set (generatedIds clock (Suc i) elems)")
    case True
    from Cons.IH [OF True] obtain k p where "Suc i \<le> k" and "x = JStr (p @ ''-'' @ showNat k)"
      by blast
    then have "i \<le> k \<and> x = JStr (p @ ''-'' @ showNat k)" by simp
    then show ?thesis by blast
  next
    case False
    with Cons.prems have "x = JStr ((''llm-parsed-'' @ showInt (clock (4 * i))) @ ''-'' @ showNat i)"
      by (simp add: generatedIds_Cons split: if_splits)
    then show ?thesis by blast
  qed
qed

lemma generatedIds_fresh:
  "JStr (p @ ''-'' @ showNat i) \<notin> set (generatedIds clock (Suc i) elems)"
proof
  assume "JStr (p @ ''-'' @ showNat i) \<in> set (generatedIds clock (Suc i) elems)"
  from generatedIds_shape [OF this] obtain k q where
    k: "Suc i \<le> k" and "p @ ''-'' @ showNat i = q @ ''-'' @ showNat k"
    by auto
  then have "i = k" by (intro id_suffix_inj)
  with k show False by simp
qed

lemma reply_ids_set:
  "set (map (\<lambda>(k, ev). orElse (getPropOpt (Some ev) ''id'')
                         (JStr (''llm-parsed-'' @ showInt (clock (4 * k)) @ ''-'' @ showNat k)))
         (enumerate i elems))
     = set (suppliedIds elems) \<union> set (generatedIds clock i elems)"
  by (induction elems arbitrary: i)
    (auto simp: suppliedIds_Cons generatedIds_Cons orElse_def suppliedIds_def generatedIds_def)

lemma reply_ids_distinct:
  "distinct (map (\<lambda>(k, ev). orElse (getPropOpt (Some ev) ''id'')
                         (JStr (''llm-parsed-'' @ showInt (clock (4 * k)) @ ''-'' @ showNat k)))
         (enumerate i elems))
     \<longleftrightarrow> distinct (suppliedIds elems)
         \<and> set (suppliedIds elems) \<inter> set (generatedIds clock i elems) = {}"
proof (induction elems arbitrary: i)
  case Nil
  then show ?case by (simp add: suppliedIds_def generatedIds_def)
next
  case (Cons ev elems)
  note rest = reply_ids_set [of clock "Suc i" elems]
  show ?case
  proof (cases "truthy (getPropOpt (Some ev) ''id'')")
    case True
    then show ?thesis
      using Cons.IH [of "Suc i"] rest
      by (auto simp: suppliedIds_Cons generatedIds_Cons orElse_def)
  next
    case False
    have fresh: "JStr (''llm-parsed-'' @ showInt (clock (4 * i)) @ ''-'' @ showNat i)
        \<notin> set (generatedIds clock (Suc i) elems)"
      using generatedIds_fresh [of "''llm-parsed-'' @ showInt (clock (4 * i))" i clock elems]
      by simp
    from False show ?thesis
      using Cons.IH [of "Suc i"] rest fresh
      by (auto simp: suppliedIds_Cons generatedIds_Cons orElse_def)
  qed
qed

text \<open>
  C9 (the claim as stated fails). The AI parser keeps the ids of the reply: two events that
  both carry the id \<open>1\<close> are returned with the same id. The parameter is \<open>JSON.parse\<close> on
  the one text it is given here.
\<close>

theorem parseJSONResponse_duplicate_ids_counterexample:
  "success (parseJSONResponse utcEnv (\<lambda>i. 1705312800000)
      (\<lambda>s. if s = ''{\"events\":[{\"id\":\"1\"},{\"id\":\"1\"}]}''
            then Some (JObj [(''events'', JArr [JObj [(''id'', JStr ''1'')], JObj [(''id'', JStr ''1'')]])])
            else None)
      (JStr ''{\"events\":[{\"id\":\"1\"},{\"id\":\"1\"}]}''))
   \<and> map vId (events (parseJSONResponse utcEnv (\<lambda>i. 1705312800000)
      (\<lambda>s. if s = ''{\"events\":[{\"id\":\"1\"},{\"id\":\"1\"}]}''
            then Some (JObj [(''events'', JArr [JObj [(''id'', JStr ''1'')], JObj [(''id'', JStr ''1'')]])])
            else None)
      (JStr ''{\"events\":[{\"id\":\"1\"},{\"id\":\"1\"}]}''))) = [JStr ''1'', JStr ''1'']"
  by code_simp

text \<open>
  C9 (amended). The events of one run of the structured parser have pairwise distinct
  ids. In a validated reply of the AI parser, the id of an element is the one the reply
  supplies for it, unchanged, when that is truthy, and otherwise the generated id, which
  ends in the index of the element; the ids of the reply (compared as values) are
  pairwise distinct exactly when the supplied ids are pairwise distinct and none of them
  is equal to one of the generated ids.
\<close>

theorem parse_ids_distinct:
  "distinct (map eid (convertRowsToEvents E clock rows))
   \<and> (parse (cleanContent reply) = Some parsed
        \<and> getPropOpt (Some parsed) ''events'' = Some (JArr elems)
        \<and> success (parseJSONResponse E' clock' parse (JStr reply)) \<longrightarrow>
      length (events (parseJSONResponse E' clock' parse (JStr reply))) = length elems
      \<and> (\<forall>k < length elems.
            (truthy (getPropOpt (Some (elems ! k)) ''id'') \<longrightarrow>
               Some (vId (events (parseJSONResponse E' clock' parse (JStr reply)) ! k))
                 = getPropOpt (Some (elems ! k)) ''id'')
            \<and> (\<not> truthy (getPropOpt (Some (elems ! k)) ''id'') \<longrightarrow>
               vId (events (parseJSONResponse E' clock' parse (JStr reply)) ! k)
                 = JStr (''llm-parsed-'' @ showInt (clock' (4 * k)) @ ''-'' @ showNat k)))
      \<and> (distinct (map vId (events (parseJSONResponse E' clock' parse (JStr reply))))
            \<longleftrightarrow> distinct (suppliedIds elems)
                \<and> set (suppliedIds elems) \<inter> set (generatedIds clock' 0 elems) = {}))"
proof (rule conjI [OF convertRowsToEvents_distinct], rule impI)
  let ?r = "parseJSONResponse E' clock' parse (JStr reply)"
  let ?f = "\<lambda>(k, ev). orElse (getPropOpt (Some ev) ''id'')
                (JStr (''llm-parsed-'' @ showInt (clock' (4 * k)) @ ''-'' @ showNat k))"
  assume h: "parse (cleanContent reply) = Some parsed
        \<and> getPropOpt (Some parsed) ''events'' = Some (JArr elems)
        \<and> success ?r"
  then have nn: "parsed \<noteq> JNull" by auto
  from h have arr: "orElse (getPropOpt (Some parsed) ''events'') (JArr []) = JArr elems"
    by (simp add: orElse_def)
  obtain vs where vs: "validateAll E' clock' 0 elems = Inr vs" and ev: "events ?r = vs"
  proof (cases "validateAll E' clock' 0 elems")
    case (Inl e)
    with h nn arr have "\<not> success ?r"
      by (simp add: parseJSONResponse_parsed parseFailed_fields)
    with h show ?thesis by simp
  next
    case (Inr vs)
    with h nn arr have "events ?r = vs"
      by (simp add: parseJSONResponse_parsed)
    with Inr that show ?thesis by blast
  qed
  note ids = validateAll_ids [OF vs]
  from arg_cong [OF ids, of length] have len: "length vs = length elems"
    by simp
  have at: "vId (vs ! k) = orElse (getPropOpt (Some (elems ! k)) ''id'')
                (JStr (''llm-parsed-'' @ showInt (clock' (4 * k)) @ ''-'' @ showNat k))"
    if "k < length elems" for k
  proof -
    from that len have "vId (vs ! k) = map vId vs ! k" by simp
    also have "\<dots> = ?f (enumerate 0 elems ! k)"
      using that by (simp add: ids)
    also have "\<dots> = ?f (k, elems ! k)"
      using that by (simp add: nth_enumerate_eq)
    finally show ?thesis by simp
  qed
  have kept: "truthy x \<Longrightarrow> Some (orElse x y) = x" for x y
    by (cases x) (simp_all add: orElse_def)
  have p1: "length (events ?r) = length elems"
    using ev len by simp
  have p2: "\<forall>k < length elems.
            (truthy (getPropOpt (Some (elems ! k)) ''id'') \<longrightarrow>
               Some (vId (events ?r ! k)) = getPropOpt (Some (elems ! k)) ''id'')
            \<and> (\<not> truthy (getPropOpt (Some (elems ! k)) ''id'') \<longrightarrow>
               vId (events ?r ! k)
                 = JStr (''llm-parsed-'' @ showInt (clock' (4 * k)) @ ''-'' @ showNat k))"
    using at kept by (simp add: ev orElse_def)
  have p3: "distinct (map vId (events ?r))
            \<longleftrightarrow> distinct (suppliedIds elems)
                \<and> set (suppliedIds elems) \<inter> set (generatedIds clock' 0 elems) = {}"
    unfolding ev ids by (rule reply_ids_distinct)
  show "length (events ?r) = length elems
      \<and> (\<forall>k < length elems.
            (truthy (getPropOpt (Some (elems ! k)) ''id'') \<longrightarrow>
               Some (vId (events ?r ! k)) = getPropOpt (Some (elems ! k)) ''id'')
            \<and> (\<not> truthy (getPropOpt (Some (elems ! k)) ''id'') \<longrightarrow>
               vId (events ?r ! k)
                 = JStr (''llm-parsed-'' @ showInt (clock' (4 * k)) @ ''-'' @ showNat k)))
      \<and> (distinct (map vId (events ?r))
            \<longleftrightarrow> distinct (suppliedIds elems)
                \<and> set (suppliedIds elems) \<inter> set (generatedIds clock' 0 elems) = {})"
    by (rule conjI [OF p1 conjI [OF p2 p3]])
qed

theorem parse_ids_distinct_witness:
  "success (parseJSONResponse utcEnv (\<lambda>i. 1705312800000)
      (\<lambda>s. Some (JObj [(''events'', JArr [JObj [(''id'', JStr ''a'')],
                 JObj [(''title'', JStr ''Databases'')], JObj [(''id'', JStr ''b'')]])]))
      (JStr ''{}''))
   \<and> suppliedIds [JObj [(''id'', JStr ''a'')], JObj [(''title'', JStr ''Databases'')],
        JObj [(''id'', JStr ''b'')]] = [JStr ''a'', JStr ''b'']
   \<and> generatedIds (\<lambda>i. 1705312800000) 0
        [JObj [(''id'', JStr ''a'')], JObj [(''title'', JStr ''Databases'')],
         JObj [(''id'', JStr ''b'')]] = [JStr ''llm-parsed-1705312800000-1'']
   \<and> length (events (parseJSONResponse utcEnv (\<lambda>i. 1705312800000)
        (\<lambda>s. Some (JObj [(''events'', JArr [JObj [(''id'', JStr ''a'')],
                   JObj [(''title'', JStr ''Databases'')], JObj [(''id'', JStr ''b'')]])]))
        (JStr ''{}''))) = 3
   \<and> vId (events (parseJSONResponse utcEnv (\<lambda>i. 1705312800000)
        (\<lambda>s. Some (JObj [(''events'', JArr [JObj [(''id'', JStr ''a'')],
                   JObj [(''title'', JStr ''Databases'')], JObj [(''id'', JStr ''b'')]])]))
        (JStr ''{}'')) ! 0) = JStr ''a''
   \<and> vId (events (parseJSONResponse utcEnv (\<lambda>i. 1705312800000)
        (\<lambda>s. Some (JObj [(''events'', JArr [JObj [(''id'', JStr ''a'')],
                   JObj [(''title'', JStr ''Databases'')], JObj [(''id'', JStr ''b'')]])]))
        (JStr ''{}'')) ! 1) = JStr ''llm-parsed-1705312800000-1''
   \<and> distinct (map vId (events (parseJSONResponse utcEnv (\<lambda>i. 1705312800000)
        (\<lambda>s. Some (JObj [(''events'', JArr [JObj [(''id'', JStr ''a'')],
                   JObj [(''title'', JStr ''Databases'')], JObj [(''id'', JStr ''b'')]])]))
        (JStr ''{}''))))
   \<and> distinct (map eid (convertRowsToEvents utcEnv (\<lambda>i. 1705312800000)
        [csvRow [(''course'', ''Algorithms'')], csvRow [(''course'', ''Databases'')]]))"
proof -
  let ?elems = "[JObj [(''id'', JStr ''a'')], JObj [(''title'', JStr ''Databases'')],
        JObj [(''id'', JStr ''b'')]]"
  let ?parsed = "JObj [(''events'', JArr ?elems)]"
  let ?parse = "\<lambda>s :: string. Some ?parsed"
  let ?clock = "\<lambda>i :: nat. 1705312800000 :: int"
  let ?r = "parseJSONResponse utcEnv ?clock ?parse (JStr ''{}'')"
  have ok: "success ?r" by code_simp
  have sup: "suppliedIds ?elems = [JStr ''a'', JStr ''b'']" by code_simp
  have gen: "generatedIds ?clock 0 ?elems = [JStr ''llm-parsed-1705312800000-1'']" by code_simp
  have name: "''llm-parsed-'' @ showInt 1705312800000 @ ''-'' @ showNat 1
      = ''llm-parsed-1705312800000-1''"
    by code_simp
  have h: "?parse (cleanContent ''{}'') = Some ?parsed
        \<and> getPropOpt (Some ?parsed) ''events'' = Some (JArr ?elems)
        \<and> success ?r"
    using ok by simp
  note all = parse_ids_distinct [of utcEnv ?clock
      "[csvRow [(''course'', ''Algorithms'')], csvRow [(''course'', ''Databases'')]]"
      ?parse "''{}''" ?parsed ?elems utcEnv ?clock]
  note rows = all [THEN conjunct1]
  note reply = all [THEN conjunct2, THEN mp, OF h]
  from reply have len: "length (events ?r) = 3" by simp
  note each = reply [THEN conjunct2, THEN conjunct1]
  from each [THEN spec, of 0] have first: "vId (events ?r ! 0) = JStr ''a''" by simp
  from each [THEN spec, of 1] name have second: "vId (events ?r ! 1) = JStr ''llm-parsed-1705312800000-1''"
    by simp
  from reply [THEN conjunct2, THEN conjunct2] sup gen
  have dist: "distinct (map vId (events ?r))" by simp
  from ok sup gen len first second dist rows show ?thesis by (intro conjI)
qed

section \<open>Bare start times and the default duration\<close>

lemma digitsValue_SomeD:
  "digitsValue ds = Some n \<Longrightarrow> ds \<noteq> [] \<and> list_all isDigit ds"
  by (simp add: digitsValue_def split: if_splits)

lemma clock_text_chars:
  assumes "list_all isDigit hs" "list_all isDigit ms"
  shows "c \<in> set (hs @ '':'' @ ms) \<Longrightarrow> c \<noteq> CHR ''A'' \<and> c \<noteq> CHR ''P'' \<and> c \<noteq> CHR '' ''"
  using assms by (auto simp: list_all_iff dest: isDigit_chars)

lemma bare_text:
  assumes hs: "digitsValue hs = Some h" and ms: "digitsValue ms = Some m"
  shows "trim (hs @ '':'' @ ms) = hs @ '':'' @ ms"
    and "\<not> includesStr (hs @ '':'' @ ms) ''AM''"
    and "\<not> includesStr (hs @ '':'' @ ms) ''PM''"
    and "\<not> includesStr (hs @ '':'' @ ms) '' - ''"
    and "NumberAt (split (hs @ '':'' @ ms) '':'') 0 = Some h"
    and "NumberAt (split (hs @ '':'' @ ms) '':'') 1 = Some m"
proof -
  let ?v = "hs @ '':'' @ ms"
  from hs ms have d: "hs \<noteq> []" "list_all isDigit hs" "ms \<noteq> []" "list_all isDigit ms"
    by (auto dest: digitsValue_SomeD)
  have "isDigit (hd hs)" "isDigit (last ms)"
    using d by (auto simp: list_all_iff)
  then have "\<not> isWhiteSpace (hd ?v)" "\<not> isWhiteSpace (last ?v)"
    using d by (auto dest: isDigit_not_space)
  then show "trim ?v = ?v"
    by (intro trim_id) simp_all
  show "\<not> includesStr ?v ''AM''"
  proof
    assume "includesStr ?v ''AM''"
    then have "CHR ''A'' \<in> set ?v" by (auto dest!: includesStr_set)
    then show False using clock_text_chars [OF d(2) d(4)] by blast
  qed
  show "\<not> includesStr ?v ''PM''"
  proof
    assume "includesStr ?v ''PM''"
    then have "CHR ''P'' \<in> set ?v" by (auto dest!: includesStr_set)
    then show False using clock_text_chars [OF d(2) d(4)] by blast
  qed
  show "\<not> includesStr ?v '' - ''"
  proof
    assume "includesStr ?v '' - ''"
    then have "CHR '' '' \<in> set ?v" by (auto dest!: includesStr_set)
    then show False using clock_text_chars [OF d(2) d(4)] by blast
  qed
  have colon: "CHR '':'' \<notin> set hs" "CHR '':'' \<notin> set ms"
    using d by (auto simp: list_all_iff dest: isDigit_chars)
  have sp: "split ?v '':'' = [hs, ms]"
    using colon by (rule split_colon_two)
  show "NumberAt (split ?v '':'') 0 = Some h" "NumberAt (split ?v '':'') 1 = Some m"
    unfolding sp using d hs ms by (simp_all add: NumberAt_def Number_digits)
qed

lemma bare_tail:
  assumes now: "\<bar>now\<bar> \<le> 8000000000000000"
    and steady: "\<forall>t u. \<bar>t - now\<bar> \<le> 3 * msPerDay \<longrightarrow> localTZA E t u = c"
    and tz: "\<bar>c\<bar> \<le> 86400000"
    and hs: "digitsValue hs = Some h" and ms: "digitsValue ms = Some m"
    and h: "0 \<le> h" "h < 24" and m: "0 \<le> m" "m < 60"
  shows "(if \<not> includesStr (hs @ '':'' @ ms) '' - ''
          then (hs @ '':'' @ ms) @ '' - '' @ addMinutes E now (hs @ '':'' @ ms) 90
          else hs @ '':'' @ ms)
     = (hs @ '':'' @ ms) @ '' - '' @ padStart2 (showInt ((h * 60 + m + 90) div 60 mod 24))
         @ '':'' @ padStart2 (showInt ((h * 60 + m + 90) mod 60))"
proof -
  note bt = bare_text [OF hs ms]
  have m90: "0 \<le> m + 90" "m + 90 < 200" using m by simp_all
  note clk = clock_after_setHours [OF now steady tz h m90]
  have "addMinutes E now (hs @ '':'' @ ms) 90
      = padStart2 (showInt ((h * 60 + m + 90) div 60 mod 24))
         @ '':'' @ padStart2 (showInt ((h * 60 + m + 90) mod 60))"
    unfolding addMinutes_def Let_def bt(5) bt(6)
    by (simp add: addNumber_def clk showNumber_def add.assoc)
  then show ?thesis
    using bt(4) by simp
qed

lemma normalizeTime_bare:
  assumes now: "\<bar>now\<bar> \<le> 8000000000000000"
    and steady: "\<forall>t u. \<bar>t - now\<bar> \<le> 3 * msPerDay \<longrightarrow> localTZA E t u = c"
    and tz: "\<bar>c\<bar> \<le> 86400000"
    and hs: "digitsValue hs = Some h" and ms: "digitsValue ms = Some m"
    and h: "0 \<le> h" "h < 24" and m: "0 \<le> m" "m < 60"
  shows "normalizeTime E now (hs @ '':'' @ ms)
     = (hs @ '':'' @ ms) @ '' - '' @ padStart2 (showInt ((h * 60 + m + 90) div 60 mod 24))
         @ '':'' @ padStart2 (showInt ((h * 60 + m + 90) mod 60))"
proof -
  note bt = bare_text [OF hs ms]
  have "normalizeTime E now (hs @ '':'' @ ms)
      = (if \<not> includesStr (hs @ '':'' @ ms) '' - ''
         then (hs @ '':'' @ ms) @ '' - '' @ addMinutes E now (hs @ '':'' @ ms) 90
         else hs @ '':'' @ ms)"
    unfolding normalizeTime_def Let_def bt(1) using bt(2,3) by simp
  then show ?thesis
    by (simp only: bare_tail [OF now steady tz hs ms h m])
qed

lemma includesStr_self: "includesStr p p"
  by (cases p) simp_all

lemma includesStr_suffix: "includesStr (xs @ p) p"
  by (induction xs) (simp_all add: includesStr_self)

lemma foldl_digits_zeros:
  "foldl (\<lambda>a c. 10 * a + digitValue c) 0 (replicate k (CHR ''0'') @ ds)
     = foldl (\<lambda>a c. 10 * a + digitValue c) 0 ds"
  by (induction k) (simp_all add: digitValue_def codeUnit_def)

lemma digitsValue_padStart2:
  assumes "0 \<le> n"
  shows "digitsValue (padStart2 (showInt n)) = Some n"
proof -
  have s: "showInt n = showDigits n" using assms by (simp add: showInt_def)
  have "isDigit (CHR ''0'')" by (simp add: isDigit_def codeUnit_def)
  then have "list_all isDigit (replicate k (CHR ''0'') @ showDigits n)" for k
    using showDigits_digits [OF assms] by (auto simp: list_all_iff)
  moreover have "replicate k (CHR ''0'') @ showDigits n \<noteq> []" for k
    by (simp add: showDigits_nonempty)
  ultimately show ?thesis
    unfolding s padStart2_def digitsValue_def
    using showDigits_value [OF assms]
    by (simp add: foldl_digits_zeros showDigits_nonempty del: foldl_append)
qed

text \<open>The markers of the 12-hour clock, in any letter case.\<close>

lemma upperChar_letter:
  assumes "upperChar c = CHR ''A'' \<or> upperChar c = CHR ''P''"
  shows "\<not> isWhiteSpace c \<and> \<not> isDigit c \<and> c \<noteq> CHR '':''"
proof (cases "isLower c")
  case False
  with assms have "c = CHR ''A'' \<or> c = CHR ''P''"
    by (simp add: upperChar_def)
  then show ?thesis
    by (auto simp: isWhiteSpace_def isDigit_def codeUnit_def)
next
  case True
  then have r: "97 \<le> codeUnit c \<and> codeUnit c \<le> 122 \<or> 224 \<le> codeUnit c"
    by (auto simp: isLower_def)
  have d: "\<not> isDigit c" using r by (auto simp: isDigit_def)
  have "codeUnit (CHR '':'') = 58" by (simp add: codeUnit_def)
  with r have k: "c \<noteq> CHR '':''" by auto
  have w: "\<not> isWhiteSpace c"
  proof
    assume "isWhiteSpace c"
    then have "codeUnit c \<in> {9, 10, 11, 12, 13, 32, 160}"
      by (auto simp: isWhiteSpace_def codeUnit_def)
    with r show False by auto
  qed
  from w d k show ?thesis by simp
qed

lemma marker_facts:
  assumes "isMarker mk"
  shows "\<exists>a b. mk = [a, b] \<and> \<not> isWhiteSpace a \<and> \<not> isDigit a \<and> a \<noteq> CHR '':''"
proof -
  from assms have l: "length mk = 2"
    and u: "toUpperCase mk = ''AM'' \<or> toUpperCase mk = ''PM''"
    by (simp_all add: isMarker_def)
  from l obtain a b where mk: "mk = [a, b]"
    by (cases mk; cases "tl mk") auto
  with u have "upperChar a = CHR ''A'' \<or> upperChar a = CHR ''P''"
    by (auto simp: toUpperCase_def)
  from upperChar_letter [OF this] mk show ?thesis by blast
qed

lemma marker_capitals:
  assumes "mk = ''AM'' \<or> mk = ''PM''"
  shows "isMarker mk \<and> toUpperCase mk = mk"
proof -
  have "isMarker ''AM'' \<and> toUpperCase ''AM'' = ''AM''" by code_simp
  moreover have "isMarker ''PM'' \<and> toUpperCase ''PM'' = ''PM''" by code_simp
  ultimately show ?thesis using assms by blast
qed

lemma matchPeriod_marker:
  assumes "list_all isWhiteSpace sp" and "isMarker mk"
  shows "matchPeriod (sp @ mk) = Some (mk, [])"
proof -
  from marker_facts [OF assms(2)] obtain a b where
    mk: "mk = [a, b]" and w: "\<not> isWhiteSpace a" by blast
  from assms(2) mk have u: "toUpperCase [a, b] = ''AM'' \<or> toUpperCase [a, b] = ''PM''"
    by (simp add: isMarker_def)
  have dw: "dropWhile isWhiteSpace (sp @ ys) = dropWhile isWhiteSpace ys" for ys
    using assms(1) by (induction sp) simp_all
  have "dropWhile isWhiteSpace (sp @ mk) = [a, b]"
    using w by (simp add: dw mk)
  then show ?thesis
    using u by (simp add: matchPeriod_def mk)
qed

lemma head_not_digit:
  assumes "list_all isWhiteSpace sp" and "isMarker mk"
  shows "\<exists>c cs. sp @ mk = c # cs \<and> \<not> isDigit c \<and> c \<noteq> CHR '':''"
proof (cases sp)
  case Nil
  from marker_facts [OF assms(2)] obtain a b where
    "mk = [a, b]" "\<not> isDigit a" "a \<noteq> CHR '':''" by blast
  with Nil show ?thesis by simp
next
  case (Cons w ws)
  with assms(1) have w: "isWhiteSpace w" by simp
  then have "\<not> isDigit w"
    using isDigit_not_space by blast
  moreover have "w \<noteq> CHR '':''"
  proof
    assume "w = CHR '':''"
    with w show False by (simp add: isWhiteSpace_def)
  qed
  ultimately show ?thesis using Cons by simp
qed

lemma matchMinutes_none:
  assumes "list_all isWhiteSpace sp" and "isMarker mk"
  shows "matchMinutes (sp @ mk) = Some (None, mk, [])"
proof -
  from head_not_digit [OF assms] obtain c cs where
    s: "sp @ mk = c # cs" and c: "\<not> isDigit c" by blast
  have "(case c # cs of
          a # b # rest \<Rightarrow>
            if isDigit a \<and> isDigit b
            then map_option (\<lambda>(p, r). (Some [a, b], p, r)) (matchPeriod rest) else None
        | _ \<Rightarrow> None) = None"
    using c by (cases cs) simp_all
  then show ?thesis
    unfolding matchMinutes_def s
    using matchPeriod_marker [OF assms] s
    by simp
qed

lemma matchMinutes_two:
  assumes "list_all isWhiteSpace sp" and "isMarker mk"
    and "isDigit d1" "isDigit d2"
  shows "matchMinutes (d1 # d2 # sp @ mk) = Some (Some [d1, d2], mk, [])"
  using assms(3,4) matchPeriod_marker [OF assms(1,2)]
  by (simp add: matchMinutes_def)

lemma matchColon_minutes:
  assumes "list_all isWhiteSpace sp" and "isMarker mk"
    and "isDigit d1" "isDigit d2"
  shows "matchColon (CHR '':'' # d1 # d2 # sp @ mk) = Some (Some [d1, d2], mk, [])"
  using matchMinutes_two [OF assms]
  by (simp add: matchColon_def)

lemma matchColon_none:
  assumes "list_all isWhiteSpace sp" and "isMarker mk"
  shows "matchColon (sp @ mk) = Some (None, mk, [])"
proof -
  from head_not_digit [OF assms] obtain c cs where
    s: "sp @ mk = c # cs" and c: "c \<noteq> CHR '':''" by blast
  have "matchColon (c # cs) = matchMinutes (c # cs)"
    using c by (simp add: matchColon_def)
  then show ?thesis
    using matchMinutes_none [OF assms] s by simp
qed

text \<open>The tail after the hour digits: minutes with a colon, or nothing.\<close>

lemma matchAt_hours:
  assumes hs: "hs = [a] \<or> hs = [a, b]" and da: "isDigit a" and db: "isDigit b"
    and tail: "matchColon tl' = Some m" and nd: "\<exists>c cs. tl' = c # cs \<and> \<not> isDigit c"
  shows "matchAt (hs @ tl') = Some (hs, m)"
proof -
  from nd obtain c cs where t: "tl' = c # cs" and c: "\<not> isDigit c" by blast
  from hs show ?thesis
  proof
    assume h: "hs = [a]"
    have "matchAt (a # c # cs) = map_option (\<lambda>m. ([a], m)) (matchColon (c # cs))"
      using da c by (simp add: matchAt_def)
    then show ?thesis
      using tail h t by simp
  next
    assume h: "hs = [a, b]"
    have "matchAt (a # b # c # cs) = map_option (\<lambda>m. ([a, b], m)) (matchColon (c # cs))"
      using da db tail t by (simp add: matchAt_def)
    then show ?thesis
      using tail h t by simp
  qed
qed


lemma replace12_skip_all: "length cs \<le> k \<Longrightarrow> replace12 k cs = []"
  by (induction k cs rule: replace12.induct) simp_all

lemma hour_digits:
  assumes "digitsValue hs = Some h" and "length hs \<le> 2"
  shows "\<exists>a b. (hs = [a] \<or> hs = [a, b]) \<and> isDigit a \<and> isDigit b"
proof -
  from assms(1) have d: "hs \<noteq> []" "list_all isDigit hs"
    by (auto dest: digitsValue_SomeD)
  then obtain a rest where hs: "hs = a # rest" by (cases hs) auto
  show ?thesis
  proof (cases rest)
    case Nil
    with hs d show ?thesis by auto
  next
    case (Cons b rest')
    with hs assms(2) have "rest' = []" by simp
    with Cons hs d show ?thesis by auto
  qed
qed

text \<open>The hour of the replacement.\<close>

lemma to24_value:
  assumes "digitsValue hs = Some h" and "isMarker mk"
  shows "to24 hs mins mk
     = padStart2 (showInt (hour24 h (toUpperCase mk)))
       @ '':'' @ (case mins of None \<Rightarrow> ''00'' | Some ms \<Rightarrow> ms)"
proof -
  from assms(2) have "toUpperCase mk = ''AM'' \<or> toUpperCase mk = ''PM''"
    by (simp add: isMarker_def)
  then show ?thesis
  proof
    assume "toUpperCase mk = ''AM''"
    then show ?thesis using assms(1) by (simp add: to24_def hour24_def Let_def)
  next
    assume "toUpperCase mk = ''PM''"
    then show ?thesis using assms(1) by (simp add: to24_def hour24_def Let_def)
  qed
qed

lemma convert12to24_single:
  assumes hs: "digitsValue hs = Some h" "length hs \<le> 2"
    and sp: "list_all isWhiteSpace sp" and mk: "isMarker mk"
    and mins: "mins = None \<and> mtext = [] \<or>
               (\<exists>d1 d2. isDigit d1 \<and> isDigit d2 \<and> mins = Some [d1, d2]
                  \<and> mtext = CHR '':'' # [d1, d2])"
  shows "convert12to24 (hs @ mtext @ sp @ mk) = to24 hs mins mk"
proof -
  from hour_digits [OF hs] obtain a b where
    ab: "hs = [a] \<or> hs = [a, b]" "isDigit a" "isDigit b" by blast
  have tail: "matchColon (mtext @ sp @ mk) = Some (mins, mk, [])"
    using mins matchColon_none [OF sp mk] matchColon_minutes [OF sp mk] by auto
  have nd: "\<exists>c cs. mtext @ sp @ mk = c # cs \<and> \<not> isDigit c"
  proof (cases mtext)
    case Nil
    with head_not_digit [OF sp mk] show ?thesis by auto
  next
    case (Cons c cs)
    with mins have "c = CHR '':''" by auto
    then have "\<not> isDigit c" by (simp add: isDigit_def codeUnit_def)
    with Cons show ?thesis by simp
  qed
  have m: "matchAt (hs @ mtext @ sp @ mk) = Some (hs, mins, mk, [])"
    using matchAt_hours [OF ab tail nd] .
  obtain c cs where v: "hs @ mtext @ sp @ mk = c # cs"
    using ab(1) by (cases "hs @ mtext @ sp @ mk") auto
  have "replace12 0 (c # cs) = to24 hs mins mk @ replace12 (length cs - length ([] :: string)) cs"
    using m unfolding v by simp
  then show ?thesis
    unfolding convert12to24_def v by (simp add: replace12_skip_all)
qed

text \<open>
  On its own the converter accepts the marker in any letter case: a single 12-hour clock time
  becomes its 24-hour form.
\<close>

lemma convert12to24_any_case:
  assumes hs: "digitsValue hs = Some h" "length hs \<le> 2"
    and sp: "list_all isWhiteSpace sp" and mk: "isMarker mk"
    and ms: "isDigit d1" "isDigit d2"
  shows "convert12to24 (hs @ CHR '':'' # [d1, d2] @ sp @ mk)
     = padStart2 (showInt (hour24 h (toUpperCase mk))) @ '':'' @ [d1, d2]"
proof -
  have form: "Some [d1, d2] = None \<and> CHR '':'' # [d1, d2] = [] \<or>
               (\<exists>e1 e2. isDigit e1 \<and> isDigit e2 \<and> Some [d1, d2] = Some [e1, e2]
                  \<and> CHR '':'' # [d1, d2] = CHR '':'' # [e1, e2])"
    using ms by simp
  from convert12to24_single [OF hs sp mk form] to24_value [OF hs(1) mk, of "Some [d1, d2]"]
  show ?thesis by simp
qed


lemma normalizeTime_bare12:
  assumes now: "\<bar>now\<bar> \<le> 8000000000000000"
    and steady: "\<forall>t u. \<bar>t - now\<bar> \<le> 3 * msPerDay \<longrightarrow> localTZA E t u = c"
    and tz: "\<bar>c\<bar> \<le> 86400000"
    and hs: "digitsValue hs = Some h" "length hs \<le> 2" and h: "1 \<le> h" "h \<le> 12"
    and sp: "list_all isWhiteSpace sp" and mk: "mk = ''AM'' \<or> mk = ''PM''"
    and form: "mtext = [] \<and> ms = ''00'' \<or> length ms = 2 \<and> mtext = CHR '':'' # ms"
    and ms: "digitsValue ms = Some m" and m: "0 \<le> m" "m < 60"
  shows "normalizeTime E now (hs @ mtext @ sp @ mk)
     = (padStart2 (showInt (hour24 h mk)) @ '':'' @ ms) @ '' - ''
         @ padStart2 (showInt ((hour24 h mk * 60 + m + 90) div 60 mod 24))
         @ '':'' @ padStart2 (showInt ((hour24 h mk * 60 + m + 90) mod 60))"
proof -
  let ?v = "hs @ mtext @ sp @ mk"
  define mins where "mins = (if mtext = [] then None else Some ms)"
  from ms have md: "ms \<noteq> []" "list_all isDigit ms" by (auto dest: digitsValue_SomeD)
  have minsform: "mins = None \<and> mtext = [] \<or>
               (\<exists>d1 d2. isDigit d1 \<and> isDigit d2 \<and> mins = Some [d1, d2]
                  \<and> mtext = CHR '':'' # [d1, d2])"
  proof (cases "mtext = []")
    case True
    then show ?thesis by (simp add: mins_def)
  next
    case False
    with form have l: "length ms = 2" and mt: "mtext = CHR '':'' # ms" by auto
    from l obtain d1 d2 where d: "ms = [d1, d2]"
      by (cases ms; cases "tl ms") auto
    with md have "isDigit d1" "isDigit d2" by simp_all
    with d mt False show ?thesis by (simp add: mins_def)
  qed
  have mtxt: "(case mins of None \<Rightarrow> ''00'' | Some x \<Rightarrow> x) = ms"
    using form by (auto simp: mins_def)
  from marker_capitals [OF mk] have im: "isMarker mk" and up: "toUpperCase mk = mk"
    by simp_all
  have conv: "convert12to24 ?v = padStart2 (showInt (hour24 h mk)) @ '':'' @ ms"
    using convert12to24_single [OF hs sp im minsform] to24_value [OF hs(1) im, of mins]
    by (simp only: mtxt up)
  from hs(1) have hd: "hs \<noteq> []" "list_all isDigit hs" by (auto dest: digitsValue_SomeD)
  then have "isDigit (hd hs)" by (cases hs) simp_all
  then have first: "\<not> isWhiteSpace (hd ?v)"
    using hd(1) by (auto dest: isDigit_not_space)
  have "last ?v = CHR ''M''" using mk by auto
  then have lastc: "\<not> isWhiteSpace (last ?v)" by (simp add: isWhiteSpace_def)
  have t: "trim ?v = ?v"
    using hd(1) first lastc by (intro trim_id) simp_all
  have inc: "includesStr ?v ''AM'' \<or> includesStr ?v ''PM''"
    using mk includesStr_suffix [of "hs @ mtext @ sp" mk] by auto
  have range: "0 \<le> hour24 h mk" "hour24 h mk < 24"
    using h by (auto simp: hour24_def)
  have hv: "digitsValue (padStart2 (showInt (hour24 h mk))) = Some (hour24 h mk)"
    using range(1) by (rule digitsValue_padStart2)
  have "normalizeTime E now ?v
      = (if \<not> includesStr (convert12to24 ?v) '' - ''
         then convert12to24 ?v @ '' - '' @ addMinutes E now (convert12to24 ?v) 90
         else convert12to24 ?v)"
    unfolding normalizeTime_def Let_def t using inc by simp
  then show ?thesis
    unfolding conv by (simp only: bare_tail [OF now steady tz hv ms range m])
qed

lemma normalizeTime_default: "normalizeTime E now ''09:00 - 10:30'' = ''09:00 - 10:30''"
proof -
  have "trim ''09:00 - 10:30'' = ''09:00 - 10:30''" by code_simp
  moreover have "\<not> includesStr ''09:00 - 10:30'' ''AM''" by code_simp
  moreover have "\<not> includesStr ''09:00 - 10:30'' ''PM''" by code_simp
  moreover have "includesStr ''09:00 - 10:30'' '' - ''" by code_simp
  ultimately show ?thesis by (simp add: normalizeTime_def)
qed

lemma calculateDuration_default: "calculateDuration ''09:00 - 10:30'' = ''1h 30m''"
  by code_simp


text \<open>
  C6 (the claim as stated fails). A row without a time but with a duration column keeps
  the duration it gives: the default time range comes with the duration \<open>2h\<close>. A time
  value without separator that is not of the form \<open>h:m\<close> gets no end time 90 minutes
  later: the bare hour \<open>9\<close> becomes \<open>'9 - NaN:NaN'\<close>. And the end time is read from the
  local clock of today: in the east of the United States on 2024-03-10, when the clocks
  are set forward at 02:00, the start time \<open>01:00\<close> gets the end time \<open>03:30\<close>, and the
  duration of the row is \<open>'2h 30m'\<close>.
\<close>

theorem mapRowToEvent_duration_column_counterexample:
  "findValueByKeys (csvRow [(''course'', ''Algorithms''), (''duration'', ''2h'')]) timeKeys = None
   \<and> map_option (\<lambda>ev. (time ev, duration ev))
        (projr (mapRowToEvent utcEnv 1705312800000
           (csvRow [(''course'', ''Algorithms''), (''duration'', ''2h'')]) 0))
     = Some (''09:00 - 10:30'', ''2h'')
   \<and> \<not> includesStr ''9'' '' - ''
   \<and> map_option time
        (projr (mapRowToEvent utcEnv 1705312800000
           (csvRow [(''course'', ''Algorithms''), (''time'', ''9'')]) 0))
     = Some ''9 - NaN:NaN''
   \<and> toISOString (Some 1710048600000) = Inr ''2024-03-10T05:30:00.000Z''
   \<and> \<not> includesStr ''01:00'' '' - ''
   \<and> map_option (\<lambda>ev. (time ev, duration ev))
        (projr (mapRowToEvent newYorkEnv 1710048600000
           (csvRow [(''course'', ''Algorithms''), (''time'', ''01:00'')]) 0))
     = Some (''01:00 - 03:30'', ''2h 30m'')"
  by code_simp

text \<open>
  C6 (amended). For a row with a resolvable title, mapped at a clock reading within the
  range of dates, in a zone whose offsets from UTC are at most a day and do not change
  within three days of that reading: when its time value is a bare 24-hour clock time \<open>h:m\<close> (digits, a colon,
  digits, with \<open>h < 24\<close> and \<open>m < 60\<close>), the normalized time is that value, \<open>' - '\<close>, and the
  clock time 90 minutes later (wrapping at midnight), zero-padded; when it is a bare
  12-hour clock time (an hour \<open>1..12\<close>, optionally a colon and two minute digits, optional
  white space, and \<open>AM\<close> or \<open>PM\<close> in capitals), the normalized time is its 24-hour form
  followed in the same way by the clock time 90 minutes later; when the row has no time
  value and no duration value, the normalized time is \<open>'09:00 - 10:30'\<close> and the duration
  is \<open>'1h 30m'\<close>; and a duration value of the row is kept as the duration.
\<close>

theorem mapRowToEvent_default_duration:
  assumes title: "findValueByKeys r titleKeys = Some ttl"
    and now: "\<bar>now\<bar> \<le> 8000000000000000"
    and zone: "\<forall>t u. \<bar>localTZA E t u\<bar> \<le> 86400000"
    and steady: "\<forall>t u. \<bar>t - now\<bar> \<le> 3 * msPerDay \<longrightarrow> localTZA E t u = c"
  shows "(findValueByKeys r timeKeys = Some (hs @ '':'' @ ms)
        \<and> digitsValue hs = Some h \<and> digitsValue ms = Some m
        \<and> 0 \<le> h \<and> h < 24 \<and> 0 \<le> m \<and> m < 60 \<longrightarrow>
        (\<exists>ev. mapRowToEvent E now r i = Inr (Some ev)
           \<and> time ev = (hs @ '':'' @ ms) @ '' - ''
               @ padStart2 (showInt ((h * 60 + m + 90) div 60 mod 24))
               @ '':'' @ padStart2 (showInt ((h * 60 + m + 90) mod 60))))
     \<and> (findValueByKeys r timeKeys = Some (hs @ mtext @ sp @ mk)
        \<and> digitsValue hs = Some h \<and> length hs \<le> 2 \<and> 1 \<le> h \<and> h \<le> 12
        \<and> list_all isWhiteSpace sp \<and> (mk = ''AM'' \<or> mk = ''PM'')
        \<and> (mtext = [] \<and> ms = ''00'' \<or> length ms = 2 \<and> mtext = CHR '':'' # ms)
        \<and> digitsValue ms = Some m \<and> 0 \<le> m \<and> m < 60 \<longrightarrow>
        (\<exists>ev. mapRowToEvent E now r i = Inr (Some ev)
           \<and> time ev = (padStart2 (showInt (hour24 h mk)) @ '':'' @ ms) @ '' - ''
               @ padStart2 (showInt ((hour24 h mk * 60 + m + 90) div 60 mod 24))
               @ '':'' @ padStart2 (showInt ((hour24 h mk * 60 + m + 90) mod 60))))
     \<and> (findValueByKeys r timeKeys = None \<and> findValueByKeys r durationKeys = None \<longrightarrow>
        (\<exists>ev. mapRowToEvent E now r i = Inr (Some ev)
           \<and> time ev = ''09:00 - 10:30'' \<and> duration ev = ''1h 30m''))
     \<and> (findValueByKeys r durationKeys = Some dv \<longrightarrow>
        (\<exists>ev. mapRowToEvent E now r i = Inr (Some ev) \<and> duration ev = dv))"
proof -
  have tz: "\<bar>c\<bar> \<le> 86400000"
  proof -
    have "localTZA E now True = c" using steady by (simp add: msPerDay_def)
    with zone show ?thesis by metis
  qed
  from mapRowToEvent_ok [OF title now zone, of i] obtain ev where
    ev: "mapRowToEvent E now r i = Inr (Some ev)"
    and tm: "time ev = normalizeTime E now
         (case findValueByKeys r timeKeys of Some v \<Rightarrow> v | None \<Rightarrow> ''09:00 - 10:30'')"
    and du: "duration ev = (case findValueByKeys r durationKeys of
                         Some v \<Rightarrow> v | None \<Rightarrow> calculateDuration (time ev))"
    by blast
  have bare: "time ev = (hs @ '':'' @ ms) @ '' - ''
               @ padStart2 (showInt ((h * 60 + m + 90) div 60 mod 24))
               @ '':'' @ padStart2 (showInt ((h * 60 + m + 90) mod 60))"
    if "findValueByKeys r timeKeys = Some (hs @ '':'' @ ms)"
      and "digitsValue hs = Some h" "digitsValue ms = Some m"
      and "0 \<le> h" "h < 24" "0 \<le> m" "m < 60"
    using that tm normalizeTime_bare [OF now steady tz, of hs h ms m] by simp
  have bare12: "time ev = (padStart2 (showInt (hour24 h mk)) @ '':'' @ ms) @ '' - ''
               @ padStart2 (showInt ((hour24 h mk * 60 + m + 90) div 60 mod 24))
               @ '':'' @ padStart2 (showInt ((hour24 h mk * 60 + m + 90) mod 60))"
    if "findValueByKeys r timeKeys = Some (hs @ mtext @ sp @ mk)"
      and "digitsValue hs = Some h" "length hs \<le> 2" "1 \<le> h" "h \<le> 12"
      and "list_all isWhiteSpace sp" "mk = ''AM'' \<or> mk = ''PM''"
      and "mtext = [] \<and> ms = ''00'' \<or> length ms = 2 \<and> mtext = CHR '':'' # ms"
      and "digitsValue ms = Some m" "0 \<le> m" "m < 60"
    using tm that(1) normalizeTime_bare12 [OF now steady tz that(2-11)] by simp
  have dflt: "time ev = ''09:00 - 10:30'' \<and> duration ev = ''1h 30m''"
    if "findValueByKeys r timeKeys = None" and "findValueByKeys r durationKeys = None"
    using that tm du by (simp add: normalizeTime_default calculateDuration_default)
  have kept: "duration ev = dv" if "findValueByKeys r durationKeys = Some dv"
    using that du by simp
  show ?thesis
    using ev bare bare12 dflt kept by blast
qed

theorem mapRowToEvent_default_duration_witness:
  "findValueByKeys (csvRow [(''course'', ''Databases''), (''time'', ''23:15'')]) titleKeys
     = Some ''Databases''
   \<and> findValueByKeys (csvRow [(''course'', ''Databases''), (''time'', ''23:15'')]) timeKeys
     = Some (''23'' @ '':'' @ ''15'')
   \<and> digitsValue ''23'' = Some 23 \<and> digitsValue ''15'' = Some 15
   \<and> (\<exists>ev. mapRowToEvent utcEnv 1705312800000
          (csvRow [(''course'', ''Databases''), (''time'', ''23:15'')]) 0 = Inr (Some ev)
        \<and> time ev = ''23:15 - 00:45'')
   \<and> findValueByKeys (csvRow [(''course'', ''Databases''), (''time'', ''2:30 PM'')]) timeKeys
     = Some (''2'' @ '':30'' @ '' '' @ ''PM'')
   \<and> digitsValue ''2'' = Some 2 \<and> digitsValue ''30'' = Some 30
   \<and> (\<exists>ev. mapRowToEvent utcEnv 1705312800000
          (csvRow [(''course'', ''Databases''), (''time'', ''2:30 PM'')]) 0 = Inr (Some ev)
        \<and> time ev = ''14:30 - 16:00'')
   \<and> findValueByKeys (csvRow [(''course'', ''Databases'')]) timeKeys = None
   \<and> findValueByKeys (csvRow [(''course'', ''Databases'')]) durationKeys = None
   \<and> (\<exists>ev. mapRowToEvent utcEnv 1705312800000 (csvRow [(''course'', ''Databases'')]) 0
          = Inr (Some ev)
        \<and> time ev = ''09:00 - 10:30'' \<and> duration ev = ''1h 30m'')
   \<and> findValueByKeys (csvRow [(''course'', ''Databases''), (''length'', ''2h'')]) durationKeys
     = Some ''2h''
   \<and> (\<exists>ev. mapRowToEvent utcEnv 1705312800000
          (csvRow [(''course'', ''Databases''), (''length'', ''2h'')]) 0 = Inr (Some ev)
        \<and> duration ev = ''2h'')"
proof -
  have t1: "findValueByKeys (csvRow [(''course'', ''Databases''), (''time'', ''23:15'')]) titleKeys
      = Some ''Databases''"
    by code_simp
  have t2: "findValueByKeys (csvRow [(''course'', ''Databases''), (''time'', ''23:15'')]) timeKeys
      = Some (''23'' @ '':'' @ ''15'')"
    by code_simp
  have d: "digitsValue ''23'' = Some 23" "digitsValue ''15'' = Some 15"
    by code_simp+
  have now: "\<bar>1705312800000 :: int\<bar> \<le> 8000000000000000" by simp
  have zone: "\<forall>t u. \<bar>localTZA utcEnv t u\<bar> \<le> 86400000"
    by (simp add: utcEnv_def)
  have steady: "\<forall>t u. \<bar>t - 1705312800000\<bar> \<le> 3 * msPerDay \<longrightarrow> localTZA utcEnv t u = 0"
    by (simp add: utcEnv_def)
  have pad: "(''23'' @ '':'' @ ''15'') @ '' - ''
               @ padStart2 (showInt ((23 * 60 + 15 + 90) div 60 mod 24))
               @ '':'' @ padStart2 (showInt ((23 * 60 + 15 + 90) mod 60)) = ''23:15 - 00:45''"
    by code_simp
  have p1: "findValueByKeys (csvRow [(''course'', ''Databases''), (''time'', ''2:30 PM'')]) titleKeys
      = Some ''Databases''"
    by code_simp
  have p2: "findValueByKeys (csvRow [(''course'', ''Databases''), (''time'', ''2:30 PM'')]) timeKeys
      = Some (''2'' @ '':30'' @ '' '' @ ''PM'')"
    by code_simp
  have pd: "digitsValue ''2'' = Some 2" "digitsValue ''30'' = Some 30"
    by code_simp+
  have pw: "list_all isWhiteSpace '' ''" by code_simp
  have pad12: "(padStart2 (showInt (hour24 2 ''PM'')) @ '':'' @ ''30'') @ '' - ''
               @ padStart2 (showInt ((hour24 2 ''PM'' * 60 + 30 + 90) div 60 mod 24))
               @ '':'' @ padStart2 (showInt ((hour24 2 ''PM'' * 60 + 30 + 90) mod 60))
             = ''14:30 - 16:00''"
    by code_simp
  have u1: "findValueByKeys (csvRow [(''course'', ''Databases'')]) titleKeys = Some ''Databases''"
    by code_simp
  have u2: "findValueByKeys (csvRow [(''course'', ''Databases'')]) timeKeys = None"
    by code_simp
  have u3: "findValueByKeys (csvRow [(''course'', ''Databases'')]) durationKeys = None"
    by code_simp
  from mapRowToEvent_default_duration [OF t1 now zone steady, of "''23''" "''15''" 23 15 0] t2 d pad
  have a: "\<exists>ev. mapRowToEvent utcEnv 1705312800000
          (csvRow [(''course'', ''Databases''), (''time'', ''23:15'')]) 0 = Inr (Some ev)
        \<and> time ev = ''23:15 - 00:45''"
    by simp
  from mapRowToEvent_default_duration [OF p1 now zone steady, of "''2''" "''30''" 2 30 0
      "'':30''" "'' ''" "''PM''"] p2 pd pw pad12
  have c: "\<exists>ev. mapRowToEvent utcEnv 1705312800000
          (csvRow [(''course'', ''Databases''), (''time'', ''2:30 PM'')]) 0 = Inr (Some ev)
        \<and> time ev = ''14:30 - 16:00''"
    by simp
  from mapRowToEvent_default_duration [OF u1 now zone steady, of "''23''" "''15''" 23 15 0] u2 u3
  have b: "\<exists>ev. mapRowToEvent utcEnv 1705312800000 (csvRow [(''course'', ''Databases'')]) 0
          = Inr (Some ev)
        \<and> time ev = ''09:00 - 10:30'' \<and> duration ev = ''1h 30m''"
    by simp
  have k1: "findValueByKeys (csvRow [(''course'', ''Databases''), (''length'', ''2h'')]) titleKeys
      = Some ''Databases''"
    by code_simp
  have k2: "findValueByKeys (csvRow [(''course'', ''Databases''), (''length'', ''2h'')]) durationKeys
      = Some ''2h''"
    by code_simp
  from mapRowToEvent_default_duration [OF k1 now zone steady, where dv = "''2h''" and i = 0] k2
  have e: "\<exists>ev. mapRowToEvent utcEnv 1705312800000
          (csvRow [(''course'', ''Databases''), (''length'', ''2h'')]) 0 = Inr (Some ev)
        \<and> duration ev = ''2h''"
    by blast
  from t1 t2 d a p2 pd c u2 u3 b k2 e show ?thesis by blast
qed

section \<open>The validation pass of the AI parser\<close>

text \<open>
  The instant that \<open>setHours\<close> gives for an hour and a minute of at most 100, when the offset
  of the zone does not change within seven days of the date.
\<close>

lemma setHours_value:
  assumes now: "\<bar>now\<bar> \<le> 8000000000000000"
    and steady: "\<forall>t u. \<bar>t - now\<bar> \<le> 7 * msPerDay \<longrightarrow> localTZA E t u = c"
    and tz: "\<bar>c\<bar> \<le> 86400000"
    and h: "\<bar>h\<bar> \<le> 100" and m: "\<bar>m\<bar> \<le> 100"
  shows "setHours E (Some now) (Some h) (Some m)
     = Some (Day (now + c) * msPerDay + h * msPerHour + m * msPerMinute - c)"
proof -
  define D where "D = Day (now + c)"
  define v where "v = D * msPerDay + (h * msPerHour + m * msPerMinute)"
  have db: "D * msPerDay \<le> now + c" "now + c < D * msPerDay + msPerDay"
    using Day_bounds [of "now + c"] by (simp_all add: D_def)
  have hm: "\<bar>h * msPerHour\<bar> \<le> 100 * 3600000" "\<bar>m * msPerMinute\<bar> \<le> 100 * 60000"
    using h m by (simp_all add: msPerHour_def msPerMinute_def abs_mult)
  have l0: "LocalTime E now = now + c"
    by (rule steady_zone(1) [OF steady]) (simp add: msPerDay_def)
  have "\<bar>v - now\<bar> \<le> 7 * msPerDay"
    using db hm tz unfolding v_def msPerDay_def by linarith
  then have uv: "UTC E v = v - c"
    by (rule steady_zone(2) [OF steady])
  have "\<bar>v - c\<bar> \<le> 8640000000000000"
    using db hm now tz unfolding v_def msPerDay_def by linarith
  then show ?thesis
    using uv by (simp add: setHours_def TimeClip_def l0 MakeDate_def MakeTime_def
        v_def D_def add.assoc)
qed

lemma setHours_NaN:
  "h = None \<or> m = None \<Longrightarrow> setHours E tv h m = None"
  by (auto simp: setHours_def split: option.splits)

lemma jsRem_scale: "jsRem (60000 * d) 3600000 div 60000 = jsRem d 60"
proof -
  have "\<bar>60000 * d\<bar> mod 3600000 = 60000 * (\<bar>d\<bar> mod 60)"
  proof -
    have "\<bar>60000 * d\<bar> = 60000 * \<bar>d\<bar>" by (simp add: abs_mult)
    moreover have "(60000 * \<bar>d\<bar>) mod (60000 * 60) = 60000 * (\<bar>d\<bar> mod 60)"
      by (rule mult_mod_right [symmetric])
    ultimately show ?thesis by simp
  qed
  moreover have "sgn (60000 * d) = sgn d"
    by (simp add: sgn_mult)
  ultimately have "jsRem (60000 * d) 3600000 = 60000 * (sgn d * (\<bar>d\<bar> mod 60))"
    by (simp add: jsRem_def)
  then show ?thesis by (simp add: jsRem_def)
qed

lemma hours_scale: "(60000 * d) div (1000 * 60 * 60) = d div (60 :: int)"
proof -
  have "(60000 * d) div (60000 * 60) = d div (60 :: int)"
    by (rule div_mult_mult1) simp
  then show ?thesis by simp
qed

text \<open>
  The difference of the two instants of \<open>calculateDuration\<close> of the AI parser, when both
  readings of the clock fall on the same local day, against the difference of the two
  clock times in minutes that the structured parser computes.
\<close>

lemma duration_of_numbers:
  assumes nS: "\<bar>nS\<bar> \<le> 8000000000000000" and nE: "\<bar>nE\<bar> \<le> 8000000000000000"
    and tz: "\<bar>c\<bar> \<le> 86400000"
    and steady: "\<forall>t u. \<bar>t - nS\<bar> \<le> 7 * msPerDay \<or> \<bar>t - nE\<bar> \<le> 7 * msPerDay
       \<longrightarrow> localTZA E t u = c"
    and day: "Day (LocalTime E nS) = Day (LocalTime E nE)"
    and small: "\<And>x. sh = Some x \<Longrightarrow> \<bar>x\<bar> \<le> 100" "\<And>x. sm = Some x \<Longrightarrow> \<bar>x\<bar> \<le> 100"
      "\<And>x. eh = Some x \<Longrightarrow> \<bar>x\<bar> \<le> 100" "\<And>x. em = Some x \<Longrightarrow> \<bar>x\<bar> \<le> 100"
  shows "(let diffMs = subNumber (setHours E (Some nE) eh em) (setHours E (Some nS) sh sm)
          in renderDuration (map_option (\<lambda>d. d div (1000 * 60 * 60)) diffMs)
               (map_option (\<lambda>d. jsRem d (1000 * 60 * 60) div (1000 * 60)) diffMs))
       = (let diffMinutes = subNumber (addNumber (mulNumber eh (Some 60)) em)
                                      (addNumber (mulNumber sh (Some 60)) sm)
          in renderDuration (map_option (\<lambda>d. d div 60) diffMinutes)
               (map_option (\<lambda>d. jsRem d 60) diffMinutes))"
proof (cases "sh = None \<or> sm = None \<or> eh = None \<or> em = None")
  case True
  then have "subNumber (setHours E (Some nE) eh em) (setHours E (Some nS) sh sm) = None"
    by (auto simp: subNumber_def setHours_NaN split: option.splits)
  moreover from True have "subNumber (addNumber (mulNumber eh (Some 60)) em)
                                      (addNumber (mulNumber sh (Some 60)) sm) = None"
    by (auto simp: subNumber_def addNumber_def mulNumber_def split: option.splits)
  ultimately show ?thesis by simp
next
  case False
  then obtain a b c' d where n: "sh = Some a" "sm = Some b" "eh = Some c'" "em = Some d"
    by auto
  from small n have s: "\<bar>a\<bar> \<le> 100" "\<bar>b\<bar> \<le> 100" "\<bar>c'\<bar> \<le> 100" "\<bar>d\<bar> \<le> 100"
    by simp_all
  have stS: "\<forall>t u. \<bar>t - nS\<bar> \<le> 7 * msPerDay \<longrightarrow> localTZA E t u = c"
    and stE: "\<forall>t u. \<bar>t - nE\<bar> \<le> 7 * msPerDay \<longrightarrow> localTZA E t u = c"
    using steady by simp_all
  have "LocalTime E nS = nS + c" "LocalTime E nE = nE + c"
    using steady_zone(1) [OF stS, of nS] steady_zone(1) [OF stE, of nE]
    by (simp_all add: msPerDay_def)
  with day have same: "Day (nE + c) = Day (nS + c)" by simp
  define D where "D = Day (nS + c)"
  define x where "x = (c' * 60 + d) - (a * 60 + b)"
  have vS: "setHours E (Some nS) (Some a) (Some b)
      = Some (D * msPerDay + a * msPerHour + b * msPerMinute - c)"
    unfolding D_def by (rule setHours_value [OF nS stS tz s(1) s(2)])
  have vE: "setHours E (Some nE) (Some c') (Some d)
      = Some (D * msPerDay + c' * msPerHour + d * msPerMinute - c)"
    unfolding D_def same [symmetric] by (rule setHours_value [OF nE stE tz s(3) s(4)])
  have "subNumber (setHours E (Some nE) eh em) (setHours E (Some nS) sh sm) = Some (60000 * x)"
    unfolding n vS vE
    by (simp add: subNumber_def x_def msPerHour_def msPerMinute_def algebra_simps)
  moreover have "subNumber (addNumber (mulNumber eh (Some 60)) em)
                           (addNumber (mulNumber sh (Some 60)) sm) = Some x"
    by (simp add: n subNumber_def addNumber_def mulNumber_def x_def)
  ultimately show ?thesis
    using jsRem_scale [of x] hours_scale [of x] by simp
qed

lemma modelledClock_small:
  assumes "modelledClock b piece" and "NumberAt (split piece '':'') i = Some x" and "i < 2"
  shows "\<bar>x\<bar> \<le> b"
proof -
  from assms(2) have i: "i < length (split piece '':'')"
    and n: "Number (split piece '':'' ! i) = Some x"
    by (simp_all add: NumberAt_def split: if_splits)
  from i assms(3) have "take 2 (split piece '':'') ! i = split piece '':'' ! i"
    and "i < length (take 2 (split piece '':''))"
    by simp_all
  with assms(1) have "modelledNumber b (split piece '':'' ! i)"
    by (metis modelledClock_def list_all_length)
  with n show ?thesis by (simp add: modelledNumber_def)
qed

lemma calculateDurationLLM_eq:
  assumes nS: "\<bar>nS\<bar> \<le> 8000000000000000" and nE: "\<bar>nE\<bar> \<le> 8000000000000000"
    and tz: "\<bar>c\<bar> \<le> 86400000"
    and steady: "\<forall>t u. \<bar>t - nS\<bar> \<le> 7 * msPerDay \<or> \<bar>t - nE\<bar> \<le> 7 * msPerDay
       \<longrightarrow> localTZA E t u = c"
    and day: "Day (LocalTime E nS) = Day (LocalTime E nE)"
    and small: "modelledRange 100 tr"
  shows "calculateDurationLLM E nS nE (Some (JStr tr)) = calculateDuration tr"
proof (cases "length (split tr '' - '') < 2")
  case True
  then show ?thesis by (simp add: calculateDurationLLM_def calculateDuration_def)
next
  case False
  then obtain p0 p1 rest where parts: "split tr '' - '' = p0 # p1 # rest"
    by (cases "split tr '' - ''"; cases "tl (split tr '' - '')") auto
  with small have b: "modelledClock 100 p0" "modelledClock 100 p1"
    by (simp_all add: modelledRange_def)
  show ?thesis
    using duration_of_numbers [OF nS nE tz steady day,
      of "NumberAt (split p0 '':'') 0" "NumberAt (split p0 '':'') 1"
         "NumberAt (split p1 '':'') 0" "NumberAt (split p1 '':'') 1"]
      modelledClock_small [OF b(1), of 0] modelledClock_small [OF b(1), of 1]
      modelledClock_small [OF b(2), of 0] modelledClock_small [OF b(2), of 1]
    by (simp add: calculateDurationLLM_def calculateDuration_def parts parseTimeString_def
          Let_def)
qed

lemma typeOfName_normalize:
  "typeOfName n = Some ty \<Longrightarrow>
     (if includesStr n ''lab'' then lab
      else if includesStr n ''tutorial'' \<or> includesStr n ''seminar'' then tutorial
      else if includesStr n ''meeting'' then meeting
      else if includesStr n ''break'' then break
      else lecture) = ty"
proof -
  have l: "\<not> includesStr ''lecture'' ''lab''" "\<not> includesStr ''lecture'' ''tutorial''"
    "\<not> includesStr ''lecture'' ''seminar''" "\<not> includesStr ''lecture'' ''meeting''"
    "\<not> includesStr ''lecture'' ''break''"
    by code_simp+
  have b: "includesStr ''lab'' ''lab''" by code_simp
  have t: "\<not> includesStr ''tutorial'' ''lab''" "includesStr ''tutorial'' ''tutorial''"
    by code_simp+
  have m: "\<not> includesStr ''meeting'' ''lab''" "\<not> includesStr ''meeting'' ''tutorial''"
    "\<not> includesStr ''meeting'' ''seminar''" "includesStr ''meeting'' ''meeting''"
    by code_simp+
  have k: "\<not> includesStr ''break'' ''lab''" "\<not> includesStr ''break'' ''tutorial''"
    "\<not> includesStr ''break'' ''seminar''" "\<not> includesStr ''break'' ''meeting''"
    "includesStr ''break'' ''break''"
    by code_simp+
  assume "typeOfName n = Some ty"
  then show ?thesis
    using l b t m k by (auto simp: typeOfName_def split: if_splits)
qed

lemma validateEventType_string:
  "validateEventType (Some (JStr s)) = Inr (normalizeEventType s)"
proof (cases "typeOfName (toLowerCase s)")
  case None
  then show ?thesis
    by (simp add: validateEventType_def normalizeEventType_def Let_def)
next
  case (Some ty)
  from typeOfName_normalize [OF Some] Some show ?thesis
    by (simp add: validateEventType_def normalizeEventType_def Let_def)
qed

lemma validateEventType_missing:
  "validateEventType None = Inr (normalizeEventType ''lecture'')"
proof -
  have "normalizeEventType ''lecture'' = lecture" by code_simp
  then show ?thesis by (simp add: validateEventType_def)
qed


text \<open>
  C4 (the claim as stated fails). The validation pass does not normalize the time as the
  structured parser does: the same value \<open>'2:30 PM'\<close> is kept by the one and becomes
  \<open>'14:30 - 16:00'\<close> in the other. When time and duration are both missing, the duration
  is not the one of the event's time range: the time defaults to \<open>'09:00 - 10:00'\<close> and the
  duration to \<open>'1h 30m'\<close>. And the duration is the difference of two instants of today: in
  the east of the United States on 2024-03-10, when the clocks are set forward at 02:00,
  the time \<open>'01:00 - 04:00'\<close> gets the duration \<open>'2h'\<close>, where the structured parser
  computes \<open>'3h'\<close>.
\<close>

theorem validateEvent_time_counterexample:
  "map_sum (\<lambda>e. e) vTime
     (validateEvent utcEnv (\<lambda>k. 1705312800000)
        (JObj [(''title'', JStr ''Algorithms''), (''time'', JStr ''2:30 PM'')]) 0)
     = Inr (JStr ''2:30 PM'')
   \<and> map_option time
        (projr (mapRowToEvent utcEnv 1705312800000
           (csvRow [(''title'', ''Algorithms''), (''time'', ''2:30 PM'')]) 0))
     = Some ''14:30 - 16:00''
   \<and> map_sum (\<lambda>e. e) (\<lambda>v. (vTime v, vDuration v))
        (validateEvent utcEnv (\<lambda>k. 1705312800000) (JObj [(''title'', JStr ''Algorithms'')]) 0)
     = Inr (JStr ''09:00 - 10:00'', JStr ''1h 30m'')
   \<and> calculateDuration ''09:00 - 10:00'' = ''1h''
   \<and> toISOString (Some 1710048600000) = Inr ''2024-03-10T05:30:00.000Z''
   \<and> map_sum (\<lambda>e. e) vDuration
        (validateEvent newYorkEnv (\<lambda>k. 1710048600000)
           (JObj [(''title'', JStr ''Algorithms''), (''time'', JStr ''01:00 - 04:00'')]) 0)
     = Inr (JStr ''2h'')
   \<and> calculateDuration ''01:00 - 04:00'' = ''3h''"
  by code_simp

text \<open>
  C4 (amended). For every event of a reply that the validation pass accepts: a missing or
  falsy title becomes \<open>'Untitled Event'\<close>; a type that is a string is resolved to the type
  the structured parser's \<open>normalizeEventType\<close> gives that string, and a missing or \<open>null\<close>
  type to the one it gives \<open>'lecture'\<close>; a missing or falsy duration, when the event's time
  is a string, is computed from that time, and it is the structured parser's
  \<open>calculateDuration\<close> of that time when the hour and minute texts of the first two pieces
  are integers of at most 100 or no numeric literals at all, the two readings of the clock
  in that computation fall on the same local day, and the offset of the zone from UTC is
  at most a day and does not change within seven days of them. The time and the location are kept as the reply
  gives them when they are truthy, without normalization, and are \<open>'09:00 - 10:00'\<close> and
  \<open>'TBD'\<close> otherwise; a truthy date is kept as well.
\<close>

theorem validateEvent_defaults:
  assumes v: "validateEvent E readings ev k = Inr v"
  shows "(\<not> truthy (getPropOpt (Some ev) ''title'') \<longrightarrow> vTitle v = JStr ''Untitled Event'')
     \<and> (getPropOpt (Some ev) ''type'' = Some (JStr s) \<longrightarrow> vType v = normalizeEventType s)
     \<and> (getPropOpt (Some ev) ''type'' = None \<or> getPropOpt (Some ev) ''type'' = Some JNull \<longrightarrow>
          vType v = normalizeEventType ''lecture'')
     \<and> (\<not> truthy (getPropOpt (Some ev) ''duration'')
          \<and> getPropOpt (Some ev) ''time'' = Some (JStr tr) \<longrightarrow>
          vDuration v
            = JStr (calculateDurationLLM E (readings 2) (readings 3) (Some (JStr tr))))
     \<and> (\<not> truthy (getPropOpt (Some ev) ''duration'')
          \<and> getPropOpt (Some ev) ''time'' = Some (JStr tr)
          \<and> modelledRange 100 tr
          \<and> \<bar>readings 2\<bar> \<le> 8000000000000000 \<and> \<bar>readings 3\<bar> \<le> 8000000000000000
          \<and> Day (LocalTime E (readings 2)) = Day (LocalTime E (readings 3))
          \<and> \<bar>c\<bar> \<le> 86400000
          \<and> (\<forall>t u. \<bar>t - readings 2\<bar> \<le> 7 * msPerDay \<or> \<bar>t - readings 3\<bar> \<le> 7 * msPerDay
                \<longrightarrow> localTZA E t u = c) \<longrightarrow>
          vDuration v = JStr (calculateDuration tr))
     \<and> (truthy (getPropOpt (Some ev) ''time'') \<longrightarrow>
          Some (vTime v) = getPropOpt (Some ev) ''time'')
     \<and> (\<not> truthy (getPropOpt (Some ev) ''time'') \<longrightarrow> vTime v = JStr ''09:00 - 10:00'')
     \<and> (truthy (getPropOpt (Some ev) ''location'') \<longrightarrow>
          Some (vLocation v) = getPropOpt (Some ev) ''location'')
     \<and> (\<not> truthy (getPropOpt (Some ev) ''location'') \<longrightarrow> vLocation v = JStr ''TBD'')
     \<and> (truthy (getPropOpt (Some ev) ''date'') \<longrightarrow>
          Some (vDate v) = getPropOpt (Some ev) ''date'')"
proof -
  from v obtain ty where
    ty: "validateEventType (getPropOpt (Some ev) ''type'') = Inr ty"
    and vt: "vType v = ty"
    and vtitle: "vTitle v = orElse (getPropOpt (Some ev) ''title'') (JStr ''Untitled Event'')"
    and vdur: "vDuration v = orElse (getPropOpt (Some ev) ''duration'')
        (JStr (calculateDurationLLM E (readings 2) (readings 3) (getPropOpt (Some ev) ''time'')))"
    and vtime: "vTime v = orElse (getPropOpt (Some ev) ''time'') (JStr ''09:00 - 10:00'')"
    and vloc: "vLocation v = orElse (getPropOpt (Some ev) ''location'') (JStr ''TBD'')"
    and vdate: "truthy (getPropOpt (Some ev) ''date'') \<longrightarrow>
        vDate v = the (getPropOpt (Some ev) ''date'')"
    by (auto simp: validateEvent_def Let_def split: sum.splits if_splits)
  have kept: "truthy x \<Longrightarrow> Some (orElse x y) = x" "\<not> truthy x \<Longrightarrow> orElse x y = y" for x y
    by (cases x; simp add: orElse_def)+
  have a: "\<not> truthy (getPropOpt (Some ev) ''title'') \<longrightarrow> vTitle v = JStr ''Untitled Event''"
    using vtitle by (simp add: orElse_def)
  have b: "getPropOpt (Some ev) ''type'' = Some (JStr s) \<longrightarrow> vType v = normalizeEventType s"
    using ty vt by (auto simp: validateEventType_string)
  have "validateEventType (Some JNull) = Inr (normalizeEventType ''lecture'')"
    using validateEventType_missing by (simp add: validateEventType_def)
  then have c: "getPropOpt (Some ev) ''type'' = None \<or> getPropOpt (Some ev) ''type'' = Some JNull
      \<longrightarrow> vType v = normalizeEventType ''lecture''"
    using ty vt by (auto simp: validateEventType_missing)
  have d0: "\<not> truthy (getPropOpt (Some ev) ''duration'')
          \<and> getPropOpt (Some ev) ''time'' = Some (JStr tr) \<longrightarrow>
          vDuration v
            = JStr (calculateDurationLLM E (readings 2) (readings 3) (Some (JStr tr)))"
    using vdur by (auto simp: orElse_def)
  have d: "\<not> truthy (getPropOpt (Some ev) ''duration'')
          \<and> getPropOpt (Some ev) ''time'' = Some (JStr tr)
          \<and> modelledRange 100 tr
          \<and> \<bar>readings 2\<bar> \<le> 8000000000000000 \<and> \<bar>readings 3\<bar> \<le> 8000000000000000
          \<and> Day (LocalTime E (readings 2)) = Day (LocalTime E (readings 3))
          \<and> \<bar>c\<bar> \<le> 86400000
          \<and> (\<forall>t u. \<bar>t - readings 2\<bar> \<le> 7 * msPerDay \<or> \<bar>t - readings 3\<bar> \<le> 7 * msPerDay
                \<longrightarrow> localTZA E t u = c) \<longrightarrow>
          vDuration v = JStr (calculateDuration tr)"
  proof
    assume h: "\<not> truthy (getPropOpt (Some ev) ''duration'')
          \<and> getPropOpt (Some ev) ''time'' = Some (JStr tr)
          \<and> modelledRange 100 tr
          \<and> \<bar>readings 2\<bar> \<le> 8000000000000000 \<and> \<bar>readings 3\<bar> \<le> 8000000000000000
          \<and> Day (LocalTime E (readings 2)) = Day (LocalTime E (readings 3))
          \<and> \<bar>c\<bar> \<le> 86400000
          \<and> (\<forall>t u. \<bar>t - readings 2\<bar> \<le> 7 * msPerDay \<or> \<bar>t - readings 3\<bar> \<le> 7 * msPerDay
                \<longrightarrow> localTZA E t u = c)"
    then have "calculateDurationLLM E (readings 2) (readings 3) (Some (JStr tr))
        = calculateDuration tr"
      by (intro calculateDurationLLM_eq [where c = c]) simp_all
    with h d0 show "vDuration v = JStr (calculateDuration tr)" by simp
  qed
  have e1: "truthy (getPropOpt (Some ev) ''time'') \<longrightarrow>
          Some (vTime v) = getPropOpt (Some ev) ''time''"
    and e2: "\<not> truthy (getPropOpt (Some ev) ''time'') \<longrightarrow> vTime v = JStr ''09:00 - 10:00''"
    using vtime kept by simp_all
  have f1: "truthy (getPropOpt (Some ev) ''location'') \<longrightarrow>
          Some (vLocation v) = getPropOpt (Some ev) ''location''"
    and f2: "\<not> truthy (getPropOpt (Some ev) ''location'') \<longrightarrow> vLocation v = JStr ''TBD''"
    using vloc kept by simp_all
  have g: "truthy (getPropOpt (Some ev) ''date'') \<longrightarrow>
          Some (vDate v) = getPropOpt (Some ev) ''date''"
  proof
    assume t: "truthy (getPropOpt (Some ev) ''date'')"
    then have "getPropOpt (Some ev) ''date'' \<noteq> None"
      by (cases "getPropOpt (Some ev) ''date''") simp_all
    with t vdate show "Some (vDate v) = getPropOpt (Some ev) ''date''" by auto
  qed
  show ?thesis
    by (intro conjI a b c d0 d e1 e2 f1 f2 g)
qed

theorem validateEvent_defaults_witness:
  "(\<exists>v. validateEvent utcEnv (\<lambda>k. 1705312800000)
          (JObj [(''type'', JStr ''Computer Lab''), (''time'', JStr ''10:00 - 12:15'')]) 1 = Inr v
     \<and> vTitle v = JStr ''Untitled Event'' \<and> vType v = lab \<and> vDuration v = JStr ''2h 15m''
     \<and> vTime v = JStr ''10:00 - 12:15'' \<and> vLocation v = JStr ''TBD'')
   \<and> modelledRange 100 ''10:00 - 12:15''
   \<and> Day (LocalTime utcEnv 1705312800000) = Day (LocalTime utcEnv 1705312800000)
   \<and> getPropOpt (Some (JObj [(''title'', JStr ''Algorithms''), (''date'', JStr ''2024-01-15''),
        (''location'', JStr ''Room 2'')])) ''type'' = None
   \<and> (\<exists>v. validateEvent utcEnv (\<lambda>k. 1705312800000)
          (JObj [(''title'', JStr ''Algorithms''), (''date'', JStr ''2024-01-15''),
             (''location'', JStr ''Room 2'')]) 0 = Inr v
     \<and> vType v = lecture \<and> vTime v = JStr ''09:00 - 10:00'' \<and> vDate v = JStr ''2024-01-15''
     \<and> vLocation v = JStr ''Room 2'')"
proof -
  let ?ev = "JObj [(''type'', JStr ''Computer Lab''), (''time'', JStr ''10:00 - 12:15'')]"
  let ?ev2 = "JObj [(''title'', JStr ''Algorithms''), (''date'', JStr ''2024-01-15''),
             (''location'', JStr ''Room 2'')]"
  let ?clock = "\<lambda>k :: nat. 1705312800000 :: int"
  have "\<not> isl (validateEvent utcEnv ?clock ?ev 1)"
    by code_simp
  then obtain v where v: "validateEvent utcEnv ?clock ?ev 1 = Inr v"
    by (cases "validateEvent utcEnv ?clock ?ev 1") auto
  have "\<not> isl (validateEvent utcEnv ?clock ?ev2 0)"
    by code_simp
  then obtain v2 where v2: "validateEvent utcEnv ?clock ?ev2 0 = Inr v2"
    by (cases "validateEvent utcEnv ?clock ?ev2 0") auto
  have now: "\<bar>1705312800000 :: int\<bar> \<le> 8000000000000000" by simp
  have tz: "\<bar>0 :: int\<bar> \<le> 86400000" by simp
  have steady: "\<forall>t u. \<bar>t - 1705312800000\<bar> \<le> 7 * msPerDay \<or> \<bar>t - 1705312800000\<bar> \<le> 7 * msPerDay
      \<longrightarrow> localTZA utcEnv t u = 0"
    by (simp add: utcEnv_def)
  have h1: "\<not> truthy (getPropOpt (Some ?ev) ''title'')" by simp
  have h2: "getPropOpt (Some ?ev) ''type'' = Some (JStr ''Computer Lab'')" by simp
  have h3: "\<not> truthy (getPropOpt (Some ?ev) ''duration'')" by simp
  have h4: "getPropOpt (Some ?ev) ''time'' = Some (JStr ''10:00 - 12:15'')" by simp
  have h5: "modelledRange 100 ''10:00 - 12:15''" by code_simp
  have h6: "getPropOpt (Some ?ev2) ''type'' = None" by simp
  have h7: "truthy (getPropOpt (Some ?ev) ''time'')" by simp
  have h8: "\<not> truthy (getPropOpt (Some ?ev) ''location'')" by simp
  have k1: "\<not> truthy (getPropOpt (Some ?ev2) ''time'')" by simp
  have k2: "truthy (getPropOpt (Some ?ev2) ''date'')" by simp
  have k3: "truthy (getPropOpt (Some ?ev2) ''location'')" by simp
  have k4: "getPropOpt (Some ?ev2) ''date'' = Some (JStr ''2024-01-15'')" by simp
  have k5: "getPropOpt (Some ?ev2) ''location'' = Some (JStr ''Room 2'')" by simp
  have e1: "normalizeEventType ''Computer Lab'' = lab" by code_simp
  have e2: "calculateDuration ''10:00 - 12:15'' = ''2h 15m''" by code_simp
  have e3: "normalizeEventType ''lecture'' = lecture" by code_simp
  have same: "Day (LocalTime utcEnv 1705312800000) = Day (LocalTime utcEnv 1705312800000)"
    by simp
  note first = validateEvent_defaults [OF v, where s = "''Computer Lab''"
      and tr = "''10:00 - 12:15''" and c = 0]
  from first h1 have a1: "vTitle v = JStr ''Untitled Event''" by blast
  from first h2 have "vType v = normalizeEventType ''Computer Lab''" by blast
  with e1 have a2: "vType v = lab" by simp
  from first h3 h4 h5 now same tz steady have "vDuration v = JStr (calculateDuration ''10:00 - 12:15'')"
    by blast
  with e2 have a3: "vDuration v = JStr ''2h 15m''" by simp
  from first h7 have "Some (vTime v) = getPropOpt (Some ?ev) ''time''" by blast
  with h4 have a4: "vTime v = JStr ''10:00 - 12:15''" by simp
  from first h8 have a5: "vLocation v = JStr ''TBD''" by blast
  note second = validateEvent_defaults [OF v2, where s = "''Computer Lab''"
      and tr = "''10:00 - 12:15''" and c = 0]
  from second h6 have "vType v2 = normalizeEventType ''lecture''" by blast
  with e3 have b1: "vType v2 = lecture" by simp
  from second k1 have b2: "vTime v2 = JStr ''09:00 - 10:00''" by blast
  from second k2 have "Some (vDate v2) = getPropOpt (Some ?ev2) ''date''" by blast
  with k4 have b3: "vDate v2 = JStr ''2024-01-15''" by simp
  from second k3 have "Some (vLocation v2) = getPropOpt (Some ?ev2) ''location''" by blast
  with k5 have b4: "vLocation v2 = JStr ''Room 2''" by simp
  from v a1 a2 a3 a4 a5 h5 same h6 v2 b1 b2 b3 b4 show ?thesis by blast
qed

section \<open>Local time and UTC\<close>

text \<open>
  What \<open>getNextWeekday\<close> computes in a zone whose offset from UTC does not change: the
  instant \<open>n\<close> days after now, with \<open>n\<close> between 1 and 7, whose weekday in local time is
  the target; the date it returns is the UTC date of that instant. When local time is UTC
  the returned date has the target weekday and lies one to seven days after today.
\<close>

lemma showDigits_all_digits: "list_all isDigit (showDigits n)"
proof (induction n rule: showDigits.induct)
  case (1 n)
  show ?case
  proof (cases "n < 10")
    case True
    have "isDigit (digitChar n)"
    proof (cases "0 \<le> n")
      case True
      with \<open>n < 10\<close> show ?thesis by (simp add: isDigit_digitChar)
    next
      case False
      then have "digitChar n = digitChar 0" by (simp add: digitChar_def)
      then show ?thesis by (simp add: isDigit_digitChar)
    qed
    with True show ?thesis
      by (subst showDigits.simps) simp
  next
    case False
    then have "list_all isDigit (showDigits (n div 10))"
      by (intro "1.IH") simp
    moreover have "isDigit (digitChar (n mod 10))"
      by (rule isDigit_digitChar) simp_all
    ultimately show ?thesis using False
      by (subst showDigits.simps) simp
  qed
qed

lemma padNat_chars: "c \<in> set (padNat w n) \<Longrightarrow> isDigit c"
proof -
  have "isDigit (CHR ''0'')" by (simp add: isDigit_def codeUnit_def)
  moreover assume "c \<in> set (padNat w n)"
  ultimately show ?thesis
    using showDigits_all_digits [of n] by (auto simp: padNat_def Let_def list_all_iff)
qed

lemma isDigit_not_T: "isDigit c \<Longrightarrow> c \<noteq> CHR ''T''"
  by (auto simp: isDigit_def codeUnit_def)

lemma isoDate_no_T: "CHR ''T'' \<notin> set (isoDate t)"
proof
  assume "CHR ''T'' \<in> set (isoDate t)"
  then have "CHR ''T'' \<in> set (isoYear (YearFromTime t))
      \<or> CHR ''T'' \<in> set (padNat 2 (int (MonthFromTime t) + 1))
      \<or> CHR ''T'' \<in> set (padNat 2 (DateFromTime t))"
    by (auto simp: isoDate_def)
  moreover have "CHR ''T'' \<notin> set (isoYear y)" for y
    by (auto simp: isoYear_def dest: padNat_chars isDigit_not_T)
  ultimately show False
    by (auto dest: padNat_chars isDigit_not_T)
qed

lemma isoDatePart_valid: "isoDatePart (Some t) = Inr (isoDate t)"
proof -
  have "split (isoDate t @ CHR ''T'' # isoTime t) ''T''
      = isoDate t # splitFrom ''T'' [] (isoTime t)"
    using splitFrom_char_first [where c = "CHR ''T''" and xs = "isoDate t" and acc = "[]"
        and rest = "isoTime t", OF isoDate_no_T]
    by (simp add: split_def)
  then show ?thesis
    by (simp add: isoDatePart_def toISOString_def)
qed

lemma WeekDay_range: "0 \<le> WeekDay t \<and> WeekDay t \<le> 6"
  by (simp add: WeekDay_def) 

lemma Day_shift: "Day (t + n * msPerDay) = Day t + n"
  by (simp add: Day_def msPerDay_def)

lemma getNextWeekday_local:
  assumes fixed: "\<forall>t u. localTZA E t u = c"
    and now: "\<bar>now\<bar> \<le> 8000000000000000" and d: "0 \<le> d" "d \<le> 6"
  shows "\<exists>n. 1 \<le> n \<and> n \<le> 7
     \<and> getNextWeekday E now d = Inr (isoDate (now + n * msPerDay))
     \<and> WeekDay (LocalTime E (now + n * msPerDay)) = d"
proof -
  have lt: "LocalTime E t = t + c" and ut: "UTC E t = t - c" for t
    using fixed by (simp_all add: LocalTime_def UTC_def)
  define g where "g = WeekDay (LocalTime E now)"
  define x where "x = d + 7 - g"
  define n where "n = (if x mod 7 = 0 then 7 else x mod 7)"
  have gr: "0 \<le> g" "g \<le> 6" using WeekDay_range [of "LocalTime E now"] by (simp_all add: g_def)
  then have xp: "0 < x" using d by (simp add: x_def)
  then have rem: "jsRem x 7 = x mod 7" by (simp add: jsRem_def)
  have nr: "1 \<le> n" "n \<le> 7"
    unfolding n_def using pos_mod_sign [of 7 x] pos_mod_bound [of 7 x] by auto
  have "getNextWeekday E now d
      = isoDatePart (setDate E (Some now) (addNumber (getDate E (Some now)) (Some n)))"
    by (simp add: getNextWeekday_def getDay_def Let_def g_def [symmetric] x_def [symmetric]
          rem n_def)
  also have "\<dots> = isoDatePart (TimeClip (UTC E (LocalTime E now + n * msPerDay)))"
    by (simp only: setDate_shift)
  also have "UTC E (LocalTime E now + n * msPerDay) = now + n * msPerDay"
    by (simp add: lt ut)
  also have "\<bar>n * msPerDay\<bar> \<le> 7 * 86400000"
    using nr by (simp add: msPerDay_def abs_mult)
  then have "\<bar>now + n * msPerDay\<bar> \<le> 8640000000000000"
    using now by linarith
  then have "TimeClip (now + n * msPerDay) = Some (now + n * msPerDay)"
    by (simp add: TimeClip_def)
  finally have res: "getNextWeekday E now d = Inr (isoDate (now + n * msPerDay))"
    by (simp add: isoDatePart_valid)
  have "LocalTime E (now + n * msPerDay) = LocalTime E now + n * msPerDay"
    by (simp add: lt)
  then have w1: "WeekDay (LocalTime E (now + n * msPerDay)) = (Day (LocalTime E now) + n + 4) mod 7"
    by (simp add: WeekDay_def Day_shift)
  have "(D + n + 4) mod 7 = ((D + 4) mod 7 + n mod 7) mod 7" for D :: int
    by (simp add: mod_add_eq ac_simps)
  then have w2: "(Day (LocalTime E now) + n + 4) mod 7 = (g + n mod 7) mod 7"
    unfolding g_def WeekDay_def .
  have w3: "n mod 7 = x mod 7"
    by (simp add: n_def)
  have "(g + (d + 7 - g) mod 7) mod 7 = d"
    using d by (simp add: mod_add_right_eq)
  then have w4: "(g + x mod 7) mod 7 = d"
    by (simp only: x_def)
  have "WeekDay (LocalTime E (now + n * msPerDay)) = d"
    by (simp only: w1 w2 w3 w4)
  then show ?thesis using nr res by blast
qed

lemma getNextWeekday_utc:
  assumes utc: "\<forall>t u. localTZA E t u = 0"
    and now: "\<bar>now\<bar> \<le> 8000000000000000" and d: "0 \<le> d" "d \<le> 6"
  shows "\<exists>t. getNextWeekday E now d = Inr (isoDate t) \<and> WeekDay t = d
     \<and> 1 \<le> Day t - Day now \<and> Day t - Day now \<le> 7"
proof -
  from getNextWeekday_local [OF utc now d] obtain n where
    n: "1 \<le> n" "n \<le> 7" and g: "getNextWeekday E now d = Inr (isoDate (now + n * msPerDay))"
    and w: "WeekDay (LocalTime E (now + n * msPerDay)) = d"
    by blast
  have "WeekDay (now + n * msPerDay) = d"
    using w utc by (simp add: LocalTime_def)
  moreover have "Day (now + n * msPerDay) - Day now = n"
    by (simp add: Day_shift)
  ultimately show ?thesis using n g by auto
qed

text \<open>
  C5 (the code breaks the claim). \<open>getNextWeekday\<close> counts the days in local time and
  prints the date in UTC. In a zone five and a half hours ahead of UTC, on Monday
  2024-01-15 at 01:00 local time (2024-01-14T19:30Z), a row whose day is \<open>Tuesday\<close> gets the
  date 2024-01-15: a Monday, and the local date of today. In UTC the same row, mapped on
  the same local day, gets Tuesday 2024-01-16, as \<open>getNextWeekday_utc\<close> says of every
  clock reading.
\<close>

theorem normalizeDate_weekday_local_zone:
  "toISOString (Some 1705260600000) = Inr ''2024-01-14T19:30:00.000Z''
   \<and> getDay kolkataEnv (Some 1705260600000) = Some 1
   \<and> isoDate (LocalTime kolkataEnv 1705260600000) = ''2024-01-15''
   \<and> dayIndex ''Tuesday'' = Some 2
   \<and> normalizeDate kolkataEnv 1705260600000 ''Tuesday'' = Inr ''2024-01-15''
   \<and> map_option date
        (projr (mapRowToEvent kolkataEnv 1705260600000
           (csvRow [(''course'', ''Algorithms''), (''day'', ''Tuesday'')]) 0))
     = Some ''2024-01-15''
   \<and> map_option WeekDay (newDate utcEnv ''2024-01-15'') = Some 1
   \<and> normalizeDate utcEnv 1705280400000 ''Tuesday'' = Inr ''2024-01-16''
   \<and> map_option WeekDay (newDate utcEnv ''2024-01-16'') = Some 2"
  by code_simp

text \<open>
  C8 (the code breaks the claim). \<open>parseTimeRange\<close> reads the date as midnight UTC and sets
  the clock time in local time. In a zone five hours behind UTC the event of 2024-01-15,
  09:00 to 10:30, is mapped to the instants 2024-01-14T14:00Z and 2024-01-14T15:30Z: read
  back, the date is 2024-01-14, in UTC and in local time alike, and the range as written is
  14:00 to 15:30. In UTC the same event reads back as it was.
\<close>

theorem convertToCalendarEvent_round_trip_local_zone:
  "date algorithmsEvent = ''2024-01-15'' \<and> time algorithmsEvent = ''09:00 - 10:30''
   \<and> map_sum (\<lambda>e. e) (\<lambda>c. (startTime c, endTime c, payloadDate c, payloadTimeRange c))
        (convertToCalendarEvent newYorkEnv algorithmsEvent)
     = Inr (''2024-01-14T14:00:00.000Z'', ''2024-01-14T15:30:00.000Z'',
            ''2024-01-14'', ''14:00 - 15:30'')
   \<and> map_sum (\<lambda>e. e)
        (\<lambda>(s, e). (map_option (\<lambda>t. isoDate (LocalTime newYorkEnv t)) s,
                   getHours newYorkEnv s, getMinutes newYorkEnv s))
        (parseTimeRange newYorkEnv (time algorithmsEvent) (date algorithmsEvent))
     = Inr (Some ''2024-01-14'', Some 9, Some 0)
   \<and> map_sum (\<lambda>e. e) (\<lambda>c. (payloadDate c, payloadTimeRange c))
        (convertToCalendarEvent utcEnv algorithmsEvent)
     = Inr (''2024-01-15'', ''09:00 - 10:30'')"
proof -
  have a: "date algorithmsEvent = ''2024-01-15'' \<and> time algorithmsEvent = ''09:00 - 10:30''"
    by code_simp
  have b: "map_sum (\<lambda>e. e) (\<lambda>c. (startTime c, endTime c, payloadDate c, payloadTimeRange c))
        (convertToCalendarEvent newYorkEnv algorithmsEvent)
     = Inr (''2024-01-14T14:00:00.000Z'', ''2024-01-14T15:30:00.000Z'',
            ''2024-01-14'', ''14:00 - 15:30'')"
    by code_simp
  have r: "parseTimeRange newYorkEnv (time algorithmsEvent) (date algorithmsEvent)
      = Inr (Some 1705240800000, Some 1705246200000)"
    by code_simp
  have l: "isoDate (LocalTime newYorkEnv 1705240800000) = ''2024-01-14''"
    by code_simp
  have g: "getHours newYorkEnv (Some 1705240800000) = Some 9"
    "getMinutes newYorkEnv (Some 1705240800000) = Some 0"
    by code_simp+
  have c: "map_sum (\<lambda>e. e)
        (\<lambda>(s, e). (map_option (\<lambda>t. isoDate (LocalTime newYorkEnv t)) s,
                   getHours newYorkEnv s, getMinutes newYorkEnv s))
        (parseTimeRange newYorkEnv (time algorithmsEvent) (date algorithmsEvent))
     = Inr (Some ''2024-01-14'', Some 9, Some 0)"
    by (simp add: r l g)
  have d: "map_sum (\<lambda>e. e) (\<lambda>c. (payloadDate c, payloadTimeRange c))
        (convertToCalendarEvent utcEnv algorithmsEvent)
     = Inr (''2024-01-15'', ''09:00 - 10:30'')"
    by code_simp
  from a b c d show ?thesis by (intro conjI) simp_all
qed

text \<open>
  C7 (the code breaks the claim). \<open>convert12to24\<close> matches the marker in any letter case,
  but \<open>normalizeTime\<close> calls it only when the value contains \<open>AM\<close> or \<open>PM\<close> in capitals:
  \<open>'2:30 pm'\<close> is not converted, and is then taken for a bare start time whose minutes are
  not a number. With the marker in capitals the same time is converted, also at the two
  boundary hours.
\<close>

theorem normalizeTime_lowercase_marker:
  "convert12to24 ''2:30 pm'' = ''14:30''
   \<and> normalizeTime utcEnv 1705312800000 ''2:30 pm'' = ''2:30 pm - NaN:NaN''
   \<and> normalizeTime utcEnv 1705312800000 ''2:30 PM'' = ''14:30 - 16:00''
   \<and> normalizeTime utcEnv 1705312800000 ''12 am - 12 pm'' = ''12 am - 12 pm''
   \<and> normalizeTime utcEnv 1705312800000 ''12 AM - 12 PM'' = ''00:00 - 12:00''
   \<and> normalizeTime utcEnv 1705312800000 ''11:30 am - 1:00 PM'' = ''11:30 - 13:00''"
  by code_simp

end
